theory Spec2Isabelle
  imports Main "HOL-Library.Product_Lexorder"
begin

section \<open>Exceptions\<close>

text \<open>
  Every exception that the module raises itself, or that one of the library calls it makes
  can raise on the inputs considered here, is a value. The constructor is the Python
  exception class, the argument its message; a message of the library is given without
  the values it interpolates, and white space that a line break in the source puts into a
  message of the module is left out.
\<close>

datatype error =
    ValueError string
  | OverflowError string
  | TypeError string
  | AttributeError string
  | UnboundLocalError string
  | TransportError string

section \<open>The proleptic Gregorian calendar of Python's \<open>datetime\<close>\<close>

text \<open>
  The module computes with \<open>datetime\<close>, \<open>date\<close> and \<open>timedelta\<close> objects. Their
  arithmetic is the one of the standard library: a date is converted to its ordinal
  (day 1 is 0001-01-01), the ordinal is shifted, and converted back. The definitions below
  follow the library's \<open>_is_leap\<close>, \<open>_days_before_year\<close>, \<open>_days_in_month\<close>,
  \<open>_days_before_month\<close>, \<open>_ymd2ord\<close> and \<open>_ord2ymd\<close>. Python's \<open>//\<close> and \<open>%\<close>
  on integers are floor division and its remainder, as \<open>div\<close> and \<open>mod\<close> on \<open>int\<close>.
\<close>

definition MINYEAR :: int where
  "MINYEAR = 1"

definition MAXYEAR :: int where
  "MAXYEAR = 9999"

definition MAXORDINAL :: int where
  "MAXORDINAL = 3652059"

definition is_leap :: "int \<Rightarrow> bool" where
  "is_leap y = (y mod 4 = 0 \<and> (y mod 100 \<noteq> 0 \<or> y mod 400 = 0))"

definition days_before_year :: "int \<Rightarrow> int" where
  "days_before_year yr =
     (let y = yr - 1 in y * 365 + y div 4 - y div 100 + y div 400)"

definition DAYS_IN_MONTH :: "int list" where
  "DAYS_IN_MONTH = [-1, 31, 28, 31, 30, 31, 30, 31, 31, 30, 31, 30, 31]"

definition DAYS_BEFORE_MONTH :: "int list" where
  "DAYS_BEFORE_MONTH = [-1, 0, 31, 59, 90, 120, 151, 181, 212, 243, 273, 304, 334]"

text \<open>The two tables are only read at a month in \<open>1..12\<close> (the callers check the month first).\<close>

definition days_in_month :: "int \<Rightarrow> int \<Rightarrow> int" where
  "days_in_month yr mo =
     (if mo = 2 \<and> is_leap yr then 29 else DAYS_IN_MONTH ! nat mo)"

definition days_before_month :: "int \<Rightarrow> int \<Rightarrow> int" where
  "days_before_month yr mo =
     DAYS_BEFORE_MONTH ! nat mo + (if mo > 2 \<and> is_leap yr then 1 else 0)"

definition ymd2ord :: "int \<Rightarrow> int \<Rightarrow> int \<Rightarrow> int" where
  "ymd2ord yr mo dy = days_before_year yr + days_before_month yr mo + dy"

text \<open>
  The second half of \<open>_ord2ymd\<close>: from the day number \<open>n\<close> within the year (from 0) to
  month and day. The month is estimated as \<open>(n + 50) >> 5\<close> and corrected downwards.
\<close>

definition ord2md :: "bool \<Rightarrow> int \<Rightarrow> int \<times> int" where
  "ord2md leapyear n =
     (let mo = (n + 50) div 32;
          preceding = DAYS_BEFORE_MONTH ! nat mo
                        + (if mo > 2 \<and> leapyear then 1 else 0)
      in if preceding > n
         then let mo = mo - 1;
                  preceding = preceding
                     - (DAYS_IN_MONTH ! nat mo
                          + (if mo = 2 \<and> leapyear then 1 else 0))
              in (mo, n - preceding + 1)
         else (mo, n - preceding + 1))"

definition ord2ymd :: "int \<Rightarrow> int \<times> int \<times> int" where
  "ord2ymd n0 =
     (let n = n0 - 1;
          n400 = n div 146097; n = n mod 146097;
          yr = n400 * 400 + 1;
          n100 = n div 36524; n = n mod 36524;
          n4 = n div 1461; n = n mod 1461;
          n1 = n div 365; n = n mod 365;
          yr = yr + n100 * 100 + n4 * 4 + n1
      in if n1 = 4 \<or> n100 = 4 then (yr - 1, 12, 31)
         else
           let leapyear = (n1 = 3 \<and> (n4 \<noteq> 24 \<or> n100 = 3));
               (mo, dy) = ord2md leapyear n
           in (yr, mo, dy))"

section \<open>Dates, times, datetimes and timedeltas\<close>

text \<open>
  A \<open>datetime\<close> is a \<open>date\<close> with a time of day, as the Python class is a subclass of
  \<open>date\<close>. Only naive datetimes occur in the module (\<open>datetime.now()\<close>,
  \<open>datetime.strptime\<close>, \<open>datetime.combine\<close>), so there is no time zone field.
\<close>

record date =
  year :: int
  month :: int
  day :: int

record datetime = date +
  hour :: int
  minute :: int
  second :: int
  microsecond :: int

record pytime =
  t_hour :: int
  t_minute :: int
  t_second :: int
  t_microsecond :: int

record timedelta =
  days :: int
  seconds :: int
  microseconds :: int

definition mk_datetime :: "int \<Rightarrow> int \<Rightarrow> int \<Rightarrow> int \<Rightarrow> int \<Rightarrow> int \<Rightarrow> int \<Rightarrow> datetime" where
  "mk_datetime y mo d h mi s us =
     \<lparr>year = y, month = mo, day = d, hour = h, minute = mi, second = s, microsecond = us\<rparr>"

definition check_date_fields :: "int \<Rightarrow> int \<Rightarrow> int \<Rightarrow> error + unit" where
  "check_date_fields y mo d =
     (if \<not> (MINYEAR \<le> y \<and> y \<le> MAXYEAR) then Inl (ValueError ''year is out of range'')
      else if \<not> (1 \<le> mo \<and> mo \<le> 12) then Inl (ValueError ''month must be in 1..12'')
      else if \<not> (1 \<le> d \<and> d \<le> days_in_month y mo)
        then Inl (ValueError ''day is out of range for month'')
      else Inr ())"

definition check_time_fields :: "int \<Rightarrow> int \<Rightarrow> int \<Rightarrow> int \<Rightarrow> error + unit" where
  "check_time_fields h mi s us =
     (if \<not> (0 \<le> h \<and> h \<le> 23) then Inl (ValueError ''hour must be in 0..23'')
      else if \<not> (0 \<le> mi \<and> mi \<le> 59) then Inl (ValueError ''minute must be in 0..59'')
      else if \<not> (0 \<le> s \<and> s \<le> 59) then Inl (ValueError ''second must be in 0..59'')
      else if \<not> (0 \<le> us \<and> us \<le> 999999)
        then Inl (ValueError ''microsecond must be in 0..999999'')
      else Inr ())"

text \<open>
  The constructor \<open>datetime(y, mo, d, h, mi, s, us)\<close> checks its fields; a Python
  \<open>datetime\<close> object therefore always satisfies \<open>valid_datetime\<close>.
\<close>

definition new_datetime ::
  "int \<Rightarrow> int \<Rightarrow> int \<Rightarrow> int \<Rightarrow> int \<Rightarrow> int \<Rightarrow> int \<Rightarrow> error + datetime" where
  "new_datetime y mo d h mi s us =
     (case check_date_fields y mo d of Inl e \<Rightarrow> Inl e
      | Inr _ \<Rightarrow>
     (case check_time_fields h mi s us of Inl e \<Rightarrow> Inl e
      | Inr _ \<Rightarrow> Inr (mk_datetime y mo d h mi s us)))"

definition valid_date :: "'a date_scheme \<Rightarrow> bool" where
  "valid_date d = (check_date_fields (year d) (month d) (day d) = Inr ())"

definition valid_datetime :: "datetime \<Rightarrow> bool" where
  "valid_datetime dt =
     (valid_date dt \<and> check_time_fields (hour dt) (minute dt) (second dt) (microsecond dt) = Inr ())"

text \<open>\<open>dt.replace(day=d)\<close> and \<open>dt.replace(microsecond=0, second=0)\<close> build a new object
  through the constructor.\<close>

definition replace_day :: "datetime \<Rightarrow> int \<Rightarrow> error + datetime" where
  "replace_day dt d =
     new_datetime (year dt) (month dt) d (hour dt) (minute dt) (second dt) (microsecond dt)"

definition replace_second_microsecond :: "datetime \<Rightarrow> int \<Rightarrow> int \<Rightarrow> error + datetime" where
  "replace_second_microsecond dt s us =
     new_datetime (year dt) (month dt) (day dt) (hour dt) (minute dt) s us"

definition date_of :: "'a date_scheme \<Rightarrow> date" where
  "date_of d = \<lparr>year = year d, month = month d, day = day d\<rparr>"

definition time_min :: pytime where
  "time_min = \<lparr>t_hour = 0, t_minute = 0, t_second = 0, t_microsecond = 0\<rparr>"

definition time_max :: pytime where
  "time_max = \<lparr>t_hour = 23, t_minute = 59, t_second = 59, t_microsecond = 999999\<rparr>"

definition combine :: "'a date_scheme \<Rightarrow> pytime \<Rightarrow> datetime" where
  "combine d t =
     mk_datetime (year d) (month d) (day d) (t_hour t) (t_minute t) (t_second t) (t_microsecond t)"

definition toordinal :: "'a date_scheme \<Rightarrow> int" where
  "toordinal d = ymd2ord (year d) (month d) (day d)"

definition fromordinal :: "int \<Rightarrow> date" where
  "fromordinal n = (case ord2ymd n of (y, mo, d) \<Rightarrow> \<lparr>year = y, month = mo, day = d\<rparr>)"

text \<open>
  \<open>timedelta(days, seconds, microseconds)\<close> with integer arguments: the value is
  normalised to \<open>0 \<le> seconds < 86400\<close> and \<open>0 \<le> microseconds < 1000000\<close>, and a day count
  of magnitude above 999999999 raises \<open>OverflowError\<close>.
\<close>

definition new_timedelta :: "int \<Rightarrow> int \<Rightarrow> int \<Rightarrow> error + timedelta" where
  "new_timedelta d s us =
     (let total = (d * 86400 + s) * 1000000 + us;
          d' = total div 86400000000;
          s' = (total div 1000000) mod 86400;
          us' = total mod 1000000
      in if \<bar>d'\<bar> > 999999999
         then Inl (OverflowError ''days; must have magnitude <= 999999999'')
         else Inr \<lparr>days = d', seconds = s', microseconds = us'\<rparr>)"

definition timedelta_hours :: "int \<Rightarrow> error + timedelta" where
  "timedelta_hours h = new_timedelta 0 (h * 3600) 0"

definition timedelta_days :: "int \<Rightarrow> error + timedelta" where
  "timedelta_days d = new_timedelta d 0 0"

definition timedelta_neg :: "timedelta \<Rightarrow> error + timedelta" where
  "timedelta_neg td = new_timedelta (- days td) (- seconds td) (- microseconds td)"

definition timedelta_add :: "timedelta \<Rightarrow> timedelta \<Rightarrow> error + timedelta" where
  "timedelta_add a b =
     new_timedelta (days a + days b) (seconds a + seconds b) (microseconds a + microseconds b)"

text \<open>\<open>datetime.__add__\<close>: \<open>dt + td\<close>.\<close>

definition datetime_add :: "datetime \<Rightarrow> timedelta \<Rightarrow> error + datetime" where
  "datetime_add dt td =
     (case new_timedelta (toordinal dt)
             (hour dt * 3600 + minute dt * 60 + second dt) (microsecond dt) of
        Inl e \<Rightarrow> Inl e
      | Inr delta0 \<Rightarrow>
     (case timedelta_add delta0 td of
        Inl e \<Rightarrow> Inl e
      | Inr delta \<Rightarrow>
          let h = seconds delta div 3600; rem = seconds delta mod 3600;
              mi = rem div 60; s = rem mod 60
          in if 0 < days delta \<and> days delta \<le> MAXORDINAL
             then Inr (combine (fromordinal (days delta))
                        \<lparr>t_hour = h, t_minute = mi, t_second = s,
                         t_microsecond = microseconds delta\<rparr>)
             else Inl (OverflowError ''result out of range'')))"

text \<open>\<open>datetime.__sub__\<close> with a timedelta: \<open>dt - td\<close> is \<open>dt + -td\<close>.\<close>

definition datetime_sub :: "datetime \<Rightarrow> timedelta \<Rightarrow> error + datetime" where
  "datetime_sub dt td =
     (case timedelta_neg td of Inl e \<Rightarrow> Inl e | Inr ntd \<Rightarrow> datetime_add dt ntd)"

text \<open>\<open>datetime.__sub__\<close> with a datetime: \<open>a - b\<close> is a timedelta.\<close>

definition datetime_diff :: "datetime \<Rightarrow> datetime \<Rightarrow> error + timedelta" where
  "datetime_diff a b =
     new_timedelta (toordinal a - toordinal b)
       ((second a + minute a * 60 + hour a * 3600) - (second b + minute b * 60 + hour b * 3600))
       (microsecond a - microsecond b)"

text \<open>
  Comparison of datetimes compares the tuples
  \<open>(year, month, day, hour, minute, second, microsecond)\<close> lexicographically.
\<close>

definition dt_key :: "datetime \<Rightarrow> int \<times> int \<times> int \<times> int \<times> int \<times> int \<times> int" where
  "dt_key dt = (year dt, month dt, day dt, hour dt, minute dt, second dt, microsecond dt)"

definition dt_less :: "datetime \<Rightarrow> datetime \<Rightarrow> bool" where
  "dt_less a b = (dt_key a < dt_key b)"

definition dt_le :: "datetime \<Rightarrow> datetime \<Rightarrow> bool" where
  "dt_le a b = (dt_key a \<le> dt_key b)"

text \<open>The builtin \<open>min(a, b)\<close> keeps \<open>a\<close> unless \<open>b < a\<close>.\<close>

definition py_min :: "datetime \<Rightarrow> datetime \<Rightarrow> datetime" where
  "py_min a b = (if dt_less b a then b else a)"

text \<open>
  \<open>divmod(td.total_seconds(), 3600)[0]\<close>: the number of whole hours of a timedelta,
  rounded towards minus infinity. \<open>total_seconds()\<close> is a float; every timedelta of
  the module is a difference of datetimes whose seconds and microseconds are zero, so the
  float is an integer below \<open>2^53\<close> and the floor division is exact.
\<close>

definition total_microseconds :: "timedelta \<Rightarrow> int" where
  "total_microseconds td = (days td * 86400 + seconds td) * 1000000 + microseconds td"

definition whole_hours :: "timedelta \<Rightarrow> int" where
  "whole_hours td = total_microseconds td div 3600000000"

section \<open>Parsing and printing dates\<close>

text \<open>
  \<open>datetime.strptime(s, "%Y-%m-%d")\<close>. The library turns the format into the regular
  expression \<open>(\d\d\d\d)-(1[0-2]|0[1-9]|[1-9])-(3[01]|[12]\d|0[1-9]|[1-9]| [1-9])\<close>,
  matches it at the start of \<open>s\<close>, rejects text left over after the match, and builds the
  date through the checking constructor. All failures are \<open>ValueError\<close>s. A month
  alternative of two characters and the one of one character cannot both be followed by
  \<open>-\<close>, so the first alternative that matches is the one the matcher keeps.
\<close>

definition is_digit :: "char \<Rightarrow> bool" where
  "is_digit c = (c \<in> set ''0123456789'')"

definition is_digit19 :: "char \<Rightarrow> bool" where
  "is_digit19 c = (c \<in> set ''123456789'')"

definition digit_val :: "char \<Rightarrow> int" where
  "digit_val c = int (of_char c) - 48"

definition match_Y :: "string \<Rightarrow> (int \<times> string) option" where
  "match_Y s =
     (case s of
        a # b # c # d # rest \<Rightarrow>
          if is_digit a \<and> is_digit b \<and> is_digit c \<and> is_digit d
          then Some (1000 * digit_val a + 100 * digit_val b + 10 * digit_val c + digit_val d, rest)
          else None
      | _ \<Rightarrow> None)"

definition match_m :: "string \<Rightarrow> (int \<times> string) option" where
  "match_m s =
     (case s of
        [] \<Rightarrow> None
      | [a] \<Rightarrow> if is_digit19 a then Some (digit_val a, []) else None
      | a # b # rest \<Rightarrow>
          if a = CHR ''1'' \<and> b \<in> set ''012'' then Some (10 + digit_val b, rest)
          else if a = CHR ''0'' \<and> is_digit19 b then Some (digit_val b, rest)
          else if is_digit19 a then Some (digit_val a, b # rest)
          else None)"

definition match_d :: "string \<Rightarrow> (int \<times> string) option" where
  "match_d s =
     (case s of
        [] \<Rightarrow> None
      | [a] \<Rightarrow> if is_digit19 a then Some (digit_val a, []) else None
      | a # b # rest \<Rightarrow>
          if a = CHR ''3'' \<and> b \<in> set ''01'' then Some (30 + digit_val b, rest)
          else if a \<in> set ''12'' \<and> is_digit b then Some (10 * digit_val a + digit_val b, rest)
          else if a = CHR ''0'' \<and> is_digit19 b then Some (digit_val b, rest)
          else if is_digit19 a then Some (digit_val a, b # rest)
          else if a = CHR '' '' \<and> is_digit19 b then Some (digit_val b, rest)
          else None)"

definition strptime_ymd :: "string \<Rightarrow> error + datetime" where
  "strptime_ymd s =
     (let mismatch = Inl (ValueError ''time data does not match format %Y-%m-%d'') in
      case match_Y s of
        None \<Rightarrow> mismatch
      | Some (y, r1) \<Rightarrow>
     (case r1 of
        [] \<Rightarrow> mismatch
      | c1 # r2 \<Rightarrow>
          if c1 \<noteq> CHR ''-'' then mismatch
          else
     (case match_m r2 of
        None \<Rightarrow> mismatch
      | Some (mo, r3) \<Rightarrow>
     (case r3 of
        [] \<Rightarrow> mismatch
      | c2 # r4 \<Rightarrow>
          if c2 \<noteq> CHR ''-'' then mismatch
          else
     (case match_d r4 of
        None \<Rightarrow> mismatch
      | Some (d, r5) \<Rightarrow>
          if r5 \<noteq> [] then Inl (ValueError ''unconverted data remains'')
          else new_datetime y mo d 0 0 0 0)))))"

text \<open>\<open>dt.isoformat()\<close>: \<open>YYYY-MM-DDTHH:MM:SS\<close>, followed by \<open>.ffffff\<close> when the
  microsecond is not zero.\<close>

definition digit_char :: "int \<Rightarrow> char" where
  "digit_char n = char_of (48 + nat (n mod 10))"

definition fmt2 :: "int \<Rightarrow> string" where
  "fmt2 n = [digit_char (n div 10), digit_char n]"

definition fmt4 :: "int \<Rightarrow> string" where
  "fmt4 n = fmt2 (n div 100) @ fmt2 n"

definition fmt6 :: "int \<Rightarrow> string" where
  "fmt6 n = fmt2 (n div 10000) @ fmt4 n"

definition isoformat :: "datetime \<Rightarrow> string" where
  "isoformat dt =
     fmt4 (year dt) @ ''-'' @ fmt2 (month dt) @ ''-'' @ fmt2 (day dt) @ ''T''
       @ fmt2 (hour dt) @ '':'' @ fmt2 (minute dt) @ '':'' @ fmt2 (second dt)
       @ (if microsecond dt \<noteq> 0 then ''.'' @ fmt6 (microsecond dt) else [])"

section \<open>Arguments and their truth values\<close>

text \<open>
  The functions test their optional arguments with \<open>if x:\<close> and \<open>not x\<close>: \<open>None\<close>, the
  empty string and the number zero count as not supplied.
\<close>

datatype fmisid_arg = FmisidStr string | FmisidInt int

datatype date_arg = DateStr string | DateObj date

datatype pyval = PStr string | PInt int | PNone

definition truthy_str :: "string option \<Rightarrow> bool" where
  "truthy_str a = (case a of None \<Rightarrow> False | Some s \<Rightarrow> s \<noteq> [])"

definition truthy_int :: "int option \<Rightarrow> bool" where
  "truthy_int a = (case a of None \<Rightarrow> False | Some n \<Rightarrow> n \<noteq> 0)"

definition truthy_fmisid :: "fmisid_arg option \<Rightarrow> bool" where
  "truthy_fmisid a =
     (case a of None \<Rightarrow> False | Some (FmisidStr s) \<Rightarrow> s \<noteq> [] | Some (FmisidInt n) \<Rightarrow> n \<noteq> 0)"

definition truthy_date :: "date_arg option \<Rightarrow> bool" where
  "truthy_date a =
     (case a of None \<Rightarrow> False | Some (DateStr s) \<Rightarrow> s \<noteq> [] | Some (DateObj d) \<Rightarrow> True)"

definition pyval_of_str :: "string option \<Rightarrow> pyval" where
  "pyval_of_str a = (case a of None \<Rightarrow> PNone | Some s \<Rightarrow> PStr s)"

definition pyval_of_fmisid :: "fmisid_arg option \<Rightarrow> pyval" where
  "pyval_of_fmisid a =
     (case a of None \<Rightarrow> PNone | Some (FmisidStr s) \<Rightarrow> PStr s | Some (FmisidInt n) \<Rightarrow> PInt n)"

section \<open>Input checks and parameter names\<close>

definition fmi_inputchecks ::
  "string option \<Rightarrow> fmisid_arg option \<Rightarrow> string option \<Rightarrow> string option \<Rightarrow> error + unit" where
  "fmi_inputchecks place fmisid parameter model =
     (if \<not> truthy_str parameter
        then Inl (ValueError ''argument 'parameter' not provided'')
      else if \<not> truthy_str place \<and> \<not> truthy_fmisid fmisid
        then Inl (ValueError ''Please provide either place or fmisid argument'')
      else if truthy_str model
        then (if \<not> (model \<in> set [Some ''harmonie'', Some ''hirlam''])
              then Inl (ValueError ''Unknown model. Please choose harmonie or hirlam, default is harmonie.'')
              else Inr ())
      else Inr ())"

definition join_comma :: "string list \<Rightarrow> string" where
  "join_comma xs = (case xs of [] \<Rightarrow> [] | x # rest \<Rightarrow> foldl (\<lambda>acc y. acc @ '', '' @ y) x rest)"

definition observation_params :: "string list" where
  "observation_params =
     [''temperature'', ''temperature_avg'', ''temperature_max'',
      ''temperature_min'', ''humidity'', ''relative_humidity'',
      ''wind_speed_avg'', ''wind_speed_max'', ''wind_speed_min'',
      ''wind_direction'', ''rain_accumulated'', ''rain_intensity_max'',
      ''air_pressure'']"

definition forecast_params :: "string list" where
  "forecast_params =
     [''air_pressure'', ''temperature'', ''humidity'', ''wind_direction'', ''wind_speed'']"

definition param_not_legit :: "string \<Rightarrow> string list \<Rightarrow> error" where
  "param_not_legit wanted_param legit_params =
     ValueError (''Asked parameter '' @ [CHR 0x27] @ wanted_param @ [CHR 0x27]
       @ '' does not match any expected value. Legit values are: ''
       @ join_comma legit_params @ ''.'')"

text \<open>
  A \<open>match\<close> statement none of whose cases applies falls through, and the function then
  returns \<open>None\<close>; the result type therefore is \<open>string option\<close>.
\<close>

definition get_param_name :: "string \<Rightarrow> string option \<Rightarrow> error + string option" where
  "get_param_name wanted_param query_type =
     (if \<not> truthy_str query_type
        then Inl (ValueError ''parameter 'query_type' not provided.'')
      else if \<not> (query_type \<in> set [Some ''observation'', Some ''forecast''])
        then Inl (ValueError ''query_type not one of expected: observation, forecast.'')
      else if query_type = Some ''observation'' then
        (if \<not> (wanted_param \<in> set observation_params)
           then Inl (param_not_legit wanted_param observation_params)
         else if wanted_param = ''temperature'' then Inr (Some ''TA_PT1H_AVG'')
         else if wanted_param = ''temperature_avg'' then Inr (Some ''TA_PT1H_AVG'')
         else if wanted_param = ''temperature_max'' then Inr (Some ''TA_PT1H_MAX'')
         else if wanted_param = ''temperature_min'' then Inr (Some ''TA_PT1H_MIN'')
         else if wanted_param = ''humidity'' then Inr (Some ''RH_PT1H_AVG'')
         else if wanted_param = ''relative_humidity'' then Inr (Some ''RH_PT1H_AVG'')
         else if wanted_param = ''wind_speed'' then Inr (Some ''WS_PT1H_AVG'')
         else if wanted_param = ''wind_speed_avg'' then Inr (Some ''WS_PT1H_AVG'')
         else if wanted_param = ''wind_speed_max'' then Inr (Some ''WS_PT1H_MAX'')
         else if wanted_param = ''wind_speed_min'' then Inr (Some ''WS_PT1H_MIN'')
         else if wanted_param = ''wind_direction'' then Inr (Some ''WD_PT1H_AVG'')
         else if wanted_param = ''rain_accumulated'' then Inr (Some ''PRA_PT1H_ACC'')
         else if wanted_param = ''rain_intensity_max'' then Inr (Some ''PRI_PT1H_MAX'')
         else if wanted_param = ''air_pressure'' then Inr (Some ''PA_PT1H_AVG'')
         else Inr None)
      else if query_type = Some ''forecast'' then
        (if \<not> (wanted_param \<in> set forecast_params)
           then Inl (param_not_legit wanted_param forecast_params)
         else if wanted_param = ''air_pressure'' then Inr (Some ''Pressure'')
         else if wanted_param = ''temperature'' then Inr (Some ''Temperature'')
         else if wanted_param = ''humidity'' then Inr (Some ''Humidity'')
         else if wanted_param = ''wind_direction'' then Inr (Some ''WindDirection'')
         else if wanted_param = ''wind_speed'' then Inr (Some ''WindSpeedMS'')
         else Inr None)
      else Inr None)"

text \<open>
  The documented provider codes of the two categories, as tables of whitelisted name and code,
  in the order of the whitelists.
\<close>

definition observation_codes :: "(string \<times> string) list" where
  "observation_codes =
     [(''temperature'', ''TA_PT1H_AVG''), (''temperature_avg'', ''TA_PT1H_AVG''),
      (''temperature_max'', ''TA_PT1H_MAX''), (''temperature_min'', ''TA_PT1H_MIN''),
      (''humidity'', ''RH_PT1H_AVG''), (''relative_humidity'', ''RH_PT1H_AVG''),
      (''wind_speed_avg'', ''WS_PT1H_AVG''), (''wind_speed_max'', ''WS_PT1H_MAX''),
      (''wind_speed_min'', ''WS_PT1H_MIN''), (''wind_direction'', ''WD_PT1H_AVG''),
      (''rain_accumulated'', ''PRA_PT1H_ACC''), (''rain_intensity_max'', ''PRI_PT1H_MAX''),
      (''air_pressure'', ''PA_PT1H_AVG'')]"

definition forecast_codes :: "(string \<times> string) list" where
  "forecast_codes =
     [(''air_pressure'', ''Pressure''), (''temperature'', ''Temperature''),
      (''humidity'', ''Humidity''), (''wind_direction'', ''WindDirection''),
      (''wind_speed'', ''WindSpeedMS'')]"

section \<open>Date-range inference\<close>

text \<open>
  \<open>_get_datetime_limits(start_date, end_date, hours)\<close>. The current time is the
  argument \<open>clock\<close>, the value \<open>datetime.now()\<close> returns. The local variables \<open>start\<close> and
  \<open>end\<close> are assigned only when the corresponding date is supplied, hence the options;
  reading an unassigned one would raise \<open>UnboundLocalError\<close>. The two date arguments are
  converted before the two checks on the combination of arguments.
\<close>

definition date_of_arg :: "date_arg \<Rightarrow> error + date" where
  "date_of_arg a =
     (case a of
        DateStr s \<Rightarrow> (case strptime_ymd s of Inl e \<Rightarrow> Inl e | Inr dt \<Rightarrow> Inr (date_of dt))
      | DateObj d \<Rightarrow> Inr d)"

definition start_of_arg :: "date_arg option \<Rightarrow> error + datetime option" where
  "start_of_arg start_date =
     (case start_date of
        None \<Rightarrow> Inr None
      | Some a \<Rightarrow>
          if \<not> truthy_date start_date then Inr None
          else (case date_of_arg a of
                  Inl e \<Rightarrow> Inl e
                | Inr d \<Rightarrow> Inr (Some (combine d time_min))))"

definition end_of_arg :: "date_arg option \<Rightarrow> error + datetime option" where
  "end_of_arg end_date =
     (case end_date of
        None \<Rightarrow> Inr None
      | Some a \<Rightarrow>
          if \<not> truthy_date end_date then Inr None
          else (case date_of_arg a of
                  Inl e \<Rightarrow> Inl e
                | Inr d \<Rightarrow>
                    (case replace_second_microsecond (combine d time_max) 0 0 of
                       Inl e \<Rightarrow> Inl e
                     | Inr en \<Rightarrow> Inr (Some en))))"

definition timedelta_of_hours :: "int option \<Rightarrow> error + timedelta" where
  "timedelta_of_hours hours =
     (case hours of
        None \<Rightarrow> Inl (TypeError ''unsupported type for timedelta hours component: NoneType'')
      | Some h \<Rightarrow> timedelta_hours h)"

definition unbound :: "string \<Rightarrow> error" where
  "unbound v = UnboundLocalError v"

definition get_datetime_limits ::
  "datetime \<Rightarrow> date_arg option \<Rightarrow> date_arg option \<Rightarrow> int option
     \<Rightarrow> error + datetime \<times> datetime" where
  "get_datetime_limits clock start_date end_date hours =
     (case start_of_arg start_date of Inl e \<Rightarrow> Inl e | Inr start0 \<Rightarrow>
     (case end_of_arg end_date of Inl e \<Rightarrow> Inl e | Inr end0 \<Rightarrow>
      if \<not> (truthy_int hours \<or> truthy_date start_date \<or> truthy_date end_date)
        then Inl (ValueError ''None provided: hours/start_date/end_date'')
      else if truthy_int hours \<and> truthy_date start_date \<and> truthy_date end_date
        then Inl (ValueError
          ''All provided: hours/start_date/end_date. All three should not be given.'')
      else
     (case replace_second_microsecond clock 0 0 of Inl e \<Rightarrow> Inl e | Inr now \<Rightarrow>
      if \<not> truthy_date start_date \<and> \<not> truthy_date end_date then
        (case timedelta_of_hours hours of Inl e \<Rightarrow> Inl e | Inr td \<Rightarrow>
         (case datetime_sub now td of Inl e \<Rightarrow> Inl e | Inr start \<Rightarrow>
            Inr (start, py_min now now)))
      else if truthy_date end_date \<and> \<not> truthy_date start_date then
        (case end0 of None \<Rightarrow> Inl (unbound ''end'') | Some en \<Rightarrow>
           if truthy_int hours then
             (case timedelta_of_hours hours of Inl e \<Rightarrow> Inl e | Inr td \<Rightarrow>
              (case datetime_sub en td of Inl e \<Rightarrow> Inl e | Inr start \<Rightarrow>
                 Inr (start, py_min now en)))
           else
             (case new_datetime 2018 1 1 0 0 0 0 of Inl e \<Rightarrow> Inl e | Inr start \<Rightarrow>
                Inr (start, py_min now en)))
      else if truthy_date start_date \<and> \<not> truthy_date end_date then
        (case start0 of None \<Rightarrow> Inl (unbound ''start'') | Some start \<Rightarrow>
           if truthy_int hours then
             (case timedelta_of_hours hours of Inl e \<Rightarrow> Inl e | Inr td \<Rightarrow>
              (case datetime_add start td of Inl e \<Rightarrow> Inl e | Inr en \<Rightarrow>
                 Inr (start, py_min now en)))
           else Inr (start, py_min now now))
      else
        (case start0 of None \<Rightarrow> Inl (unbound ''start'') | Some start \<Rightarrow>
         (case end0 of None \<Rightarrow> Inl (unbound ''end'') | Some en \<Rightarrow>
            Inr (start, py_min now en))))))"

text \<open>
  A date object that a caller passes is a valid date, and a combination of the three
  arguments is valid when at least one of them is supplied and not all three are.
\<close>

definition valid_date_arg :: "date_arg option \<Rightarrow> bool" where
  "valid_date_arg a = (case a of Some (DateObj d) \<Rightarrow> valid_date d | _ \<Rightarrow> True)"

definition valid_combination :: "int option \<Rightarrow> date_arg option \<Rightarrow> date_arg option \<Rightarrow> bool" where
  "valid_combination hours start_date end_date =
     ((truthy_int hours \<or> truthy_date start_date \<or> truthy_date end_date)
      \<and> \<not> (truthy_int hours \<and> truthy_date start_date \<and> truthy_date end_date))"

section \<open>The last hour of a month\<close>

text \<open>
  \<open>_month_last_h\<close>, the helper local to \<open>get_observations\<close>: go to day 28, add four
  days, go to day 1, set the time to midnight, subtract one hour.
\<close>

definition month_last_h :: "datetime \<Rightarrow> error + datetime" where
  "month_last_h dt =
     (case replace_day dt 28 of Inl e \<Rightarrow> Inl e | Inr dt1 \<Rightarrow>
     (case timedelta_days 4 of Inl e \<Rightarrow> Inl e | Inr d4 \<Rightarrow>
     (case datetime_add dt1 d4 of Inl e \<Rightarrow> Inl e | Inr dt2 \<Rightarrow>
     (case replace_day dt2 1 of Inl e \<Rightarrow> Inl e | Inr dt3 \<Rightarrow>
     (case timedelta_hours 1 of Inl e \<Rightarrow> Inl e | Inr h1 \<Rightarrow>
        datetime_sub (combine (date_of dt3) time_min) h1)))))"

section \<open>The response document and its conversion to a table\<close>

text \<open>
  An element of the parsed XML document has a tag, a text (\<open>None\<close> when the element has
  none) and children; \<open>tree.iter()\<close> lists an element and its descendants in document
  order. Characters are code points below 256.
\<close>

datatype element = Element (el_tag: string) (el_text: "string option") (el_children: "element list")

fun iter :: "element \<Rightarrow> element list" where
  "iter (Element t x cs) = Element t x cs # concat (map iter cs)"

definition is_space_char :: "char \<Rightarrow> bool" where
  "is_space_char c =
     (let n = (of_char c :: nat)
      in (9 \<le> n \<and> n \<le> 13) \<or> (28 \<le> n \<and> n \<le> 32) \<or> n = 133 \<or> n = 160)"

definition isspace :: "string \<Rightarrow> bool" where
  "isspace s = (s \<noteq> [] \<and> list_all is_space_char s)"

definition const_tags :: "string list" where
  "const_tags =
     [''{http://www.opengis.net/gml/3.2}pos'',
      ''{http://xml.fmi.fi/schema/wfs/2.0}ParameterName'']"

definition time_tag :: string where
  "time_tag = ''{http://xml.fmi.fi/schema/wfs/2.0}Time''"

definition value_tag :: string where
  "value_tag = ''{http://xml.fmi.fi/schema/wfs/2.0}ParameterValue''"

text \<open>The loop over the elements; \<open>el.text.isspace()\<close> on an element without text raises
  \<open>AttributeError\<close>.\<close>

fun collect :: "element list \<Rightarrow> string list \<Rightarrow> string list \<Rightarrow> error + string list \<times> string list" where
  "collect [] tms vals = Inr (tms, vals)"
| "collect (el # els) tms vals =
     (case el_text el of
        None \<Rightarrow> Inl (AttributeError ''NoneType object has no attribute isspace'')
      | Some t \<Rightarrow>
          if \<not> isspace t \<and> \<not> (el_tag el \<in> set const_tags) then
            (if el_tag el = time_tag then collect els (tms @ [t]) vals
             else if el_tag el = value_tag then collect els tms (vals @ [t])
             else collect els tms vals)
          else collect els tms vals)"

text \<open>
  The table library is a collaborator: \<open>pd.to_datetime\<close> and \<open>astype("float")\<close> convert
  a column cell by cell and raise at the first cell they cannot convert. The conversion
  takes the two cell parsers as parameters, with any type of timestamps and of values;
  the parser that \<open>astype("float")\<close> applies to a cell is \<open>py_float\<close> below.
\<close>

fun convert_column :: "(string \<Rightarrow> error + 'a) \<Rightarrow> string list \<Rightarrow> error + 'a list" where
  "convert_column p [] = Inr []"
| "convert_column p (x # xs) =
     (case p x of
        Inl e \<Rightarrow> Inl e
      | Inr v \<Rightarrow> (case convert_column p xs of Inl e \<Rightarrow> Inl e | Inr vs \<Rightarrow> Inr (v # vs)))"

definition tree_to_df ::
  "(string \<Rightarrow> error + 't) \<Rightarrow> (string \<Rightarrow> error + 'f) \<Rightarrow> element \<Rightarrow> error + ('t \<times> 'f) list" where
  "tree_to_df to_datetime to_float tree =
     (case collect (iter tree) [] [] of
        Inl e \<Rightarrow> Inl e
      | Inr (tms, vals) \<Rightarrow>
          if length tms \<noteq> length vals
            then Inl (ValueError ''All arrays must be of the same length'')
          else
     (case convert_column to_datetime tms of
        Inl e \<Rightarrow> Inl e
      | Inr ds \<Rightarrow>
     (case convert_column to_float vals of
        Inl e \<Rightarrow> Inl e
      | Inr vs \<Rightarrow> Inr (zip ds vs))))"

section \<open>Conversion of a cell to a floating-point number\<close>

text \<open>
  \<open>astype("float")\<close> on a column of strings applies \<open>float\<close> to every cell. \<open>float(s)\<close> of
  the interpreter: characters from 127 on are replaced (white space by a blank, anything
  else by \<open>?\<close>, where the text is cut), white space (\<open>Py_ISSPACE\<close>) is stripped at both
  ends, underscores are removed when each stands between two digits, and the rest must
  be, to its end, a decimal number with an optional exponent, or \<open>inf\<close>, \<open>infinity\<close> or
  \<open>nan\<close> in any case, with an optional sign. Every failure is a \<open>ValueError\<close>, whose message
  ends with the text of the cell, left out here.

  A finite result is kept as the decimal that was read, sign, digits and power of ten:
  \<open>Finite neg m e\<close> stands for the binary floating-point number nearest to
  \<open>\<plusminus> m * 10 ^ e\<close>, the rounding itself is not modelled.
\<close>

datatype pyfloat = Finite bool int int | Infinity bool | NaN bool

definition Py_ISSPACE :: "char \<Rightarrow> bool" where
  "Py_ISSPACE c = (let n = (of_char c :: nat) in (9 \<le> n \<and> n \<le> 13) \<or> n = 32)"

definition Py_TOLOWER :: "char \<Rightarrow> char" where
  "Py_TOLOWER c = (let n = (of_char c :: nat) in if 65 \<le> n \<and> n \<le> 90 then char_of (n + 32) else c)"

fun transform_decimal_and_space :: "string \<Rightarrow> string" where
  "transform_decimal_and_space [] = []"
| "transform_decimal_and_space (c # cs) =
     (if (of_char c :: nat) < 127 then c # transform_decimal_and_space cs
      else if is_space_char c then CHR '' '' # transform_decimal_and_space cs
      else ''?'')"

definition to_ascii :: "string \<Rightarrow> string" where
  "to_ascii s =
     (if list_all (\<lambda>c. (of_char c :: nat) < 128) s then s else transform_decimal_and_space s)"

text \<open>
  The removal of underscores; \<open>prev\<close> is the character before, \<open>NUL\<close> at the start.
\<close>

fun remove_underscores :: "char \<Rightarrow> string \<Rightarrow> string option" where
  "remove_underscores prev [] = (if prev = CHR ''_'' then None else Some [])"
| "remove_underscores prev (c # cs) =
     (if c = CHR ''_'' then
        (if is_digit prev then remove_underscores c cs else None)
      else if prev = CHR ''_'' \<and> \<not> is_digit c then None
      else (case remove_underscores c cs of None \<Rightarrow> None | Some r \<Rightarrow> Some (c # r)))"

definition split_sign :: "string \<Rightarrow> bool \<times> string" where
  "split_sign s =
     (case s of
        [] \<Rightarrow> (False, [])
      | c # cs \<Rightarrow>
          if c = CHR ''-'' then (True, cs) else if c = CHR ''+'' then (False, cs) else (False, s))"

definition digits_val :: "string \<Rightarrow> int" where
  "digits_val ds = foldl (\<lambda>a c. 10 * a + digit_val c) 0 ds"

definition MAX_DIGITS :: int where
  "MAX_DIGITS = 1000000000"

definition MAX_ABS_EXP :: int where
  "MAX_ABS_EXP = 1100000000"

text \<open>
  The exponent: \<open>e\<close> or \<open>E\<close>, an optional sign and at least one digit; without a digit
  nothing is read. An exponent of more than nine digits after its leading zeros counts
  as \<open>MAX_ABS_EXP\<close>.
\<close>

definition parse_exponent :: "string \<Rightarrow> int \<times> string" where
  "parse_exponent s =
     (case s of
        [] \<Rightarrow> (0, [])
      | c # cs \<Rightarrow>
          if c = CHR ''e'' \<or> c = CHR ''E'' then
            (case split_sign cs of (esign, t) \<Rightarrow>
               (let ds = takeWhile is_digit t;
                    sig = dropWhile (\<lambda>c. c = CHR ''0'') ds;
                    abs_exp = (if int (length sig) > 9 \<or> digits_val sig > MAX_ABS_EXP
                               then MAX_ABS_EXP else digits_val sig)
                in if ds = [] then (0, s)
                   else (if esign then - abs_exp else abs_exp, dropWhile is_digit t)))
          else (0, s))"

text \<open>
  \<open>_Py_dg_strtod\<close>: the value read and the text left over, or \<open>None\<close> when no number
  starts the text. After the sign come the digits before the point, and after a point the
  digits behind it; a number has at least one digit, before or after the point, and no
  more than \<open>MAX_DIGITS\<close> digits after its leading zeros or behind the point.
\<close>

definition parse_digits :: "string \<Rightarrow> string \<times> string \<times> string" where
  "parse_digits s =
     (let ip = takeWhile is_digit s
      in case dropWhile is_digit s of
           [] \<Rightarrow> (ip, [], [])
         | c # cs \<Rightarrow>
             if c = CHR ''.'' then (ip, takeWhile is_digit cs, dropWhile is_digit cs)
             else (ip, [], c # cs))"

definition dg_strtod :: "string \<Rightarrow> (pyfloat \<times> string) option" where
  "dg_strtod s00 =
     (case split_sign s00 of (sign, s) \<Rightarrow>
     (case parse_digits s of (ip, fp, s2) \<Rightarrow>
        (let ndigits = int (length (dropWhile (\<lambda>c. c = CHR ''0'') (ip @ fp)));
             fraclen = int (length fp)
         in if ip = [] \<and> fp = [] then None
            else if ndigits > MAX_DIGITS \<or> fraclen > MAX_DIGITS then None
            else (case parse_exponent s2 of (e, s3) \<Rightarrow>
                    Some (Finite sign (digits_val (ip @ fp)) (e - fraclen), s3)))))"

definition case_insensitive_match :: "string \<Rightarrow> string \<Rightarrow> bool" where
  "case_insensitive_match s t =
     (length t \<le> length s \<and> map Py_TOLOWER (take (length t) s) = t)"

definition parse_inf_or_nan :: "string \<Rightarrow> (pyfloat \<times> string) option" where
  "parse_inf_or_nan p =
     (case split_sign p of (negate, s) \<Rightarrow>
        if case_insensitive_match s ''inf'' then
          (let s' = drop 3 s
           in Some (Infinity negate,
                    if case_insensitive_match s' ''inity'' then drop 5 s' else s'))
        else if case_insensitive_match s ''nan'' then Some (NaN negate, drop 3 s)
        else None)"

definition ascii_strtod :: "string \<Rightarrow> (pyfloat \<times> string) option" where
  "ascii_strtod s = (case dg_strtod s of Some r \<Rightarrow> Some r | None \<Rightarrow> parse_inf_or_nan s)"

definition py_float :: "string \<Rightarrow> error + pyfloat" where
  "py_float text =
     (let fail = Inl (ValueError ''could not convert string to float'');
          s = dropWhile Py_ISSPACE (to_ascii text)
      in if s = [] then fail
         else
           (let s' = rev (dropWhile Py_ISSPACE (rev s))
            in case (if CHR ''_'' \<in> set s' then remove_underscores (CHR 0x00) s' else Some s') of
                 None \<Rightarrow> fail
               | Some d \<Rightarrow>
                   (case ascii_strtod d of
                      None \<Rightarrow> fail
                    | Some (x, rest) \<Rightarrow> if rest = [] then Inr x else fail)))"

text \<open>
  The characters of the texts that \<open>float\<close> accepts: digits, signs, the point, the
  exponent letters, the underscore, white space, and the letters of \<open>infinity\<close> and \<open>nan\<close>
  in either case.
\<close>

definition float_char :: "char \<Rightarrow> bool" where
  "float_char c =
     (is_digit c \<or> c \<in> set ''+-.eE_'' \<or> is_space_char c \<or> Py_TOLOWER c \<in> set ''infinityan'')"

section \<open>Queries\<close>

text \<open>
  The query parameters are a dictionary from strings to values. The web feature service
  is a collaborator: \<open>wfs\<close> takes the state of the world, the stored query id and the
  parameters, and returns the parsed document or the error of the transport or of the XML
  parser, and the next state of the world. Every request is recorded, with the parameters
  as they are when it is sent.
\<close>

type_synonym params = "string \<rightharpoonup> pyval"

type_synonym query = "string \<times> params"

record ('w, 't, 'f) libs =
  wfs :: "'w \<Rightarrow> string \<Rightarrow> params \<Rightarrow> (error + element) \<times> 'w"
  to_datetime :: "string \<Rightarrow> error + 't"
  to_float :: "string \<Rightarrow> error + 'f"

type_synonym 'w net = "'w \<times> query list"

definition do_query ::
  "('w, 't, 'f) libs \<Rightarrow> 'w net \<Rightarrow> string \<Rightarrow> params \<Rightarrow> (error + element) \<times> 'w net" where
  "do_query L st queryid ps =
     (case st of (w, sent) \<Rightarrow>
        (case wfs L w queryid ps of (r, w') \<Rightarrow> (r, (w', sent @ [(queryid, ps)]))))"

text \<open>\<open>_load_obs\<close>, local to \<open>get_observations\<close>: it writes the two tms into the shared
  dictionary, queries and converts. The updated dictionary is returned with the result.\<close>

definition load_obs ::
  "('w, 't, 'f) libs \<Rightarrow> string \<Rightarrow> params \<Rightarrow> 'w net \<Rightarrow> datetime \<Rightarrow> datetime
     \<Rightarrow> (error + ('t \<times> 'f) list) \<times> params \<times> 'w net" where
  "load_obs L queryid ps st start en =
     (let ps1 = ps(''starttime'' \<mapsto> PStr (isoformat start));
          ps2 = ps1(''endtime'' \<mapsto> PStr (isoformat en))
      in case do_query L st queryid ps2 of
           (Inl e, st') \<Rightarrow> (Inl e, ps2, st')
         | (Inr tree, st') \<Rightarrow> (tree_to_df (to_datetime L) (to_float L) tree, ps2, st'))"

text \<open>
  The cells of the two columns, read off the document: the texts of the \<open>Time\<close> elements
  and of the \<open>ParameterValue\<close> elements, in document order, without those that consist
  of white space only.
\<close>

definition cells_of :: "string \<Rightarrow> element \<Rightarrow> string list" where
  "cells_of tg tree =
     concat (map (\<lambda>el. case el_text el of
                          None \<Rightarrow> []
                        | Some t \<Rightarrow> if el_tag el = tg \<and> \<not> isspace t then [t] else [])
                 (iter tree))"

definition time_cells :: "element \<Rightarrow> string list" where
  "time_cells tree = cells_of time_tag tree"

definition value_cells :: "element \<Rightarrow> string list" where
  "value_cells tree = cells_of value_tag tree"

text \<open>
  For the examples any text is a timestamp, kept as it is.
\<close>

definition example_datetime :: "string \<Rightarrow> error + string" where
  "example_datetime s = Inr s"

definition example_row :: "string \<Rightarrow> string \<Rightarrow> element" where
  "example_row t v =
     Element ''member'' (Some '' '')
       [Element time_tag (Some t) [], Element value_tag (Some v) []]"

definition example_document :: "element list \<Rightarrow> element" where
  "example_document rows = Element ''FeatureCollection'' (Some '' '') rows"

section \<open>Monthly chunks, as the specification describes them\<close>

text \<open>
  The specification of the chunked fetch, in terms of the calendar and not of the
  arithmetic of \<open>_month_last_h\<close>: a range is cut into chunks, each from its start to the
  final hour of the month of its start, the next chunk starting at the first hour of the
  following month, until the final hour of the month lies after the end of the range; the
  final chunk ends at the end of the range. The months stop with December 9999, where this
  definition lets the chunk be final.
\<close>

definition next_ym :: "int \<Rightarrow> int \<Rightarrow> int \<times> int" where
  "next_ym y m = (if m = 12 then (y + 1, 1) else (y, m + 1))"

definition last_hour_of_month :: "datetime \<Rightarrow> datetime" where
  "last_hour_of_month dt =
     mk_datetime (year dt) (month dt) (days_in_month (year dt) (month dt)) 23 0 0 0"

definition first_hour_of_next_month :: "datetime \<Rightarrow> datetime" where
  "first_hour_of_next_month dt =
     (case next_ym (year dt) (month dt) of (y, m) \<Rightarrow> mk_datetime y m 1 0 0 0 0)"

definition has_next_month :: "datetime \<Rightarrow> bool" where
  "has_next_month dt =
     (1 \<le> year dt \<and> year dt \<le> 9999 \<and> 1 \<le> month dt \<and> month dt \<le> 12
      \<and> (year dt < 9999 \<or> month dt < 12))"

function monthly_chunks :: "datetime \<Rightarrow> datetime \<Rightarrow> (datetime \<times> datetime) list" where
  "monthly_chunks start en =
     (if has_next_month start \<and> \<not> dt_less en (last_hour_of_month start)
      then (start, last_hour_of_month start) # monthly_chunks (first_hour_of_next_month start) en
      else [(start, en)])"
  by pat_completeness auto
termination
  by (relation "measure (\<lambda>(start, en). nat (120001 - (12 * year start + month start)))")
     (auto simp: has_next_month_def first_hour_of_next_month_def next_ym_def mk_datetime_def)

declare monthly_chunks.simps [simp del]

text \<open>The request for a chunk, and the chunks loaded one after the other, each table kept.\<close>

definition chunk_query :: "string \<Rightarrow> params \<Rightarrow> datetime \<times> datetime \<Rightarrow> query" where
  "chunk_query queryid ps c =
     (queryid, ps(''starttime'' \<mapsto> PStr (isoformat (fst c)),
                 ''endtime'' \<mapsto> PStr (isoformat (snd c))))"

fun load_chunks ::
  "('w, 't, 'f) libs \<Rightarrow> string \<Rightarrow> params \<Rightarrow> 'w net \<Rightarrow> (datetime \<times> datetime) list
     \<Rightarrow> (error + ('t \<times> 'f) list list) \<times> 'w net" where
  "load_chunks L queryid ps st [] = (Inr [], st)"
| "load_chunks L queryid ps st (c # cs) =
     (case load_obs L queryid ps st (fst c) (snd c) of
        (Inl x, ps', st') \<Rightarrow> (Inl x, st')
      | (Inr tbl, ps', st') \<Rightarrow>
          (case load_chunks L queryid ps' st' cs of
             (Inl x, st'') \<Rightarrow> (Inl x, st'')
           | (Inr tbls, st'') \<Rightarrow> (Inr (tbl # tbls), st'')))"

text \<open>The hourly observations are on the hour; a chunk holds the instants from its start to
  its end, both included.\<close>

definition on_the_hour :: "datetime \<Rightarrow> bool" where
  "on_the_hour t = (valid_datetime t \<and> minute t = 0 \<and> second t = 0 \<and> microsecond t = 0)"

definition holds :: "datetime \<Rightarrow> datetime \<times> datetime \<Rightarrow> bool" where
  "holds t c = (dt_le (fst c) t \<and> dt_le t (snd c))"

text \<open>
  The invariant of the loop: both ends are datetimes, the end lies before the year 9999,
  and the start does so too or is in a January (the year 10000 is never reached).
\<close>

definition chunk_inv :: "datetime \<Rightarrow> datetime \<Rightarrow> bool" where
  "chunk_inv start en =
     (valid_datetime start \<and> valid_datetime en \<and> year en \<le> 9998
      \<and> (year start \<le> 9998 \<or> month start = 1))"

section \<open>Facts about the calendar\<close>

subsection \<open>From an ordinal to a date and back\<close>

definition md_ok :: "bool \<Rightarrow> int \<Rightarrow> bool" where
  "md_ok lp n =
     (case ord2md lp n of (mo, d) \<Rightarrow>
        1 \<le> mo \<and> mo \<le> 12 \<and> 1 \<le> d
        \<and> d \<le> (if mo = 2 \<and> lp then 29 else DAYS_IN_MONTH ! nat mo)
        \<and> DAYS_BEFORE_MONTH ! nat mo + (if mo > 2 \<and> lp then 1 else 0) + d = n + 1)"

lemma md_ok_all: "list_all (md_ok False) [0..364] \<and> list_all (md_ok True) [0..365]"
  by code_simp

lemma md_ok_nonleap: "0 \<le> n \<Longrightarrow> n < 365 \<Longrightarrow> md_ok False n"
  using md_ok_all by (simp add: list_all_iff)

lemma md_ok_leap: "0 \<le> n \<Longrightarrow> n < 366 \<Longrightarrow> md_ok True n"
  using md_ok_all by (simp add: list_all_iff)

lemma dby_decomp:
  assumes "0 \<le> c" "c \<le> 3" "0 \<le> f" "f \<le> 24" "0 \<le> g" "g \<le> 3"
  shows "days_before_year (400 * a + 100 * c + 4 * f + g + 1)
           = 146097 * a + 36524 * c + 1461 * f + 365 * g"
proof -
  let ?Y = "400 * a + 100 * c + 4 * f + g"
  have d4: "?Y div 4 = 100 * a + 25 * c + f"
    by (rule int_div_pos_eq [where r = g]) (use assms in auto)
  have d100: "?Y div 100 = 4 * a + c"
    by (rule int_div_pos_eq [where r = "4 * f + g"]) (use assms in auto)
  have d400: "?Y div 400 = a"
    by (rule int_div_pos_eq [where r = "100 * c + 4 * f + g"]) (use assms in auto)
  show ?thesis
    unfolding days_before_year_def Let_def using d4 d100 d400 by simp
qed

lemma leap_decomp:
  assumes "0 \<le> c" "c \<le> 3" "0 \<le> f" "f \<le> 24" "0 \<le> g" "g \<le> 3"
  shows "is_leap (400 * a + 100 * c + 4 * f + g + 1) = (g = 3 \<and> (f \<noteq> 24 \<or> c = 3))"
proof (cases "g = 3")
  case False
  let ?Y = "400 * a + 100 * c + 4 * f + g + 1"
  have "?Y mod 4 = g + 1"
    by (rule int_mod_pos_eq [where q = "100 * a + 25 * c + f"]) (use assms False in auto)
  then show ?thesis using False assms by (simp add: is_leap_def)
next
  case g3: True
  let ?Y = "400 * a + 100 * c + 4 * f + g + 1"
  have m4: "?Y mod 4 = 0"
    by (rule int_mod_pos_eq [where q = "100 * a + 25 * c + f + 1"]) (use assms g3 in auto)
  show ?thesis
  proof (cases "f = 24")
    case False
    have "?Y mod 100 = 4 * f + 4"
      by (rule int_mod_pos_eq [where q = "4 * a + c"]) (use assms g3 False in auto)
    then show ?thesis using False assms g3 m4 by (simp add: is_leap_def)
  next
    case f24: True
    have m100: "?Y mod 100 = 0"
      by (rule int_mod_pos_eq [where q = "4 * a + c + 1"]) (use assms g3 f24 in auto)
    show ?thesis
    proof (cases "c = 3")
      case True
      have "?Y mod 400 = 0"
        by (rule int_mod_pos_eq [where q = "a + 1"]) (use assms g3 f24 True in auto)
      then show ?thesis using True g3 f24 m4 m100 by (simp add: is_leap_def)
    next
      case False
      have "?Y mod 400 = 100 * c + 100"
        by (rule int_mod_pos_eq [where q = "a"]) (use assms g3 f24 False in auto)
      then show ?thesis using False g3 f24 m4 m100 assms by (simp add: is_leap_def)
    qed
  qed
qed

lemma ord2ymd_sound:
  assumes n1: "1 \<le> n" and res: "ord2ymd n = (y, m, d)"
  shows "ymd2ord y m d = n \<and> 1 \<le> y \<and> 1 \<le> m \<and> m \<le> 12 \<and> 1 \<le> d \<and> d \<le> days_in_month y m"
proof -
  define a where "a = (n - 1) div 146097"
  define r1 where "r1 = (n - 1) mod 146097"
  define c where "c = r1 div 36524"
  define r2 where "r2 = r1 mod 36524"
  define f where "f = r2 div 1461"
  define r3 where "r3 = r2 mod 1461"
  define g where "g = r3 div 365"
  define r where "r = r3 mod 365"
  define lp where "lp = (g = 3 \<and> (f \<noteq> 24 \<or> c = 3))"
  have e0: "n - 1 = 146097 * a + r1" and b1: "0 \<le> r1" "r1 < 146097"
    by (simp_all add: a_def r1_def)
  have a0: "0 \<le> a" using n1 by (simp add: a_def pos_imp_zdiv_nonneg_iff)
  have e1: "r1 = 36524 * c + r2" and b2: "0 \<le> r2" "r2 < 36524"
    by (simp_all add: c_def r2_def)
  have e2: "r2 = 1461 * f + r3" and b3: "0 \<le> r3" "r3 < 1461"
    by (simp_all add: f_def r3_def)
  have e3: "r3 = 365 * g + r" and b4: "0 \<le> r" "r < 365"
    by (simp_all add: g_def r_def)
  have c0: "0 \<le> c" using b1 by (simp add: c_def pos_imp_zdiv_nonneg_iff)
  have f0: "0 \<le> f" using b2 by (simp add: f_def pos_imp_zdiv_nonneg_iff)
  have g0: "0 \<le> g" using b3 by (simp add: g_def pos_imp_zdiv_nonneg_iff)
  have c4: "c \<le> 4" using e1 b1 b2 by linarith
  have f24: "f \<le> 24" using e2 b2 b3 by linarith
  have g4: "g \<le> 4" using e3 b3 b4 by linarith
  have unf: "ord2ymd n =
      (if g = 4 \<or> c = 4 then (400 * a + 100 * c + 4 * f + g, 12, 31)
       else (case ord2md lp r of (mm, dd) \<Rightarrow> (400 * a + 100 * c + 4 * f + g + 1, mm, dd)))"
    unfolding ord2ymd_def Let_def a_def r1_def c_def r2_def f_def r3_def g_def r_def lp_def
    by (simp add: algebra_simps)
  show ?thesis
  proof (cases "c = 4")
    case True
    then have "r2 = 0" using e1 b1 b2 by linarith
    then have z: "f = 0" "g = 0" "r = 0" "r3 = 0"
      by (simp_all add: f_def r3_def g_def r_def)
    have y: "y = 400 * (a + 1)" "m = 12" "d = 31" using unf res True z by simp_all
    have "days_before_year (400 * a + 100 * 3 + 4 * 24 + 3 + 1)
            = 146097 * a + 36524 * 3 + 1461 * 24 + 365 * 3"
      by (rule dby_decomp) simp_all
    moreover have "is_leap (400 * a + 100 * 3 + 4 * 24 + 3 + 1)
            = (3 = (3::int) \<and> ((24::int) \<noteq> 24 \<or> 3 = (3::int)))"
      by (rule leap_decomp) simp_all
    ultimately have "days_before_year y = 146097 * a + 145731" "is_leap y"
      using y by (simp_all add: algebra_simps)
    then show ?thesis using y e0 e1 True \<open>r2 = 0\<close> a0
      by (simp add: ymd2ord_def days_before_month_def days_in_month_def
            DAYS_BEFORE_MONTH_def DAYS_IN_MONTH_def)
  next
    case cn4: False
    then have c3: "c \<le> 3" using c4 by simp
    show ?thesis
    proof (cases "g = 4")
      case True
      then have r0: "r = 0" using e3 b3 b4 by linarith
      have f23: "f \<le> 23" using e2 e3 True b2 b4 c3 e1 b1 by linarith
      have y: "y = 400 * a + 100 * c + 4 * (f + 1) + 0" "m = 12" "d = 31"
        using unf res True by simp_all
      have "days_before_year (400 * a + 100 * c + 4 * f + 3 + 1)
              = 146097 * a + 36524 * c + 1461 * f + 365 * 3"
        by (rule dby_decomp) (use c0 c3 f0 f23 in simp_all)
      moreover have "is_leap (400 * a + 100 * c + 4 * f + 3 + 1)
              = (3 = (3::int) \<and> (f \<noteq> 24 \<or> c = 3))"
        by (rule leap_decomp) (use c0 c3 f0 f23 in simp_all)
      ultimately have "days_before_year y = 146097 * a + 36524 * c + 1461 * f + 1095" "is_leap y"
        using y f23 by (simp_all add: algebra_simps)
      then show ?thesis using y e0 e1 e2 e3 True r0 a0 c0 f0
        by (simp add: ymd2ord_def days_before_month_def days_in_month_def
              DAYS_BEFORE_MONTH_def DAYS_IN_MONTH_def)
    next
      case gn4: False
      then have g3: "g \<le> 3" using g4 by simp
      obtain mm dd where md: "ord2md lp r = (mm, dd)" by (cases "ord2md lp r")
      have y: "y = 400 * a + 100 * c + 4 * f + g + 1" "m = mm" "d = dd"
        using unf res cn4 gn4 md by simp_all
      have dby: "days_before_year y = 146097 * a + 36524 * c + 1461 * f + 365 * g"
        unfolding y by (rule dby_decomp) (use c0 c3 f0 f24 g0 g3 in simp_all)
      have lpy: "is_leap y = lp"
        unfolding y lp_def by (rule leap_decomp) (use c0 c3 f0 f24 g0 g3 in simp_all)
      have "md_ok lp r"
        by (cases lp) (use b4 md_ok_leap md_ok_nonleap in auto)
      then have ok: "1 \<le> mm" "mm \<le> 12" "1 \<le> dd"
          "dd \<le> (if mm = 2 \<and> lp then 29 else DAYS_IN_MONTH ! nat mm)"
          "DAYS_BEFORE_MONTH ! nat mm + (if mm > 2 \<and> lp then 1 else 0) + dd = r + 1"
        using md by (simp_all add: md_ok_def)
      have y1: "1 \<le> y" using y a0 c0 f0 g0 by simp
      have "ymd2ord y m d = n"
        using dby lpy ok(5) y(2,3) e0 e1 e2 e3
        by (simp add: ymd2ord_def days_before_month_def)
      moreover have "d \<le> days_in_month y m"
        using ok(4) lpy y(2,3) by (simp add: days_in_month_def)
      ultimately show ?thesis using ok y y1 by simp
    qed
  qed
qed



subsection \<open>The ordinal is monotone in the date\<close>

lemma month_cases:
  assumes "1 \<le> m" "m \<le> 12"
  shows "m = 1 \<or> m = 2 \<or> m = 3 \<or> m = 4 \<or> m = 5 \<or> m = 6
         \<or> m = 7 \<or> m = 8 \<or> m = 9 \<or> m = 10 \<or> m = 11 \<or> m = (12::int)"
  using assms by arith

lemma days_in_month_bounds:
  assumes "1 \<le> m" "m \<le> 12"
  shows "28 \<le> days_in_month y m \<and> days_in_month y m \<le> 31"
  using month_cases [OF assms]
  by (auto simp: days_in_month_def DAYS_IN_MONTH_def)

lemma days_before_month_next:
  assumes "1 \<le> m" "m \<le> 11"
  shows "days_before_month y (m + 1) = days_before_month y m + days_in_month y m"
proof -
  have "m = 1 \<or> m = 2 \<or> m = 3 \<or> m = 4 \<or> m = 5 \<or> m = 6
         \<or> m = 7 \<or> m = 8 \<or> m = 9 \<or> m = 10 \<or> m = 11"
    using assms by arith
  then show ?thesis
    by (auto simp: days_before_month_def days_in_month_def DAYS_BEFORE_MONTH_def DAYS_IN_MONTH_def)
qed

lemma days_before_month_first: "days_before_month y 1 = 0"
  by (simp add: days_before_month_def DAYS_BEFORE_MONTH_def)

lemma days_before_month_last:
  "days_before_month y 12 + days_in_month y 12 = (if is_leap y then 366 else 365)"
  by (simp add: days_before_month_def days_in_month_def DAYS_BEFORE_MONTH_def DAYS_IN_MONTH_def)

lemma days_before_month_step_le:
  assumes "1 \<le> m" "m \<le> 11"
  shows "days_before_month y m \<le> days_before_month y (m + 1)"
  using days_before_month_next [OF assms] days_in_month_bounds [of m y] assms by simp

lemma days_before_month_mono:
  assumes "1 \<le> m" "m \<le> m'" "m' \<le> 12"
  shows "days_before_month y m \<le> days_before_month y m'"
  using assms(2,1,3)
proof (induction m' rule: int_ge_induct)
  case base
  show ?case by simp
next
  case (step i)
  have "days_before_month y i \<le> days_before_month y (i + 1)"
    by (rule days_before_month_step_le) (use step in simp_all)
  moreover have "days_before_month y m \<le> days_before_month y i"
    using step by simp
  ultimately show ?case by simp
qed

lemma div_pred:
  assumes "0 < k"
  shows "(y::int) div k = (y - 1) div k + (if y mod k = 0 then 1 else 0)"
proof -
  define q where "q = (y - 1) div k"
  define r where "r = (y - 1) mod k"
  have y: "y = k * q + (r + 1)" and r: "0 \<le> r" "r < k"
    using assms by (simp_all add: q_def r_def)
  show ?thesis
  proof (cases "r + 1 = k")
    case True
    then have y': "y = k * (q + 1) + 0" using y by (simp add: algebra_simps)
    have "y div k = q + 1" by (rule int_div_pos_eq [OF y']) (use assms in simp_all)
    moreover have "y mod k = 0" by (rule int_mod_pos_eq [OF y']) (use assms in simp_all)
    ultimately show ?thesis by (simp add: q_def)
  next
    case False
    then have b: "0 \<le> r + 1" "r + 1 < k" using r by simp_all
    have "y div k = q" by (rule int_div_pos_eq [OF y b])
    moreover have "y mod k = r + 1" by (rule int_mod_pos_eq [OF y b])
    ultimately show ?thesis using r by (simp add: q_def)
  qed
qed

lemma div_pred_0: "0 < k \<Longrightarrow> y mod k = 0 \<Longrightarrow> (y::int) div k = (y - 1) div k + 1"
  using div_pred [of k y] by simp

lemma div_pred_n: "0 < k \<Longrightarrow> y mod k \<noteq> 0 \<Longrightarrow> (y::int) div k = (y - 1) div k"
  using div_pred [of k y] by simp

lemma days_before_year_step:
  "days_before_year (y + 1) = days_before_year y + (if is_leap y then 366 else 365)"
proof -
  have "y mod 4 = y mod 100 mod 4" by (simp add: mod_mod_cancel)
  then have i1: "y mod 100 = 0 \<Longrightarrow> y mod 4 = 0" by simp
  have "y mod 100 = y mod 400 mod 100" by (simp add: mod_mod_cancel)
  then have i2: "y mod 400 = 0 \<Longrightarrow> y mod 100 = 0" by simp
  define a where "a = (y - 1) div 4"
  define b where "b = (y - 1) div 100"
  define c where "c = (y - 1) div 400"
  have e: "days_before_year (y + 1) = y * 365 + y div 4 - y div 100 + y div 400"
    by (simp add: days_before_year_def)
  have f: "days_before_year y = (y - 1) * 365 + a - b + c"
    by (simp add: days_before_year_def Let_def a_def b_def c_def)
  show ?thesis
  proof (cases "y mod 4 = 0")
    case False
    then have n: "y mod 100 \<noteq> 0" "y mod 400 \<noteq> 0" using i1 i2 by auto
    have l: "\<not> is_leap y" using False by (simp add: is_leap_def)
    have "y div 4 = a" "y div 100 = b" "y div 400 = c"
      unfolding a_def b_def c_def using False n by (simp_all add: div_pred_n)
    then show ?thesis unfolding e f using l by simp
  next
    case m4: True
    show ?thesis
    proof (cases "y mod 100 = 0")
      case False
      then have n: "y mod 400 \<noteq> 0" using i2 by auto
      have l: "is_leap y" using False m4 by (simp add: is_leap_def)
      have "y div 4 = a + 1" "y div 100 = b" "y div 400 = c"
        unfolding a_def b_def c_def using False m4 n by (simp_all add: div_pred_n div_pred_0)
      then show ?thesis unfolding e f using l by simp
    next
      case m100: True
      show ?thesis
      proof (cases "y mod 400 = 0")
        case True
        have l: "is_leap y" using True m4 by (simp add: is_leap_def)
        have "y div 4 = a + 1" "y div 100 = b + 1" "y div 400 = c + 1"
          unfolding a_def b_def c_def using True m4 m100 by (simp_all add: div_pred_0)
        then show ?thesis unfolding e f using l by simp
      next
        case False
        have l: "\<not> is_leap y" using False m100 by (simp add: is_leap_def)
        have "y div 4 = a + 1" "y div 100 = b + 1" "y div 400 = c"
          unfolding a_def b_def c_def using False m4 m100
          by (simp_all add: div_pred_0 div_pred_n)
        then show ?thesis unfolding e f using l by simp
      qed
    qed
  qed
qed

lemma days_before_year_mono:
  assumes "y \<le> y'"
  shows "days_before_year y \<le> days_before_year y'"
  using assms
proof (induction y' rule: int_ge_induct)
  case base
  show ?case by simp
next
  case (step i)
  then show ?case using days_before_year_step [of i] by (simp split: if_splits)
qed

lemma ymd2ord_in_year:
  assumes "1 \<le> m" "m \<le> 12" "1 \<le> d" "d \<le> days_in_month y m"
  shows "days_before_year y < ymd2ord y m d \<and> ymd2ord y m d \<le> days_before_year (y + 1)"
proof -
  have "0 \<le> days_before_month y m"
    using days_before_month_mono [of 1 m y] assms days_before_month_first by simp
  moreover have "days_before_month y m + days_in_month y m \<le> (if is_leap y then 366 else 365)"
  proof (cases "m = 12")
    case True
    then show ?thesis using days_before_month_last [of y] by simp
  next
    case False
    then have m11: "m \<le> 11" using assms by simp
    have "days_before_month y (m + 1) \<le> days_before_month y 12"
      by (rule days_before_month_mono) (use assms m11 in simp_all)
    then show ?thesis
      using days_before_month_next [OF assms(1) m11] days_before_month_last [of y]
        days_in_month_bounds [of 12 y]
      by (simp split: if_splits)
  qed
  ultimately show ?thesis
    using assms days_before_year_step [of y] by (simp add: ymd2ord_def split: if_splits)
qed

lemma ymd2ord_less:
  assumes a: "1 \<le> m" "m \<le> 12" "1 \<le> d" "d \<le> days_in_month y m"
    and b: "1 \<le> m'" "m' \<le> 12" "1 \<le> d'" "d' \<le> days_in_month y' m'"
    and lt: "(y, m, d) < (y', m', d')"
  shows "ymd2ord y m d < ymd2ord y' m' d'"
proof -
  consider "y < y'" | "y = y'" "m < m'" | "y = y'" "m = m'" "d < d'"
    using lt by (auto simp: order_le_less)
  then show ?thesis
  proof cases
    case 1
    then have "days_before_year (y + 1) \<le> days_before_year y'"
      by (intro days_before_year_mono) simp
    then show ?thesis
      using ymd2ord_in_year [OF a] ymd2ord_in_year [OF b] by simp
  next
    case 2
    have m11: "m \<le> 11" using 2 b by simp
    have "days_before_month y (m + 1) \<le> days_before_month y m'"
      by (rule days_before_month_mono) (use a b 2 in simp_all)
    then show ?thesis
      using days_before_month_next [OF a(1) m11] a b 2 by (simp add: ymd2ord_def)
  next
    case 3
    then show ?thesis by (simp add: ymd2ord_def)
  qed
qed

lemma ymd2ord_inj:
  assumes a: "1 \<le> m" "m \<le> 12" "1 \<le> d" "d \<le> days_in_month y m"
    and b: "1 \<le> m'" "m' \<le> 12" "1 \<le> d'" "d' \<le> days_in_month y' m'"
    and eq: "ymd2ord y m d = ymd2ord y' m' d'"
  shows "y = y' \<and> m = m' \<and> d = d'"
proof -
  have "\<not> (y, m, d) < (y', m', d')"
    using ymd2ord_less [OF a b] eq by auto
  moreover have "\<not> (y', m', d') < (y, m, d)"
    using ymd2ord_less [OF b a] eq by auto
  ultimately have "(y, m, d) = (y', m', d')"
    by (meson linorder_neqE)
  then show ?thesis by simp
qed

lemma days_before_year_1: "days_before_year 1 = 0"
  by (simp add: days_before_year_def)

lemma days_before_year_10000: "days_before_year 10000 = 3652059"
  by (simp add: days_before_year_def)

lemma ymd2ord_range:
  assumes "1 \<le> y" "y \<le> 9999" "1 \<le> m" "m \<le> 12" "1 \<le> d" "d \<le> days_in_month y m"
  shows "1 \<le> ymd2ord y m d \<and> ymd2ord y m d \<le> 3652059"
proof -
  have "days_before_year 1 \<le> days_before_year y"
    by (rule days_before_year_mono) (use assms in simp)
  moreover have "days_before_year (y + 1) \<le> days_before_year 10000"
    by (rule days_before_year_mono) (use assms in simp)
  ultimately show ?thesis
    using ymd2ord_in_year [OF assms(3-6)] days_before_year_1 days_before_year_10000 by simp
qed

lemma ord2ymd_ymd2ord:
  assumes "1 \<le> y" "1 \<le> m" "m \<le> 12" "1 \<le> d" "d \<le> days_in_month y m"
  shows "ord2ymd (ymd2ord y m d) = (y, m, d)"
proof -
  obtain y' m' d' where r: "ord2ymd (ymd2ord y m d) = (y', m', d')"
    by (cases "ord2ymd (ymd2ord y m d)") auto
  have "days_before_year 1 \<le> days_before_year y"
    by (rule days_before_year_mono) (use assms in simp)
  then have n1: "1 \<le> ymd2ord y m d"
    using ymd2ord_in_year [OF assms(2-5)] days_before_year_1 by simp
  have s: "ymd2ord y' m' d' = ymd2ord y m d" "1 \<le> m'" "m' \<le> 12" "1 \<le> d'"
      "d' \<le> days_in_month y' m'"
    using ord2ymd_sound [OF n1 r] by simp_all
  have "y' = y \<and> m' = m \<and> d' = d"
    by (rule ymd2ord_inj [OF s(2-5) assms(2-5) s(1)])
  then show ?thesis using r by simp
qed

lemma ord2ymd_year_le:
  assumes "1 \<le> n" "n \<le> 3652059" "ord2ymd n = (y, m, d)"
  shows "y \<le> 9999"
proof (rule ccontr)
  assume "\<not> y \<le> 9999"
  then have "days_before_year 10000 \<le> days_before_year y"
    by (intro days_before_year_mono) simp
  moreover have "days_before_year y < n"
    using ord2ymd_sound [OF assms(1,3)] ymd2ord_in_year [of m d y] by simp
  ultimately show False using assms(2) days_before_year_10000 by simp
qed



subsection \<open>Datetimes on the line of microseconds\<close>

definition tod_us :: "datetime \<Rightarrow> int" where
  "tod_us dt = (hour dt * 3600 + minute dt * 60 + second dt) * 1000000 + microsecond dt"

definition dt_us :: "datetime \<Rightarrow> int" where
  "dt_us dt = toordinal dt * 86400000000 + tod_us dt"

lemma check_date_fields_Inr:
  "(check_date_fields y m d = Inr u)
     = (1 \<le> y \<and> y \<le> 9999 \<and> 1 \<le> m \<and> m \<le> 12 \<and> 1 \<le> d \<and> d \<le> days_in_month y m)"
  by (auto simp: check_date_fields_def MINYEAR_def MAXYEAR_def)

lemma check_time_fields_Inr:
  "(check_time_fields h mi s us = Inr u)
     = (0 \<le> h \<and> h \<le> 23 \<and> 0 \<le> mi \<and> mi \<le> 59 \<and> 0 \<le> s \<and> s \<le> 59 \<and> 0 \<le> us \<and> us \<le> 999999)"
  by (auto simp: check_time_fields_def)

lemma valid_datetime_iff:
  "valid_datetime dt =
     (1 \<le> year dt \<and> year dt \<le> 9999 \<and> 1 \<le> month dt \<and> month dt \<le> 12
      \<and> 1 \<le> day dt \<and> day dt \<le> days_in_month (year dt) (month dt)
      \<and> 0 \<le> hour dt \<and> hour dt \<le> 23 \<and> 0 \<le> minute dt \<and> minute dt \<le> 59
      \<and> 0 \<le> second dt \<and> second dt \<le> 59 \<and> 0 \<le> microsecond dt \<and> microsecond dt \<le> 999999)"
  by (simp add: valid_datetime_def valid_date_def check_date_fields_Inr check_time_fields_Inr)

lemma new_datetime_Inr:
  "(new_datetime y m d h mi s us = Inr r)
     = (r = mk_datetime y m d h mi s us \<and> valid_datetime (mk_datetime y m d h mi s us))"
  by (auto simp: new_datetime_def valid_datetime_def valid_date_def mk_datetime_def
           split: sum.splits)

lemma tod_us_bounds:
  assumes "valid_datetime dt"
  shows "0 \<le> tod_us dt \<and> tod_us dt < 86400000000"
  using assms by (simp add: valid_datetime_iff tod_us_def)

lemma toordinal_bounds:
  assumes "valid_datetime dt"
  shows "1 \<le> toordinal dt \<and> toordinal dt \<le> 3652059"
  using assms ymd2ord_range [of "year dt" "month dt" "day dt"]
  by (simp add: valid_datetime_iff toordinal_def)

lemma new_timedelta_Inr:
  assumes "new_timedelta d s us = Inr td"
  shows "total_microseconds td = (d * 86400 + s) * 1000000 + us
         \<and> 0 \<le> seconds td \<and> seconds td < 86400
         \<and> 0 \<le> microseconds td \<and> microseconds td < 1000000
         \<and> \<bar>days td\<bar> \<le> 999999999"
proof -
  define T where "T = (d * 86400 + s) * 1000000 + us"
  define q where "q = T div 1000000"
  have td: "days td = T div 86400000000" "seconds td = q mod 86400"
      "microseconds td = T mod 1000000" and ab: "\<bar>T div 86400000000\<bar> \<le> 999999999"
    using assms unfolding new_timedelta_def Let_def T_def [symmetric] q_def
    by (auto split: if_splits)
  have "T div 86400000000 = T div (1000000 * 86400)" by simp
  also have "\<dots> = q div 86400" unfolding q_def by (rule zdiv_zmult2_eq) simp
  finally have d: "days td = q div 86400" using td by simp
  have "T = 1000000 * q + microseconds td" unfolding q_def td by simp
  moreover have "q = 86400 * days td + seconds td" unfolding d td by simp
  ultimately have "total_microseconds td = T"
    by (simp add: total_microseconds_def)
  then show ?thesis using td ab by (simp add: T_def)
qed

lemma new_timedelta_ok:
  assumes "\<bar>((d * 86400 + s) * 1000000 + us) div 86400000000\<bar> \<le> 999999999"
  shows "\<exists>td. new_timedelta d s us = Inr td"
  using assms by (simp add: new_timedelta_def Let_def)


lemma seconds_split:
  assumes "0 \<le> s" "s < 86400"
  shows "0 \<le> s div 3600 \<and> s div 3600 \<le> 23
         \<and> 0 \<le> s mod 3600 div 60 \<and> s mod 3600 div 60 \<le> 59
         \<and> 0 \<le> s mod 3600 mod 60 \<and> s mod 3600 mod 60 \<le> (59::int)
         \<and> s div 3600 * 3600 + s mod 3600 div 60 * 60 + s mod 3600 mod 60 = s"
proof -
  define h where "h = s div 3600"
  define r where "r = s mod 3600"
  define mi where "mi = r div 60"
  define se where "se = r mod 60"
  have e1: "s = 3600 * h + r" and b1: "0 \<le> r" "r < 3600" by (simp_all add: h_def r_def)
  have e2: "r = 60 * mi + se" and b2: "0 \<le> se" "se < 60" by (simp_all add: mi_def se_def)
  have "0 \<le> h" using assms by (simp add: h_def pos_imp_zdiv_nonneg_iff)
  moreover have "h \<le> 23" using e1 b1 assms by linarith
  moreover have "0 \<le> mi" using b1 by (simp add: mi_def pos_imp_zdiv_nonneg_iff)
  moreover have "mi \<le> 59" using e2 b1 b2 by linarith
  ultimately show ?thesis
    unfolding h_def [symmetric] r_def [symmetric] mi_def [symmetric] se_def [symmetric]
    using b2 e1 e2 by simp
qed

lemma datetime_add_Inr:
  assumes v: "valid_datetime dt" and res: "datetime_add dt td = Inr r"
  shows "valid_datetime r \<and> dt_us r = dt_us dt + total_microseconds td"
proof -
  obtain delta0 delta where
    a: "new_timedelta (toordinal dt) (hour dt * 3600 + minute dt * 60 + second dt)
          (microsecond dt) = Inr delta0"
    and b: "timedelta_add delta0 td = Inr delta"
    and c: "0 < days delta" "days delta \<le> MAXORDINAL"
    and r: "r = combine (fromordinal (days delta))
                 \<lparr>t_hour = seconds delta div 3600,
                  t_minute = seconds delta mod 3600 div 60,
                  t_second = seconds delta mod 3600 mod 60,
                  t_microsecond = microseconds delta\<rparr>"
    using res unfolding datetime_add_def Let_def
    by (auto split: sum.splits if_splits)
  have t0: "total_microseconds delta0 = dt_us dt"
    using new_timedelta_Inr [OF a] by (simp add: dt_us_def tod_us_def algebra_simps)
  have nb: "total_microseconds delta = total_microseconds delta0 + total_microseconds td"
      "0 \<le> seconds delta" "seconds delta < 86400"
      "0 \<le> microseconds delta" "microseconds delta < 1000000"
    using new_timedelta_Inr [OF b [unfolded timedelta_add_def]]
    by (simp_all add: total_microseconds_def algebra_simps)
  obtain y m d where o: "ord2ymd (days delta) = (y, m, d)"
    by (cases "ord2ymd (days delta)") auto
  have n1: "1 \<le> days delta" using c by simp
  have s: "ymd2ord y m d = days delta" "1 \<le> y" "1 \<le> m" "m \<le> 12" "1 \<le> d"
      "d \<le> days_in_month y m"
    using ord2ymd_sound [OF n1 o] by simp_all
  have y9: "y \<le> 9999"
    by (rule ord2ymd_year_le [OF n1 _ o]) (use c in \<open>simp add: MAXORDINAL_def\<close>)
  have f: "year r = y" "month r = m" "day r = d"
      "hour r = seconds delta div 3600" "minute r = seconds delta mod 3600 div 60"
      "second r = seconds delta mod 3600 mod 60" "microsecond r = microseconds delta"
    using r o by (simp_all add: combine_def fromordinal_def mk_datetime_def)
  note sp = seconds_split [OF nb(2,3)]
  have vr: "valid_datetime r"
    unfolding valid_datetime_iff f using s y9 sp nb by simp
  have "tod_us r = seconds delta * 1000000 + microseconds delta"
    unfolding tod_us_def f using sp by simp
  then have "dt_us r = total_microseconds delta"
    unfolding dt_us_def toordinal_def f s(1) total_microseconds_def by (simp add: algebra_simps)
  then show ?thesis using vr nb(1) t0 by simp
qed

lemma datetime_add_ok:
  assumes v: "valid_datetime dt"
    and lo: "86400000000 \<le> dt_us dt + total_microseconds td"
    and hi: "dt_us dt + total_microseconds td < 3652060 * 86400000000"
  shows "\<exists>r. datetime_add dt td = Inr r"
proof -
  have "\<exists>delta0. new_timedelta (toordinal dt) (hour dt * 3600 + minute dt * 60 + second dt)
          (microsecond dt) = Inr delta0"
  proof (rule new_timedelta_ok)
    have e: "(toordinal dt * 86400 + (hour dt * 3600 + minute dt * 60 + second dt)) * 1000000
              + microsecond dt = 86400000000 * toordinal dt + tod_us dt"
      by (simp add: tod_us_def algebra_simps)
    have "(86400000000 * toordinal dt + tod_us dt) div 86400000000 = toordinal dt"
      by (rule int_div_pos_eq [where r = "tod_us dt"]) (use tod_us_bounds [OF v] in simp_all)
    then show "\<bar>((toordinal dt * 86400 + (hour dt * 3600 + minute dt * 60 + second dt)) * 1000000
              + microsecond dt) div 86400000000\<bar> \<le> 999999999"
      unfolding e using toordinal_bounds [OF v] by simp
  qed
  then obtain delta0 where
    a: "new_timedelta (toordinal dt) (hour dt * 3600 + minute dt * 60 + second dt)
          (microsecond dt) = Inr delta0" by blast
  have t0: "total_microseconds delta0 = dt_us dt"
    using new_timedelta_Inr [OF a] by (simp add: dt_us_def tod_us_def algebra_simps)
  define T where "T = dt_us dt + total_microseconds td"
  have T: "((days delta0 + days td) * 86400 + (seconds delta0 + seconds td)) * 1000000
            + (microseconds delta0 + microseconds td) = T"
    unfolding T_def t0 [symmetric] by (simp add: total_microseconds_def algebra_simps)
  have d1: "1 \<le> T div 86400000000"
    using lo unfolding T_def [symmetric] by (simp add: pos_imp_zdiv_pos_iff)
  have d2: "T div 86400000000 < 3652060"
    using hi unfolding T_def [symmetric] by (simp add: div_less_iff_less_mult)
  have "\<exists>delta. timedelta_add delta0 td = Inr delta"
    unfolding timedelta_add_def by (rule new_timedelta_ok) (use d1 d2 T in simp)
  then obtain delta where b: "timedelta_add delta0 td = Inr delta" by blast
  have "days delta = T div 86400000000"
    using b unfolding timedelta_add_def new_timedelta_def Let_def T
    by (auto split: if_splits)
  then show ?thesis
    using a b d1 d2 by (simp add: datetime_add_def Let_def MAXORDINAL_def)
qed


lemma tod_us_less:
  assumes "valid_datetime a" "valid_datetime b"
    and "(hour a, minute a, second a, microsecond a) < (hour b, minute b, second b, microsecond b)"
  shows "tod_us a < tod_us b"
proof -
  consider "hour a < hour b"
    | "hour a = hour b" "minute a < minute b"
    | "hour a = hour b" "minute a = minute b" "second a < second b"
    | "hour a = hour b" "minute a = minute b" "second a = second b" "microsecond a < microsecond b"
    using assms(3) by (auto simp: order_le_less)
  then show ?thesis
    using assms(1,2) unfolding valid_datetime_iff tod_us_def
    by cases simp_all
qed

lemma dt_us_less:
  assumes a: "valid_datetime a" and b: "valid_datetime b" and lt: "dt_key a < dt_key b"
  shows "dt_us a < dt_us b"
proof -
  consider "(year a, month a, day a) < (year b, month b, day b)"
    | "year a = year b" "month a = month b" "day a = day b"
      "(hour a, minute a, second a, microsecond a) < (hour b, minute b, second b, microsecond b)"
    using lt by (auto simp: dt_key_def order_le_less)
  then show ?thesis
  proof cases
    case 1
    have "toordinal a < toordinal b"
      unfolding toordinal_def
      by (rule ymd2ord_less [OF _ _ _ _ _ _ _ _ 1]) (use a b in \<open>simp_all add: valid_datetime_iff\<close>)
    then show ?thesis
      using tod_us_bounds [OF a] tod_us_bounds [OF b] by (simp add: dt_us_def)
  next
    case 2
    then show ?thesis
      using tod_us_less [OF a b] by (simp add: dt_us_def toordinal_def)
  qed
qed

lemma dt_key_inj: "dt_key a = dt_key b \<Longrightarrow> a = b"
  by (cases a, cases b) (simp add: dt_key_def)

lemma dt_less_iff:
  assumes a: "valid_datetime a" and b: "valid_datetime b"
  shows "dt_less a b = (dt_us a < dt_us b)"
proof
  assume "dt_less a b"
  then show "dt_us a < dt_us b" using dt_us_less [OF a b] by (simp add: dt_less_def)
next
  assume l: "dt_us a < dt_us b"
  have "\<not> dt_key b < dt_key a" using dt_us_less [OF b a] l by auto
  moreover have "dt_key a \<noteq> dt_key b" using l dt_key_inj [of a b] by auto
  ultimately show "dt_less a b" unfolding dt_less_def by (meson linorder_neqE)
qed

lemma dt_le_iff:
  assumes a: "valid_datetime a" and b: "valid_datetime b"
  shows "dt_le a b = (dt_us a \<le> dt_us b)"
  using dt_less_iff [OF b a] by (auto simp: dt_le_def dt_less_def not_less [symmetric])

lemma dt_us_inj:
  assumes a: "valid_datetime a" and b: "valid_datetime b" and eq: "dt_us a = dt_us b"
  shows "a = b"
proof -
  have "\<not> dt_key a < dt_key b" using dt_us_less [OF a b] eq by auto
  moreover have "\<not> dt_key b < dt_key a" using dt_us_less [OF b a] eq by auto
  ultimately have "dt_key a = dt_key b" by (meson linorder_neqE)
  then show ?thesis by (rule dt_key_inj)
qed

subsection \<open>The last hour of a month\<close>

lemma ymd2ord_next_month:
  assumes "1 \<le> m" "m \<le> 12" "next_ym y m = (y', m')"
  shows "ymd2ord y' m' k = ymd2ord y m (days_in_month y m) + k"
proof (cases "m = 12")
  case True
  then have "y' = y + 1" "m' = 1" using assms by (simp_all add: next_ym_def)
  then show ?thesis
    using True days_before_year_step [of y] days_before_month_last [of y]
    by (simp add: ymd2ord_def days_before_month_first split: if_splits)
next
  case False
  then have e: "y' = y" "m' = m + 1" using assms by (simp_all add: next_ym_def)
  have "m \<le> 11" using False assms by simp
  then show ?thesis
    using days_before_month_next [OF assms(1), of y] e by (simp add: ymd2ord_def)
qed

lemma timedelta_days_4: "timedelta_days 4 = Inr \<lparr>days = 4, seconds = 0, microseconds = 0\<rparr>"
  by (simp add: timedelta_days_def new_timedelta_def)

lemma timedelta_hours_1: "timedelta_hours 1 = Inr \<lparr>days = 0, seconds = 3600, microseconds = 0\<rparr>"
  by (simp add: timedelta_hours_def new_timedelta_def)

lemma timedelta_neg_hour:
  "timedelta_neg \<lparr>days = 0, seconds = 3600, microseconds = 0\<rparr>
     = Inr \<lparr>days = - 1, seconds = 82800, microseconds = 0\<rparr>"
  by (simp add: timedelta_neg_def new_timedelta_def)

lemma dt_us_mk:
  "dt_us (mk_datetime y m d h mi s us)
     = ymd2ord y m d * 86400000000 + (h * 3600 + mi * 60 + s) * 1000000 + us"
  by (simp add: dt_us_def tod_us_def toordinal_def mk_datetime_def)

lemma valid_mk:
  "valid_datetime (mk_datetime y m d h mi s us) =
     (1 \<le> y \<and> y \<le> 9999 \<and> 1 \<le> m \<and> m \<le> 12 \<and> 1 \<le> d \<and> d \<le> days_in_month y m
      \<and> 0 \<le> h \<and> h \<le> 23 \<and> 0 \<le> mi \<and> mi \<le> 59 \<and> 0 \<le> s \<and> s \<le> 59 \<and> 0 \<le> us \<and> us \<le> 999999)"
  by (simp add: valid_datetime_iff mk_datetime_def)

lemma next_ym_bounds:
  assumes "1 \<le> m" "m \<le> 12" "next_ym y m = (y', m')"
  shows "1 \<le> m' \<and> m' \<le> 12 \<and> y \<le> y' \<and> y' \<le> y + 1 \<and> 12 * y' + m' = 12 * y + m + 1
         \<and> (y' \<le> 9999) = (\<not> (y = 9999 \<and> m = 12) \<and> y \<le> 9999)"
  using assms by (auto simp: next_ym_def split: if_splits)

lemma month_last_h_Inr:
  assumes res: "month_last_h dt = Inr lh"
  shows "1 \<le> year dt \<and> year dt \<le> 9999 \<and> 1 \<le> month dt \<and> month dt \<le> 12
         \<and> \<not> (year dt = 9999 \<and> month dt = 12)
         \<and> lh = mk_datetime (year dt) (month dt) (days_in_month (year dt) (month dt)) 23 0 0 0"
proof -
  define y where "y = year dt"
  define m where "m = month dt"
  define dim where "dim = days_in_month y m"
  obtain y' m' where nx: "next_ym y m = (y', m')" by (cases "next_ym y m") auto
  obtain dt1 dt2 dt3 where
    r1: "replace_day dt 28 = Inr dt1"
    and r2: "datetime_add dt1 \<lparr>days = 4, seconds = 0, microseconds = 0\<rparr> = Inr dt2"
    and r3: "replace_day dt2 1 = Inr dt3"
    and r4: "datetime_add (combine (date_of dt3) time_min)
               \<lparr>days = - 1, seconds = 82800, microseconds = 0\<rparr> = Inr lh"
    using res
    unfolding month_last_h_def timedelta_days_4 timedelta_hours_1 datetime_sub_def
    by (auto simp: timedelta_neg_hour split: sum.splits)
  have d1: "dt1 = mk_datetime y m 28 (hour dt) (minute dt) (second dt) (microsecond dt)"
    and v1: "valid_datetime dt1"
    using r1 by (simp_all add: replace_day_def new_datetime_Inr y_def m_def)
  have b: "1 \<le> y" "y \<le> 9999" "1 \<le> m" "m \<le> 12"
      "0 \<le> hour dt" "hour dt \<le> 23" "0 \<le> minute dt" "minute dt \<le> 59"
      "0 \<le> second dt" "second dt \<le> 59" "0 \<le> microsecond dt" "microsecond dt \<le> 999999"
    using v1 unfolding d1 valid_mk by simp_all
  note nb = next_ym_bounds [OF b(3,4) nx]
  note dm = days_in_month_bounds [OF b(3,4), of y, folded dim_def]
  have a2: "valid_datetime dt2" "dt_us dt2 = dt_us dt1 + 4 * 86400000000"
    using datetime_add_Inr [OF v1 r2] by (simp_all add: total_microseconds_def)
  have o28: "ymd2ord y m 28 + 4 = ymd2ord y' m' (32 - dim)"
    using ymd2ord_next_month [OF b(3,4) nx, of "32 - dim"]
    by (simp add: ymd2ord_def dim_def)
  have ny: "y' \<le> 9999"
  proof (rule ccontr)
    assume "\<not> y' \<le> 9999"
    then have "y' = 10000" using nb b by simp
    then have "days_before_year 10000 < ymd2ord y' m' (32 - dim)"
      using ymd2ord_in_year [of m' "32 - dim" y'] nb dm
        days_in_month_bounds [of m' y'] by simp
    then have "3652060 * 86400000000 \<le> dt_us dt2"
      using a2(2) o28 b unfolding d1 dt_us_mk days_before_year_10000 by simp
    moreover have "dt_us dt2 < 3652060 * 86400000000"
      using toordinal_bounds [OF a2(1)] tod_us_bounds [OF a2(1)] by (simp add: dt_us_def)
    ultimately show False by simp
  qed
  have nd: "\<not> (y = 9999 \<and> m = 12)" using nb ny by simp
  define e2 where "e2 = mk_datetime y' m' (32 - dim) (hour dt) (minute dt) (second dt) (microsecond dt)"
  have "valid_datetime e2"
    unfolding e2_def valid_mk using b nb ny dm days_in_month_bounds [of m' y'] by simp
  moreover have "dt_us e2 = dt_us dt2"
    unfolding a2(2) d1 e2_def dt_us_mk using o28 by simp
  ultimately have d2: "dt2 = e2" using dt_us_inj [OF a2(1)] by simp
  have d3: "dt3 = mk_datetime y' m' 1 (hour dt) (minute dt) (second dt) (microsecond dt)"
    using r3 unfolding d2 e2_def by (simp add: replace_day_def new_datetime_Inr mk_datetime_def)
  define dt4 where "dt4 = mk_datetime y' m' 1 0 0 0 0"
  have c4: "combine (date_of dt3) time_min = dt4"
    unfolding d3 dt4_def by (simp add: combine_def date_of_def time_min_def mk_datetime_def)
  have v4: "valid_datetime dt4"
    unfolding dt4_def valid_mk using b nb ny days_in_month_bounds [of m' y'] by simp
  have a5: "valid_datetime lh" "dt_us lh = dt_us dt4 - 3600000000"
    using datetime_add_Inr [OF v4 r4 [unfolded c4]] by (simp_all add: total_microseconds_def)
  define e5 where "e5 = mk_datetime y m dim 23 0 0 0"
  have "valid_datetime e5"
    unfolding e5_def valid_mk using b dm by (simp add: dim_def)
  moreover have "dt_us e5 = dt_us lh"
    unfolding a5(2) dt4_def e5_def dt_us_mk
    using ymd2ord_next_month [OF b(3,4) nx, of 1] by (simp add: dim_def)
  ultimately have "lh = e5" using dt_us_inj [OF a5(1)] by simp
  then show ?thesis using b nd by (simp add: e5_def dim_def y_def m_def)
qed


lemma dt_us_range:
  assumes "valid_datetime dt"
  shows "86400000000 \<le> dt_us dt \<and> dt_us dt < 3652060 * 86400000000"
  using toordinal_bounds [OF assms] tod_us_bounds [OF assms] by (simp add: dt_us_def)

lemma datetime_add_eq:
  assumes v: "valid_datetime dt" and vr: "valid_datetime r"
    and us: "dt_us r = dt_us dt + total_microseconds td"
  shows "datetime_add dt td = Inr r"
proof -
  obtain r' where r': "datetime_add dt td = Inr r'"
    using datetime_add_ok [OF v, of td] dt_us_range [OF vr] us by auto
  have "valid_datetime r'" "dt_us r' = dt_us r"
    using datetime_add_Inr [OF v r'] us by simp_all
  then have "r' = r" using dt_us_inj [OF _ vr] by simp
  then show ?thesis using r' by simp
qed

lemma month_last_h_ok:
  assumes b: "1 \<le> year dt" "year dt \<le> 9999" "1 \<le> month dt" "month dt \<le> 12"
    and t: "0 \<le> hour dt" "hour dt \<le> 23" "0 \<le> minute dt" "minute dt \<le> 59"
      "0 \<le> second dt" "second dt \<le> 59" "0 \<le> microsecond dt" "microsecond dt \<le> 999999"
    and nd: "\<not> (year dt = 9999 \<and> month dt = 12)"
  shows "month_last_h dt
           = Inr (mk_datetime (year dt) (month dt) (days_in_month (year dt) (month dt)) 23 0 0 0)"
proof -
  define y where "y = year dt"
  define m where "m = month dt"
  define dim where "dim = days_in_month y m"
  obtain y' m' where nx: "next_ym y m = (y', m')" by (cases "next_ym y m") auto
  note b' = b [folded y_def m_def] and nd' = nd [folded y_def m_def]
  note nb = next_ym_bounds [OF b'(3,4) nx]
  note dm = days_in_month_bounds [OF b'(3,4), of y, folded dim_def]
  have ny: "1 \<le> y'" "y' \<le> 9999" using nb b' nd' by auto
  define dt1 where "dt1 = mk_datetime y m 28 (hour dt) (minute dt) (second dt) (microsecond dt)"
  define e2 where "e2 = mk_datetime y' m' (32 - dim) (hour dt) (minute dt) (second dt) (microsecond dt)"
  define dt3 where "dt3 = mk_datetime y' m' 1 (hour dt) (minute dt) (second dt) (microsecond dt)"
  define dt4 where "dt4 = mk_datetime y' m' 1 0 0 0 0"
  define e5 where "e5 = mk_datetime y m dim 23 0 0 0"
  have v1: "valid_datetime dt1"
    unfolding dt1_def valid_mk using b' t dm by (simp add: dim_def)
  have r1: "replace_day dt 28 = Inr dt1"
    using v1 by (simp add: replace_day_def new_datetime_Inr dt1_def y_def m_def)
  have v2: "valid_datetime e2"
    unfolding e2_def valid_mk using b' t nb ny dm days_in_month_bounds [of m' y'] by simp
  have r2: "datetime_add dt1 \<lparr>days = 4, seconds = 0, microseconds = 0\<rparr> = Inr e2"
  proof (rule datetime_add_eq [OF v1 v2])
    show "dt_us e2 = dt_us dt1 + total_microseconds \<lparr>days = 4, seconds = 0, microseconds = 0\<rparr>"
      unfolding dt1_def e2_def dt_us_mk total_microseconds_def
      using ymd2ord_next_month [OF b'(3,4) nx, of "32 - dim"]
      by (simp add: ymd2ord_def dim_def)
  qed
  have v3: "valid_datetime dt3"
    unfolding dt3_def valid_mk using t nb ny days_in_month_bounds [of m' y'] by simp
  have r3: "replace_day e2 1 = Inr dt3"
    using v3 by (simp add: replace_day_def new_datetime_Inr dt3_def e2_def mk_datetime_def)
  have c4: "combine (date_of dt3) time_min = dt4"
    unfolding dt3_def dt4_def by (simp add: combine_def date_of_def time_min_def mk_datetime_def)
  have v4: "valid_datetime dt4"
    unfolding dt4_def valid_mk using nb ny days_in_month_bounds [of m' y'] by simp
  have v5: "valid_datetime e5"
    unfolding e5_def valid_mk using b' dm by (simp add: dim_def)
  have r5: "datetime_add dt4 \<lparr>days = - 1, seconds = 82800, microseconds = 0\<rparr> = Inr e5"
  proof (rule datetime_add_eq [OF v4 v5])
    show "dt_us e5 = dt_us dt4
            + total_microseconds \<lparr>days = - 1, seconds = 82800, microseconds = 0\<rparr>"
      unfolding dt4_def e5_def dt_us_mk total_microseconds_def
      using ymd2ord_next_month [OF b'(3,4) nx, of 1] by (simp add: dim_def)
  qed
  show ?thesis
    unfolding month_last_h_def timedelta_days_4 timedelta_hours_1 datetime_sub_def
    using r1 r2 r3 r5 c4
    by (simp add: timedelta_neg_hour e5_def dim_def y_def m_def)
qed

lemma last_hour_plus_hour:
  assumes b: "1 \<le> y" "y \<le> 9999" "1 \<le> m" "m \<le> 12" and nx: "next_ym y m = (y', m')"
    and res: "datetime_add (mk_datetime y m (days_in_month y m) 23 0 0 0)
                \<lparr>days = 0, seconds = 3600, microseconds = 0\<rparr> = Inr r"
  shows "r = mk_datetime y' m' 1 0 0 0 0 \<and> y' \<le> 9999"
proof -
  define lh where "lh = mk_datetime y m (days_in_month y m) 23 0 0 0"
  note nb = next_ym_bounds [OF b(3,4) nx]
  note dm = days_in_month_bounds [OF b(3,4), of y]
  have v: "valid_datetime lh" unfolding lh_def valid_mk using b dm by simp
  have a: "valid_datetime r" "dt_us r = dt_us lh + 3600000000"
    using datetime_add_Inr [OF v res [folded lh_def]] by (simp_all add: total_microseconds_def)
  have us: "dt_us r = ymd2ord y' m' 1 * 86400000000"
    unfolding a(2) lh_def dt_us_mk using ymd2ord_next_month [OF b(3,4) nx, of 1] by simp
  have ny: "y' \<le> 9999"
  proof (rule ccontr)
    assume "\<not> y' \<le> 9999"
    then have "y' = 10000" using nb b by simp
    then have "days_before_year 10000 < ymd2ord y' m' 1"
      using ymd2ord_in_year [of m' 1 y'] nb days_in_month_bounds [of m' y'] by simp
    then show False
      using us dt_us_range [OF a(1)] unfolding days_before_year_10000 by simp
  qed
  define e where "e = mk_datetime y' m' 1 0 0 0 0"
  have "valid_datetime e"
    unfolding e_def valid_mk using b nb ny days_in_month_bounds [of m' y'] by simp
  moreover have "dt_us e = dt_us r" unfolding us e_def dt_us_mk by simp
  ultimately have "r = e" using dt_us_inj [OF a(1)] by simp
  then show ?thesis using ny by (simp add: e_def)
qed

lemma next_block_start:
  assumes lh: "month_last_h start = Inr last_hour"
    and h1: "timedelta_hours 1 = Inr h1"
    and nx: "datetime_add last_hour h1 = Inr start'"
  shows "1 \<le> year start \<and> year start \<le> 9999 \<and> 1 \<le> month start \<and> month start \<le> 12
         \<and> (year start', month start') = next_ym (year start) (month start)
         \<and> start' = mk_datetime (year start') (month start') 1 0 0 0 0
         \<and> year start' \<le> 9999
         \<and> 12 * year start' + month start' = 12 * year start + month start + 1"
proof -
  note m = month_last_h_Inr [OF lh]
  obtain y' m' where n: "next_ym (year start) (month start) = (y', m')"
    by (cases "next_ym (year start) (month start)") auto
  have b: "1 \<le> year start" "year start \<le> 9999" "1 \<le> month start" "month start \<le> 12"
    using m by simp_all
  have "h1 = \<lparr>days = 0, seconds = 3600, microseconds = 0\<rparr>"
    using h1 by (simp add: timedelta_hours_1)
  then have "datetime_add
       (mk_datetime (year start) (month start) (days_in_month (year start) (month start)) 23 0 0 0)
       \<lparr>days = 0, seconds = 3600, microseconds = 0\<rparr> = Inr start'"
    using nx m by simp
  note l = last_hour_plus_hour [OF b n this]
  have f: "year start' = y'" "month start' = m'" using l by (simp_all add: mk_datetime_def)
  show ?thesis
    using b l n next_ym_bounds [OF b(3,4) n] unfolding f by simp
qed

lemma last_hour_then_next_month:
  assumes b: "1 \<le> y" "y \<le> 9999" "1 \<le> m" "m \<le> 12" and nd: "\<not> (y = 9999 \<and> m = 12)"
    and nx: "next_ym y m = (y', m')"
  shows "datetime_add (mk_datetime y m (days_in_month y m) 23 0 0 0)
           \<lparr>days = 0, seconds = 3600, microseconds = 0\<rparr> = Inr (mk_datetime y' m' 1 0 0 0 0)"
proof (rule datetime_add_eq)
  note nb = next_ym_bounds [OF b(3,4) nx]
  show "valid_datetime (mk_datetime y m (days_in_month y m) 23 0 0 0)"
    unfolding valid_mk using b days_in_month_bounds [OF b(3,4), of y] by simp
  show "valid_datetime (mk_datetime y' m' 1 0 0 0 0)"
    unfolding valid_mk using b nd nb days_in_month_bounds [of m' y'] by auto
  show "dt_us (mk_datetime y' m' 1 0 0 0 0)
          = dt_us (mk_datetime y m (days_in_month y m) 23 0 0 0)
            + total_microseconds \<lparr>days = 0, seconds = 3600, microseconds = 0\<rparr>"
    unfolding dt_us_mk total_microseconds_def
    using ymd2ord_next_month [OF b(3,4) nx, of 1] by simp
qed

section \<open>Observations\<close>

text \<open>
  The loop of \<open>get_observations\<close> for a range that is too long for one query. Each round
  computes the last hour of the month of \<open>start\<close>, loads the block up to it (or up to
  \<open>en\<close>, when \<open>en\<close> comes first), appends the rows and moves \<open>start\<close> one hour past the
  block. An exception leaves the loop with the requests sent so far.
\<close>

function obs_loop ::
  "('w, 't, 'f) libs \<Rightarrow> string \<Rightarrow> params \<Rightarrow> datetime \<Rightarrow> datetime \<Rightarrow> 'w net
     \<Rightarrow> ('t \<times> 'f) list \<Rightarrow> (error + ('t \<times> 'f) list) \<times> 'w net" where
  "obs_loop L queryid ps start en st df =
     (case month_last_h start of
        Inl e \<Rightarrow> (Inl e, st)
      | Inr last_hour \<Rightarrow>
          (let end_reached = dt_less en last_hour;
               block_end = (if end_reached then en else last_hour)
           in (case load_obs L queryid ps st start block_end of
                 (Inl e, ps', st') \<Rightarrow> (Inl e, st')
               | (Inr load_more_df, ps', st') \<Rightarrow>
                   (let df' = df @ load_more_df
                    in (case timedelta_hours 1 of
                          Inl e \<Rightarrow> (Inl e, st')
                        | Inr h1 \<Rightarrow>
                            (case datetime_add block_end h1 of
                               Inl e \<Rightarrow> (Inl e, st')
                             | Inr start' \<Rightarrow>
                                 (if end_reached then (Inr df', st')
                                  else obs_loop L queryid ps' start' en st' df')))))))"
  by pat_completeness auto
termination
  apply (relation "measure (\<lambda>(L, queryid, ps, start, en, st, df).
                   nat (120001 - (12 * year start + month start)))")
   apply simp
  apply (use next_block_start in fastforce)
  done

declare obs_loop.simps [simp del]

text \<open>
  \<open>get_observations(place, fmisid, parameter, hours, start_date, end_date)\<close>. The result
  is the table or the exception, with the state of the world and the requests that were
  sent, in the order in which they were sent.
\<close>

definition observations_queryid :: string where
  "observations_queryid = ''fmi::observations::weather::hourly::simple''"

definition location_params :: "string option \<Rightarrow> fmisid_arg option \<Rightarrow> params" where
  "location_params place fmisid =
     (if truthy_str place then [''place'' \<mapsto> pyval_of_str place]
      else [''fmisid'' \<mapsto> pyval_of_fmisid fmisid])"

definition param_name_of ::
  "string option \<Rightarrow> string \<Rightarrow> error + string option" where
  "param_name_of parameter query_type =
     (case parameter of
        None \<Rightarrow> Inl (TypeError ''can only concatenate str (not NoneType) to str'')
      | Some p \<Rightarrow> get_param_name p (Some query_type))"

definition get_observations ::
  "('w, 't, 'f) libs \<Rightarrow> 'w \<Rightarrow> datetime \<Rightarrow> string option \<Rightarrow> fmisid_arg option \<Rightarrow> string option
     \<Rightarrow> int option \<Rightarrow> date_arg option \<Rightarrow> date_arg option
     \<Rightarrow> (error + ('t \<times> 'f) list) \<times> 'w net" where
  "get_observations L w clock place fmisid parameter hours start_date end_date =
     (case fmi_inputchecks place fmisid parameter None of
        Inl e \<Rightarrow> (Inl e, (w, []))
      | Inr _ \<Rightarrow>
     (case param_name_of parameter ''observation'' of
        Inl e \<Rightarrow> (Inl e, (w, []))
      | Inr name \<Rightarrow>
          (let ps = (location_params place fmisid)(''parameters'' \<mapsto> pyval_of_str name);
               queryid = observations_queryid
           in (case get_datetime_limits clock start_date end_date hours of
                 Inl e \<Rightarrow> (Inl e, (w, []))
               | Inr (start, en) \<Rightarrow>
              (case datetime_diff en start of
                 Inl e \<Rightarrow> (Inl e, (w, []))
               | Inr span \<Rightarrow>
                   (let hrs = whole_hours span;
                        too_long = (hrs > 744)
                    in if \<not> too_long
                       then (case load_obs L queryid ps (w, []) start en of
                               (r, ps', st') \<Rightarrow> (r, st'))
                       else obs_loop L queryid ps start en (w, []) []))))))"

section \<open>Forecasts\<close>

text \<open>
  \<open>get_forecast(place, fmisid, parameter, model, hours)\<close>; the default of \<open>model\<close> is
  \<open>"harmonie"\<close>, which a caller who leaves it out passes as \<open>Some ''harmonie''\<close>.
\<close>

definition forecast_hours :: "string option \<Rightarrow> int option \<Rightarrow> int" where
  "forecast_hours model hours =
     (case hours of
        Some h \<Rightarrow> if h \<noteq> 0 then h else if model = Some ''harmonie'' then 66 else 54
      | None \<Rightarrow> if model = Some ''harmonie'' then 66 else 54)"

definition forecast_queryid :: "string option \<Rightarrow> string" where
  "forecast_queryid model =
     (if model = Some ''harmonie'' then ''fmi::forecast::harmonie::hybrid::point::simple''
      else ''fmi::forecast::hirlam::surface::point::simple'')"

definition get_forecast ::
  "('w, 't, 'f) libs \<Rightarrow> 'w \<Rightarrow> datetime \<Rightarrow> string option \<Rightarrow> fmisid_arg option \<Rightarrow> string option
     \<Rightarrow> string option \<Rightarrow> int option \<Rightarrow> (error + ('t \<times> 'f) list) \<times> 'w net" where
  "get_forecast L w clock place fmisid parameter model hours =
     (case fmi_inputchecks place fmisid parameter model of
        Inl e \<Rightarrow> (Inl e, (w, []))
      | Inr _ \<Rightarrow>
     (case param_name_of parameter ''forecast'' of
        Inl e \<Rightarrow> (Inl e, (w, []))
      | Inr name \<Rightarrow>
     (case replace_second_microsecond clock 0 0 of
        Inl e \<Rightarrow> (Inl e, (w, []))
      | Inr now \<Rightarrow>
     (case timedelta_hours (forecast_hours model hours) of
        Inl e \<Rightarrow> (Inl e, (w, []))
      | Inr td \<Rightarrow>
     (case datetime_add now td of
        Inl e \<Rightarrow> (Inl e, (w, []))
      | Inr endtime \<Rightarrow>
          (let ps = (location_params place fmisid)(''parameters'' \<mapsto> pyval_of_str name);
               ps = ps(''endtime'' \<mapsto> PStr (isoformat endtime));
               queryid = forecast_queryid model
           in (case do_query L (w, []) queryid ps of
                 (Inl e, st') \<Rightarrow> (Inl e, st')
               | (Inr tree, st') \<Rightarrow>
                   (tree_to_df (to_datetime L) (to_float L) tree, st'))))))))"

section \<open>Reading results, and a service for the examples\<close>

text \<open>The requests that a call has sent, and what \<open>dt + timedelta(hours=k)\<close> is.\<close>

definition sent :: "'a \<times> 'w net \<Rightarrow> query list" where
  "sent r = snd (snd r)"

definition plus_hours :: "datetime \<Rightarrow> int \<Rightarrow> error + datetime" where
  "plus_hours dt k =
     (case timedelta_hours k of Inl e \<Rightarrow> Inl e | Inr td \<Rightarrow> datetime_add dt td)"

text \<open>
  The examples run against a service that counts the requests and answers each with a
  document of one row, whose time is the text of the \<open>starttime\<close> parameter and whose
  value is the text of the \<open>endtime\<close> parameter; cells are kept as text.
\<close>

definition param_text :: "params \<Rightarrow> string \<Rightarrow> string" where
  "param_text ps k = (case ps k of Some (PStr s) \<Rightarrow> s | _ \<Rightarrow> ''-'')"

definition echo_document :: "params \<Rightarrow> element" where
  "echo_document ps =
     Element ''member'' (Some '' '')
       [Element time_tag (Some (param_text ps ''starttime'')) [],
        Element value_tag (Some (param_text ps ''endtime'')) []]"

definition echo :: "(nat, string, string) libs" where
  "echo = \<lparr>wfs = (\<lambda>w queryid ps. (Inr (echo_document ps), Suc w)),
           to_datetime = Inr, to_float = Inr\<rparr>"

section \<open>Parameter names\<close>

lemma observation_table:
  "list_all (\<lambda>(w, c). get_param_name w (Some ''observation'') = Inr (Some c)) observation_codes"
  by (simp add: observation_codes_def get_param_name_def truthy_str_def observation_params_def)

lemma forecast_table:
  "list_all (\<lambda>(w, c). get_param_name w (Some ''forecast'') = Inr (Some c)) forecast_codes"
  by (simp add: forecast_codes_def get_param_name_def truthy_str_def forecast_params_def)

lemma observation_reject:
  "w \<notin> set observation_params \<Longrightarrow>
     get_param_name w (Some ''observation'') = Inl (param_not_legit w observation_params)"
  by (simp add: get_param_name_def truthy_str_def)

lemma forecast_reject:
  "w \<notin> set forecast_params \<Longrightarrow>
     get_param_name w (Some ''forecast'') = Inl (param_not_legit w forecast_params)"
  by (simp add: get_param_name_def truthy_str_def)

text \<open>
  C5: \<open>_get_param_name\<close> is a total function on the whitelist of each category. For
  \<open>"observation"\<close> each of the 13 whitelisted names is mapped to its provider code
  (\<open>temperature\<close> to \<open>TA_PT1H_AVG\<close>, \<open>rain_accumulated\<close> to \<open>PRA_PT1H_ACC\<close>), for
  \<open>"forecast"\<close> each of the 5 whitelisted names is (\<open>wind_speed\<close> to \<open>WindSpeedMS\<close>), and
  a name that is not on the whitelist of the category raises \<open>ValueError\<close>, for each
  category on its own.
\<close>

theorem get_param_name_on_whitelists:
  "list_all (\<lambda>(n, c). get_param_name n (Some ''observation'') = Inr (Some c)) observation_codes
   \<and> map fst observation_codes = observation_params \<and> length observation_params = 13
   \<and> list_all (\<lambda>(n, c). get_param_name n (Some ''forecast'') = Inr (Some c)) forecast_codes
   \<and> map fst forecast_codes = forecast_params \<and> length forecast_params = 5
   \<and> get_param_name ''temperature'' (Some ''observation'') = Inr (Some ''TA_PT1H_AVG'')
   \<and> get_param_name ''rain_accumulated'' (Some ''observation'') = Inr (Some ''PRA_PT1H_ACC'')
   \<and> get_param_name ''wind_speed'' (Some ''forecast'') = Inr (Some ''WindSpeedMS'')
   \<and> (w \<notin> set observation_params \<longrightarrow>
        (\<exists>msg. get_param_name w (Some ''observation'') = Inl (ValueError msg)))
   \<and> (w' \<notin> set forecast_params \<longrightarrow>
        (\<exists>msg. get_param_name w' (Some ''forecast'') = Inl (ValueError msg)))"
proof -
  have "map fst observation_codes = observation_params" "length observation_params = 13"
      "map fst forecast_codes = forecast_params" "length forecast_params = 5"
    by (simp_all add: observation_codes_def observation_params_def forecast_codes_def
          forecast_params_def)
  moreover have "get_param_name ''temperature'' (Some ''observation'') = Inr (Some ''TA_PT1H_AVG'')"
      "get_param_name ''rain_accumulated'' (Some ''observation'') = Inr (Some ''PRA_PT1H_ACC'')"
    using observation_table by (simp_all add: observation_codes_def)
  moreover have "get_param_name ''wind_speed'' (Some ''forecast'') = Inr (Some ''WindSpeedMS'')"
    using forecast_table by (simp add: forecast_codes_def)
  ultimately show ?thesis
    using observation_table forecast_table
    by (simp add: observation_reject forecast_reject param_not_legit_def)
qed

theorem get_param_name_on_whitelists_witness:
  "''wind_speed'' \<notin> set observation_params
   \<and> (\<exists>msg. get_param_name ''wind_speed'' (Some ''observation'') = Inl (ValueError msg))
   \<and> ''rain_accumulated'' \<notin> set forecast_params
   \<and> (\<exists>msg. get_param_name ''rain_accumulated'' (Some ''forecast'') = Inl (ValueError msg))"
  using get_param_name_on_whitelists [of "''wind_speed''" "''rain_accumulated''"]
  by (simp add: observation_params_def forecast_params_def)

section \<open>The month boundary\<close>

text \<open>
  C2, as amended: for every datetime \<open>dt\<close> that is not in December 9999, \<open>_month_last_h\<close>
  returns the final hour of the calendar month of \<open>dt\<close>: the same year and month, the last
  day of the month, 23:00:00. It is the final hour: one hour later is midnight of the first
  day of the following month, across the end of a year and for a February in a leap year
  alike.
\<close>

theorem month_last_h_final_hour:
  assumes "valid_datetime dt" and "\<not> (year dt = 9999 \<and> month dt = 12)"
  shows "month_last_h dt
           = Inr (mk_datetime (year dt) (month dt) (days_in_month (year dt) (month dt)) 23 0 0 0)
         \<and> valid_datetime
             (mk_datetime (year dt) (month dt) (days_in_month (year dt) (month dt)) 23 0 0 0)
         \<and> datetime_add
             (mk_datetime (year dt) (month dt) (days_in_month (year dt) (month dt)) 23 0 0 0)
             \<lparr>days = 0, seconds = 3600, microseconds = 0\<rparr>
               = Inr (mk_datetime (fst (next_ym (year dt) (month dt)))
                        (snd (next_ym (year dt) (month dt))) 1 0 0 0 0)"
proof -
  let ?lh = "mk_datetime (year dt) (month dt) (days_in_month (year dt) (month dt)) 23 0 0 0"
  have v: "1 \<le> year dt" "year dt \<le> 9999" "1 \<le> month dt" "month dt \<le> 12"
      "0 \<le> hour dt" "hour dt \<le> 23" "0 \<le> minute dt" "minute dt \<le> 59"
      "0 \<le> second dt" "second dt \<le> 59" "0 \<le> microsecond dt" "microsecond dt \<le> 999999"
    using assms(1) by (simp_all add: valid_datetime_iff)
  have r: "month_last_h dt = Inr ?lh"
    by (rule month_last_h_ok [OF v assms(2)])
  have vl: "valid_datetime ?lh"
    unfolding valid_mk using v days_in_month_bounds [OF v(3,4), of "year dt"] by simp
  have nx: "datetime_add ?lh \<lparr>days = 0, seconds = 3600, microseconds = 0\<rparr>
              = Inr (mk_datetime (fst (next_ym (year dt) (month dt)))
                       (snd (next_ym (year dt) (month dt))) 1 0 0 0 0)"
    by (rule last_hour_then_next_month [OF v(1-4) assms(2)]) simp
  show ?thesis using r vl nx by simp
qed

theorem month_last_h_final_hour_witness:
  "valid_datetime (mk_datetime 2024 2 15 10 30 0 0)
   \<and> \<not> (year (mk_datetime 2024 2 15 10 30 0 0) = 9999 \<and> month (mk_datetime 2024 2 15 10 30 0 0) = 12)
   \<and> month_last_h (mk_datetime 2024 2 15 10 30 0 0) = Inr (mk_datetime 2024 2 29 23 0 0 0)
   \<and> datetime_add (mk_datetime 2024 2 29 23 0 0 0) \<lparr>days = 0, seconds = 3600, microseconds = 0\<rparr>
       = Inr (mk_datetime 2024 3 1 0 0 0 0)
   \<and> valid_datetime (mk_datetime 2022 12 31 23 59 0 0)
   \<and> month_last_h (mk_datetime 2022 12 31 23 59 0 0) = Inr (mk_datetime 2022 12 31 23 0 0 0)
   \<and> datetime_add (mk_datetime 2022 12 31 23 0 0 0) \<lparr>days = 0, seconds = 3600, microseconds = 0\<rparr>
       = Inr (mk_datetime 2023 1 1 0 0 0 0)"
proof -
  have v1: "valid_datetime (mk_datetime 2024 2 15 10 30 0 0)"
    and v2: "valid_datetime (mk_datetime 2022 12 31 23 59 0 0)"
    by (simp_all add: valid_mk days_in_month_def is_leap_def DAYS_IN_MONTH_def)
  have n1: "\<not> (year (mk_datetime 2024 2 15 10 30 0 0) = 9999 \<and> month (mk_datetime 2024 2 15 10 30 0 0) = 12)"
    and n2: "\<not> (year (mk_datetime 2022 12 31 23 59 0 0) = 9999 \<and> month (mk_datetime 2022 12 31 23 59 0 0) = 12)"
    by (simp_all add: mk_datetime_def)
  have f: "year (mk_datetime y m d h mi s us) = y" "month (mk_datetime y m d h mi s us) = m"
    for y m d h mi s us by (simp_all add: mk_datetime_def)
  show ?thesis
    using v1 v2 n1 month_last_h_final_hour [OF v1 n1] month_last_h_final_hour [OF v2 n2]
    unfolding f by (simp add: next_ym_def days_in_month_def is_leap_def DAYS_IN_MONTH_def)
qed

theorem month_last_h_december_9999_counterexample:
  "valid_datetime (mk_datetime 9999 12 15 0 0 0 0)
   \<and> month_last_h (mk_datetime 9999 12 15 0 0 0 0) = Inl (OverflowError ''result out of range'')
   \<and> month_last_h (mk_datetime 9999 12 15 0 0 0 0) \<noteq> Inr (mk_datetime 9999 12 31 23 0 0 0)"
  by code_simp

section \<open>Forbidden combinations of the time arguments\<close>

lemma new_datetime_error:
  "new_datetime y m d h mi s us = Inl e \<Longrightarrow> \<exists>msg. e = ValueError msg"
  by (auto simp: new_datetime_def check_date_fields_def check_time_fields_def
           split: sum.splits if_splits)

lemma strptime_ymd_error: "strptime_ymd s = Inl e \<Longrightarrow> \<exists>msg. e = ValueError msg"
  unfolding strptime_ymd_def Let_def
  by (auto split: option.splits list.splits if_splits prod.splits dest: new_datetime_error)

lemma date_of_arg_error: "date_of_arg a = Inl e \<Longrightarrow> \<exists>msg. e = ValueError msg"
  by (auto simp: date_of_arg_def split: date_arg.splits sum.splits dest: strptime_ymd_error)

lemma start_of_arg_error: "start_of_arg a = Inl e \<Longrightarrow> \<exists>msg. e = ValueError msg"
  by (auto simp: start_of_arg_def split: option.splits sum.splits if_splits
           dest: date_of_arg_error)

lemma end_of_arg_error: "end_of_arg a = Inl e \<Longrightarrow> \<exists>msg. e = ValueError msg"
  by (auto simp: end_of_arg_def replace_second_microsecond_def
           split: option.splits sum.splits if_splits
           dest: date_of_arg_error new_datetime_error)

lemma start_of_arg_unsupplied: "\<not> truthy_date a \<Longrightarrow> start_of_arg a = Inr None"
  by (cases a) (auto simp: start_of_arg_def)

lemma end_of_arg_unsupplied: "\<not> truthy_date a \<Longrightarrow> end_of_arg a = Inr None"
  by (cases a) (auto simp: end_of_arg_def)

text \<open>
  C4, as amended: \<open>_get_datetime_limits\<close> raises \<open>ValueError\<close> when none of \<open>hours\<close>,
  \<open>start_date\<close> and \<open>end_date\<close> is supplied and when all three are. When none is
  supplied nothing is computed before: the error is the one of this check, whatever the
  clock. When all three are supplied the two dates are converted first: the error is the
  one of the conversion of \<open>start_date\<close> if that fails, else the one of the conversion of
  \<open>end_date\<close> if that fails, and only else the one of the check.
\<close>

theorem limits_forbidden_combinations:
  "(\<not> truthy_int hours \<and> \<not> truthy_date start_date \<and> \<not> truthy_date end_date \<longrightarrow>
      get_datetime_limits clock start_date end_date hours
        = Inl (ValueError ''None provided: hours/start_date/end_date''))
   \<and> (truthy_int hours \<and> truthy_date start_date \<and> truthy_date end_date \<longrightarrow>
      (\<exists>msg. get_datetime_limits clock start_date end_date hours = Inl (ValueError msg))
      \<and> get_datetime_limits clock start_date end_date hours
          = (case start_of_arg start_date of
               Inl e \<Rightarrow> Inl e
             | Inr s \<Rightarrow>
                 (case end_of_arg end_date of
                    Inl e \<Rightarrow> Inl e
                  | Inr e \<Rightarrow> Inl (ValueError
                      ''All provided: hours/start_date/end_date. All three should not be given.''))))"
proof (intro conjI impI)
  assume "\<not> truthy_int hours \<and> \<not> truthy_date start_date \<and> \<not> truthy_date end_date"
  then show "get_datetime_limits clock start_date end_date hours
        = Inl (ValueError ''None provided: hours/start_date/end_date'')"
    by (simp add: get_datetime_limits_def start_of_arg_unsupplied end_of_arg_unsupplied)
next
  assume a: "truthy_int hours \<and> truthy_date start_date \<and> truthy_date end_date"
  then show eq: "get_datetime_limits clock start_date end_date hours
          = (case start_of_arg start_date of
               Inl e \<Rightarrow> Inl e
             | Inr s \<Rightarrow>
                 (case end_of_arg end_date of
                    Inl e \<Rightarrow> Inl e
                  | Inr e \<Rightarrow> Inl (ValueError
                      ''All provided: hours/start_date/end_date. All three should not be given.'')))"
    by (simp add: get_datetime_limits_def split: sum.splits)
  show "\<exists>msg. get_datetime_limits clock start_date end_date hours = Inl (ValueError msg)"
    unfolding eq
    by (auto split: sum.splits dest: start_of_arg_error end_of_arg_error)
qed

theorem limits_forbidden_combinations_witness:
  "(\<not> truthy_int None \<and> \<not> truthy_date (Some (DateStr [])) \<and> \<not> truthy_date None)
   \<and> get_datetime_limits (mk_datetime 2022 9 1 0 30 17 5) (Some (DateStr [])) None None
        = Inl (ValueError ''None provided: hours/start_date/end_date'')
   \<and> (truthy_int (Some 5) \<and> truthy_date (Some (DateStr ''2022-08-01''))
        \<and> truthy_date (Some (DateObj \<lparr>year = 2022, month = 8, day = 31\<rparr>)))
   \<and> get_datetime_limits (mk_datetime 2022 9 1 0 30 17 5) (Some (DateStr ''2022-08-01''))
        (Some (DateObj \<lparr>year = 2022, month = 8, day = 31\<rparr>)) (Some 5)
        = Inl (ValueError
            ''All provided: hours/start_date/end_date. All three should not be given.'')"
proof -
  have 1: "\<not> truthy_int None \<and> \<not> truthy_date (Some (DateStr [])) \<and> \<not> truthy_date None"
    by (simp add: truthy_int_def truthy_date_def)
  have 2: "truthy_int (Some 5) \<and> truthy_date (Some (DateStr ''2022-08-01''))
        \<and> truthy_date (Some (DateObj \<lparr>year = 2022, month = 8, day = 31\<rparr>))"
    by (simp add: truthy_int_def truthy_date_def)
  have 3: "start_of_arg (Some (DateStr ''2022-08-01'')) = Inr (Some (mk_datetime 2022 8 1 0 0 0 0))"
    by code_simp
  have 4: "end_of_arg (Some (DateObj \<lparr>year = 2022, month = 8, day = 31\<rparr>))
             = Inr (Some (mk_datetime 2022 8 31 23 59 0 0))"
    by code_simp
  show ?thesis
    using 1 2
      limits_forbidden_combinations [of None "Some (DateStr [])" None "mk_datetime 2022 9 1 0 30 17 5"]
      limits_forbidden_combinations [of "Some 5" "Some (DateStr ''2022-08-01'')"
        "Some (DateObj \<lparr>year = 2022, month = 8, day = 31\<rparr>)" "mk_datetime 2022 9 1 0 30 17 5"]
    by (simp add: 3 4)
qed

theorem limits_parse_before_check_counterexample:
  "truthy_int (Some 5) \<and> truthy_date (Some (DateStr ''2022-13-01''))
   \<and> truthy_date (Some (DateStr ''2022-08-31''))
   \<and> get_datetime_limits (mk_datetime 2022 9 1 0 30 17 5) (Some (DateStr ''2022-13-01''))
        (Some (DateStr ''2022-08-31'')) (Some 5)
        = Inl (ValueError ''time data does not match format %Y-%m-%d'')
   \<and> get_datetime_limits (mk_datetime 2022 9 1 0 30 17 5) (Some (DateStr ''2022-13-01''))
        (Some (DateStr ''2022-08-31'')) (Some 5)
        \<noteq> Inl (ValueError
            ''All provided: hours/start_date/end_date. All three should not be given.'')"
  by code_simp

section \<open>The requests of the two entry points\<close>

lemma load_obs_sent:
  assumes "load_obs L queryid ps st start en = (r, ps', st')"
  shows "snd st' = snd st @ [(queryid, ps(''starttime'' \<mapsto> PStr (isoformat start),
                                         ''endtime'' \<mapsto> PStr (isoformat en)))]
         \<and> ps' = ps(''starttime'' \<mapsto> PStr (isoformat start), ''endtime'' \<mapsto> PStr (isoformat en))"
  using assms
  by (auto simp: load_obs_def do_query_def Let_def split: prod.splits sum.splits)

definition same_but_times :: "params \<Rightarrow> params \<Rightarrow> bool" where
  "same_but_times ps ps' = (\<forall>k. k \<noteq> ''starttime'' \<and> k \<noteq> ''endtime'' \<longrightarrow> ps' k = ps k)"

lemma same_but_times_refl: "same_but_times ps ps"
  by (simp add: same_but_times_def)

lemma same_but_times_upd:
  "same_but_times ps ps' \<Longrightarrow> same_but_times ps (ps'(''starttime'' \<mapsto> a, ''endtime'' \<mapsto> b))"
  by (simp add: same_but_times_def)

lemma obs_loop_rec:
  "obs_loop L queryid ps start en st df =
     (case month_last_h start of
        Inl e \<Rightarrow> (Inl e, st)
      | Inr lh \<Rightarrow>
          (case load_obs L queryid ps st start (if dt_less en lh then en else lh) of
             (Inl e, ps', st') \<Rightarrow> (Inl e, st')
           | (Inr rws, ps', st') \<Rightarrow>
               (case datetime_add (if dt_less en lh then en else lh)
                       \<lparr>days = 0, seconds = 3600, microseconds = 0\<rparr> of
                  Inl e \<Rightarrow> (Inl e, st')
                | Inr start' \<Rightarrow>
                    if dt_less en lh then (Inr (df @ rws), st')
                    else obs_loop L queryid ps' start' en st' (df @ rws))))"
  by (subst obs_loop.simps) (simp add: Let_def timedelta_hours_1 split: sum.splits prod.splits)

lemma obs_loop_induct [consumes 0, case_names round]:
  assumes step: "\<And>L queryid ps start en st df.
      (\<And>lh rws ps' st' start'.
          month_last_h start = Inr lh \<Longrightarrow> \<not> dt_less en lh \<Longrightarrow>
          load_obs L queryid ps st start lh = (Inr rws, ps', st') \<Longrightarrow>
          datetime_add lh \<lparr>days = 0, seconds = 3600, microseconds = 0\<rparr> = Inr start' \<Longrightarrow>
          P L queryid ps' start' en st' (df @ rws))
      \<Longrightarrow> P L queryid ps start en st df"
  shows "P L queryid ps start en st df"
proof (induction L queryid ps start en st df rule: obs_loop.induct)
  case (1 L queryid ps start en st df)
  show ?case
  proof (rule step)
    fix lh rws ps' st' start'
    assume a: "month_last_h start = Inr lh" "\<not> dt_less en lh"
      "load_obs L queryid ps st start lh = (Inr rws, ps', st')"
      "datetime_add lh \<lparr>days = 0, seconds = 3600, microseconds = 0\<rparr> = Inr start'"
    show "P L queryid ps' start' en st' (df @ rws)"
      by (rule "1.IH" [OF a(1) refl refl _ refl refl refl timedelta_hours_1])
         (use a in simp_all)
  qed
qed

lemma obs_loop_sent:
  assumes "obs_loop L queryid ps start en st df = (r, st')" and "same_but_times ps0 ps"
  shows "\<exists>new. snd st' = snd st @ new
           \<and> (\<forall>q \<in> set new. fst q = queryid \<and> same_but_times ps0 (snd q))"
  using assms
proof (induction L queryid ps start en st df rule: obs_loop_induct)
  case (round L queryid ps start en st df)
  show ?case
  proof (cases "month_last_h start")
    case (Inl e)
    then show ?thesis using round.prems by (simp add: obs_loop_rec [of L queryid ps start])
  next
    case (Inr lh)
    define block_end where "block_end = (if dt_less en lh then en else lh)"
    obtain lr ps1 st1 where lo: "load_obs L queryid ps st start block_end = (lr, ps1, st1)"
      by (cases "load_obs L queryid ps st start block_end") auto
    note ls = load_obs_sent [OF lo]
    have sb: "same_but_times ps0 ps1" using ls round.prems(2) by (simp add: same_but_times_upd)
    have one: "snd st1 = snd st @ [(queryid, ps1)]" using ls by simp
    note unf = round.prems(1) [unfolded obs_loop_rec [of L queryid ps start], unfolded Inr,
        simplified, folded block_end_def, unfolded lo, simplified]
    show ?thesis
    proof (cases "\<exists>rws start'. lr = Inr rws \<and> \<not> dt_less en lh
              \<and> datetime_add lh \<lparr>days = 0, seconds = 3600, microseconds = 0\<rparr> = Inr start'")
      case False
      then have "st' = st1"
        using unf by (auto simp: block_end_def split: sum.splits if_splits)
      then show ?thesis using one sb by simp
    next
      case True
      then obtain rws start' where t: "lr = Inr rws" "\<not> dt_less en lh"
        "datetime_add lh \<lparr>days = 0, seconds = 3600, microseconds = 0\<rparr> = Inr start'"
        by blast
      have be: "block_end = lh" using t by (simp add: block_end_def)
      have rec: "obs_loop L queryid ps1 start' en st1 (df @ rws) = (r, st')"
        using unf t be by simp
      have "\<exists>new. snd st' = snd st1 @ new
              \<and> (\<forall>q \<in> set new. fst q = queryid \<and> same_but_times ps0 (snd q))"
        by (rule round.IH [OF Inr t(2) lo [unfolded be t(1)] t(3) rec sb])
      then obtain new where n: "snd st' = snd st1 @ new"
          "\<forall>q \<in> set new. fst q = queryid \<and> same_but_times ps0 (snd q)" by blast
      show ?thesis
        using n one sb by (intro exI [of _ "(queryid, ps1) # new"]) simp
    qed
  qed
qed


lemma inputchecks_place:
  "truthy_str place \<Longrightarrow>
     fmi_inputchecks place fmisid parameter model = fmi_inputchecks place None parameter model"
  by (simp add: fmi_inputchecks_def)

lemma location_params_place:
  "truthy_str place \<Longrightarrow> location_params place fmisid = [''place'' \<mapsto> pyval_of_str place]"
  by (simp add: location_params_def)

lemma get_observations_cases:
  obtains (failed) e where
      "get_observations L w clock place fmisid parameter hours sd ed = (Inl e, (w, []))"
  | (queried) name start en span where
      "fmi_inputchecks place fmisid parameter None = Inr ()"
      "param_name_of parameter ''observation'' = Inr name"
      "get_datetime_limits clock sd ed hours = Inr (start, en)"
      "datetime_diff en start = Inr span"
      "get_observations L w clock place fmisid parameter hours sd ed =
         (if whole_hours span \<le> 744
          then (case load_obs L observations_queryid
                       ((location_params place fmisid)(''parameters'' \<mapsto> pyval_of_str name))
                       (w, []) start en of (r, ps', st') \<Rightarrow> (r, st'))
          else obs_loop L observations_queryid
                 ((location_params place fmisid)(''parameters'' \<mapsto> pyval_of_str name))
                 start en (w, []) [])"
proof (cases "fmi_inputchecks place fmisid parameter None")
  case (Inl e)
  then show ?thesis by (intro failed [of e]) (simp add: get_observations_def)
next
  case c1: (Inr u)
  show ?thesis
  proof (cases "param_name_of parameter ''observation''")
    case (Inl e)
    then show ?thesis using c1 by (intro failed [of e]) (simp add: get_observations_def)
  next
    case c2: (Inr name)
    show ?thesis
    proof (cases "get_datetime_limits clock sd ed hours")
      case (Inl e)
      then show ?thesis using c1 c2
        by (intro failed [of e]) (simp add: get_observations_def Let_def)
    next
      case (Inr p)
      then obtain start en where c3: "get_datetime_limits clock sd ed hours = Inr (start, en)"
        by (cases p) auto
      show ?thesis
      proof (cases "datetime_diff en start")
        case (Inl e)
        then show ?thesis using c1 c2 c3
          by (intro failed [of e]) (simp add: get_observations_def Let_def)
      next
        case c4: (Inr span)
        show ?thesis
          by (rule queried [of name start en span])
             (use c1 c2 c3 c4 in \<open>simp_all add: get_observations_def Let_def not_less\<close>)
      qed
    qed
  qed
qed

lemma get_forecast_cases:
  obtains (failed) e where
      "get_forecast L w clock place fmisid parameter model hours = (Inl e, (w, []))"
  | (queried) name now td endtime where
      "fmi_inputchecks place fmisid parameter model = Inr ()"
      "param_name_of parameter ''forecast'' = Inr name"
      "replace_second_microsecond clock 0 0 = Inr now"
      "timedelta_hours (forecast_hours model hours) = Inr td"
      "datetime_add now td = Inr endtime"
      "get_forecast L w clock place fmisid parameter model hours =
         (case do_query L (w, []) (forecast_queryid model)
                 ((location_params place fmisid)(''parameters'' \<mapsto> pyval_of_str name,
                    ''endtime'' \<mapsto> PStr (isoformat endtime))) of
            (Inl e, st') \<Rightarrow> (Inl e, st')
          | (Inr tree, st') \<Rightarrow> (tree_to_df (to_datetime L) (to_float L) tree, st'))"
proof (cases "fmi_inputchecks place fmisid parameter model")
  case (Inl e)
  then show ?thesis by (intro failed [of e]) (simp add: get_forecast_def)
next
  case c1: (Inr u)
  show ?thesis
  proof (cases "param_name_of parameter ''forecast''")
    case (Inl e)
    then show ?thesis using c1 by (intro failed [of e]) (simp add: get_forecast_def)
  next
    case c2: (Inr name)
    show ?thesis
    proof (cases "replace_second_microsecond clock 0 0")
      case (Inl e)
      then show ?thesis using c1 c2 by (intro failed [of e]) (simp add: get_forecast_def)
    next
      case c3: (Inr now)
      show ?thesis
      proof (cases "timedelta_hours (forecast_hours model hours)")
        case (Inl e)
        then show ?thesis using c1 c2 c3 by (intro failed [of e]) (simp add: get_forecast_def)
      next
        case c4: (Inr td)
        show ?thesis
        proof (cases "datetime_add now td")
          case (Inl e)
          then show ?thesis using c1 c2 c3 c4
            by (intro failed [of e]) (simp add: get_forecast_def)
        next
          case c5: (Inr endtime)
          show ?thesis
            by (rule queried [of name now td endtime])
               (use c1 c2 c3 c4 c5 in \<open>simp_all add: get_forecast_def Let_def\<close>)
        qed
      qed
    qed
  qed
qed

lemma do_query_sent:
  "do_query L st queryid ps = (r, st') \<Longrightarrow> snd st' = snd st @ [(queryid, ps)]"
  by (auto simp: do_query_def split: prod.splits)

lemma get_observations_sent:
  assumes "truthy_str place" and "q \<in> set (sent (get_observations L w clock place fmisid parameter hours sd ed))"
  shows "snd q ''place'' = Some (pyval_of_str place) \<and> snd q ''fmisid'' = None"
proof (cases rule: get_observations_cases [of L w clock place fmisid parameter hours sd ed])
  case (failed e)
  then show ?thesis using assms(2) by (simp add: sent_def)
next
  case (queried name start en span)
  define ps0 where "ps0 = (location_params place fmisid)(''parameters'' \<mapsto> pyval_of_str name)"
  have k: "same_but_times ps0 ps \<Longrightarrow>
             ps ''place'' = Some (pyval_of_str place) \<and> ps ''fmisid'' = None" for ps
    using assms(1) by (simp add: same_but_times_def ps0_def location_params_place)
  have "same_but_times ps0 (snd q)"
  proof (cases "whole_hours span \<le> 744")
    case True
    obtain r ps' st' where lo:
      "load_obs L observations_queryid ps0 (w, []) start en = (r, ps', st')"
      by (cases "load_obs L observations_queryid ps0 (w, []) start en") auto
    have "sent (get_observations L w clock place fmisid parameter hours sd ed) = snd st'"
      using queried(5) True lo by (simp add: sent_def ps0_def)
    then have "q = (observations_queryid, ps')"
      using load_obs_sent [OF lo] assms(2) by simp
    moreover have "same_but_times ps0 ps'"
      using load_obs_sent [OF lo] same_but_times_upd [OF same_but_times_refl] by simp
    ultimately show ?thesis by simp
  next
    case False
    obtain r st' where lo: "obs_loop L observations_queryid ps0 start en (w, []) [] = (r, st')"
      by (cases "obs_loop L observations_queryid ps0 start en (w, []) []") auto
    have "sent (get_observations L w clock place fmisid parameter hours sd ed) = snd st'"
      using queried(5) False lo by (simp add: sent_def ps0_def)
    then show ?thesis
      using obs_loop_sent [OF lo same_but_times_refl] assms(2) by auto
  qed
  then show ?thesis by (rule k)
qed

lemma get_forecast_sent:
  assumes "truthy_str place" and "q \<in> set (sent (get_forecast L w clock place fmisid parameter model hours))"
  shows "snd q ''place'' = Some (pyval_of_str place) \<and> snd q ''fmisid'' = None"
proof (cases rule: get_forecast_cases [of L w clock place fmisid parameter model hours])
  case (failed e)
  then show ?thesis using assms(2) by (simp add: sent_def)
next
  case (queried name now td endtime)
  define ps where "ps = (location_params place fmisid)(''parameters'' \<mapsto> pyval_of_str name,
                    ''endtime'' \<mapsto> PStr (isoformat endtime))"
  obtain r st' where dq: "do_query L (w, []) (forecast_queryid model) ps = (r, st')"
    by (cases "do_query L (w, []) (forecast_queryid model) ps") auto
  have "sent (get_forecast L w clock place fmisid parameter model hours) = snd st'"
    using queried(6) dq by (simp add: sent_def ps_def [symmetric] split: sum.splits)
  then have "q = (forecast_queryid model, ps)"
    using do_query_sent [OF dq] assms(2) by simp
  then show ?thesis using assms(1) by (simp add: ps_def location_params_place)
qed

text \<open>
  C10: when a place name and an fmisid are supplied together, the fmisid raises no error
  and is ignored: the input checks, \<open>get_observations\<close> and \<open>get_forecast\<close> behave as
  without the fmisid, the input checks accept the call when the parameter is supplied (and
  the model is none or one of the two), and every request that is sent carries the place
  and no fmisid.
\<close>

theorem place_overrides_fmisid:
  assumes "truthy_str place" and "truthy_fmisid fmisid"
  shows "fmi_inputchecks place fmisid parameter model = fmi_inputchecks place None parameter model
    \<and> (truthy_str parameter \<and> (\<not> truthy_str model \<or> model \<in> {Some ''harmonie'', Some ''hirlam''})
         \<longrightarrow> fmi_inputchecks place fmisid parameter model = Inr ())
    \<and> get_observations L w clock place fmisid parameter hours start_date end_date
        = get_observations L w clock place None parameter hours start_date end_date
    \<and> get_forecast L w clock place fmisid parameter model hours
        = get_forecast L w clock place None parameter model hours
    \<and> (\<forall>q \<in> set (sent (get_observations L w clock place fmisid parameter hours start_date end_date)).
          snd q ''place'' = Some (pyval_of_str place) \<and> snd q ''fmisid'' = None)
    \<and> (\<forall>q \<in> set (sent (get_forecast L w clock place fmisid parameter model hours)).
          snd q ''place'' = Some (pyval_of_str place) \<and> snd q ''fmisid'' = None)"
proof -
  note lp = location_params_place [OF assms(1)]
  have a: "truthy_str parameter \<and> (\<not> truthy_str model \<or> model \<in> {Some ''harmonie'', Some ''hirlam''})
         \<longrightarrow> fmi_inputchecks place fmisid parameter model = Inr ()"
    using assms(1) by (auto simp: fmi_inputchecks_def)
  have b: "get_observations L w clock place fmisid parameter hours start_date end_date
        = get_observations L w clock place None parameter hours start_date end_date"
    unfolding get_observations_def lp inputchecks_place [OF assms(1), of fmisid] by (rule refl)
  have c: "get_forecast L w clock place fmisid parameter model hours
        = get_forecast L w clock place None parameter model hours"
    unfolding get_forecast_def lp inputchecks_place [OF assms(1), of fmisid] by (rule refl)
  have d: "\<forall>q \<in> set (sent (get_observations L w clock place fmisid parameter hours start_date end_date)).
          snd q ''place'' = Some (pyval_of_str place) \<and> snd q ''fmisid'' = None"
    by (intro ballI) (rule get_observations_sent [OF assms(1)])
  have e: "\<forall>q \<in> set (sent (get_forecast L w clock place fmisid parameter model hours)).
          snd q ''place'' = Some (pyval_of_str place) \<and> snd q ''fmisid'' = None"
    by (intro ballI) (rule get_forecast_sent [OF assms(1)])
  show ?thesis
    using inputchecks_place [OF assms(1), of fmisid parameter model] a b c d e by simp
qed

theorem place_overrides_fmisid_witness:
  "truthy_str (Some ''Helsinki'') \<and> truthy_fmisid (Some (FmisidStr ''101533''))
   \<and> truthy_str (Some ''temperature'') \<and> \<not> truthy_str None
   \<and> fmi_inputchecks (Some ''Helsinki'') (Some (FmisidStr ''101533'')) (Some ''temperature'') None
        = Inr ()
   \<and> length (sent (get_observations echo 0 (mk_datetime 2022 9 1 0 30 17 5) (Some ''Helsinki'')
        (Some (FmisidStr ''101533'')) (Some ''temperature'') (Some 24) None None)) = 1
   \<and> snd (hd (sent (get_observations echo 0 (mk_datetime 2022 9 1 0 30 17 5) (Some ''Helsinki'')
        (Some (FmisidStr ''101533'')) (Some ''temperature'') (Some 24) None None))) ''place''
        = Some (PStr ''Helsinki'')
   \<and> snd (hd (sent (get_observations echo 0 (mk_datetime 2022 9 1 0 30 17 5) (Some ''Helsinki'')
        (Some (FmisidStr ''101533'')) (Some ''temperature'') (Some 24) None None))) ''fmisid''
        = None
   \<and> length (sent (get_forecast echo 0 (mk_datetime 2022 9 1 0 30 17 5) (Some ''Helsinki'')
        (Some (FmisidStr ''101533'')) (Some ''temperature'') None None)) = 1
   \<and> snd (hd (sent (get_forecast echo 0 (mk_datetime 2022 9 1 0 30 17 5) (Some ''Helsinki'')
        (Some (FmisidStr ''101533'')) (Some ''temperature'') None None))) ''place''
        = Some (PStr ''Helsinki'')
   \<and> snd (hd (sent (get_forecast echo 0 (mk_datetime 2022 9 1 0 30 17 5) (Some ''Helsinki'')
        (Some (FmisidStr ''101533'')) (Some ''temperature'') None None))) ''fmisid''
        = None"
proof -
  let ?o = "sent (get_observations echo 0 (mk_datetime 2022 9 1 0 30 17 5) (Some ''Helsinki'')
        (Some (FmisidStr ''101533'')) (Some ''temperature'') (Some 24) None None)"
  let ?f = "sent (get_forecast echo 0 (mk_datetime 2022 9 1 0 30 17 5) (Some ''Helsinki'')
        (Some (FmisidStr ''101533'')) (Some ''temperature'') None None)"
  have h: "truthy_str (Some ''Helsinki'')" "truthy_fmisid (Some (FmisidStr ''101533''))"
      "truthy_str (Some ''temperature'')" "\<not> truthy_str None"
    by (simp_all add: truthy_str_def truthy_fmisid_def)
  have lo: "length ?o = 1" by code_simp
  have lf: "length ?f = 1" by code_simp
  have "hd ?o \<in> set ?o" using lo by (cases ?o) simp_all
  moreover have "hd ?f \<in> set ?f" using lf by (cases ?f) simp_all
  ultimately show ?thesis
    using h lo lf
      place_overrides_fmisid [OF h(1,2), where parameter = "Some ''temperature''"
        and model = None and L = echo and w = 0 and clock = "mk_datetime 2022 9 1 0 30 17 5"
        and hours = "Some 24" and start_date = None and end_date = None]
      place_overrides_fmisid [OF h(1,2), where parameter = "Some ''temperature''"
        and model = None and L = echo and w = 0 and clock = "mk_datetime 2022 9 1 0 30 17 5"
        and hours = None and start_date = None and end_date = None]
    by (simp add: pyval_of_str_def)
qed

section \<open>Input validation\<close>

lemma inputchecks_error:
  "fmi_inputchecks place fmisid parameter model = Inl e \<Longrightarrow> \<exists>msg. e = ValueError msg"
  by (auto simp: fmi_inputchecks_def split: if_splits)

lemma inputchecks_no_location:
  assumes "\<not> truthy_str place" "\<not> truthy_fmisid fmisid"
  shows "\<exists>msg. fmi_inputchecks place fmisid parameter model = Inl (ValueError msg)"
  using assms by (simp add: fmi_inputchecks_def)

text \<open>
  C8, as amended: the input validation rejects a call that supplies neither a place name
  nor an fmisid: \<open>get_observations\<close> and \<open>get_forecast\<close> raise \<open>ValueError\<close>, and no request
  has been sent. A call that supplies both is not rejected: with the parameter supplied (and
  the model none or one of the two) the validation passes.
\<close>

theorem location_required:
  "(\<not> truthy_str place \<and> \<not> truthy_fmisid fmisid \<longrightarrow>
      (\<exists>msg. get_observations L w clock place fmisid parameter hours start_date end_date
                = (Inl (ValueError msg), (w, [])))
      \<and> (\<exists>msg. get_forecast L w clock place fmisid parameter model hours
                = (Inl (ValueError msg), (w, []))))
   \<and> (truthy_str place \<and> truthy_fmisid fmisid \<and> truthy_str parameter
        \<and> (\<not> truthy_str model \<or> model \<in> {Some ''harmonie'', Some ''hirlam''}) \<longrightarrow>
      fmi_inputchecks place fmisid parameter model = Inr ())"
proof (intro conjI impI)
  assume a: "\<not> truthy_str place \<and> \<not> truthy_fmisid fmisid"
  obtain m1 where "fmi_inputchecks place fmisid parameter None = Inl (ValueError m1)"
    using inputchecks_no_location [of place fmisid parameter None] a by blast
  then show "\<exists>msg. get_observations L w clock place fmisid parameter hours start_date end_date
                = (Inl (ValueError msg), (w, []))"
    by (simp add: get_observations_def)
  obtain m2 where "fmi_inputchecks place fmisid parameter model = Inl (ValueError m2)"
    using inputchecks_no_location [of place fmisid parameter model] a by blast
  then show "\<exists>msg. get_forecast L w clock place fmisid parameter model hours
                = (Inl (ValueError msg), (w, []))"
    by (simp add: get_forecast_def)
next
  assume "truthy_str place \<and> truthy_fmisid fmisid \<and> truthy_str parameter
        \<and> (\<not> truthy_str model \<or> model \<in> {Some ''harmonie'', Some ''hirlam''})"
  then show "fmi_inputchecks place fmisid parameter model = Inr ()"
    by (auto simp: fmi_inputchecks_def)
qed

theorem location_required_witness:
  "(\<not> truthy_str None \<and> \<not> truthy_fmisid (Some (FmisidStr [])))
   \<and> (\<exists>msg. get_observations echo 0 (mk_datetime 2022 9 1 0 30 17 5) None (Some (FmisidStr []))
              (Some ''temperature'') (Some 24) None None = (Inl (ValueError msg), (0, [])))
   \<and> (\<exists>msg. get_forecast echo 0 (mk_datetime 2022 9 1 0 30 17 5) None (Some (FmisidStr []))
              (Some ''temperature'') (Some ''harmonie'') (Some 24) = (Inl (ValueError msg), (0, [])))
   \<and> (truthy_str (Some ''Helsinki'') \<and> truthy_fmisid (Some (FmisidInt 101533))
        \<and> truthy_str (Some ''temperature'')
        \<and> Some ''harmonie'' \<in> {Some ''harmonie'', Some ''hirlam''})
   \<and> fmi_inputchecks (Some ''Helsinki'') (Some (FmisidInt 101533)) (Some ''temperature'')
        (Some ''harmonie'') = Inr ()"
proof -
  have 1: "\<not> truthy_str None \<and> \<not> truthy_fmisid (Some (FmisidStr []))"
    by (simp add: truthy_str_def truthy_fmisid_def)
  have 2: "truthy_str (Some ''Helsinki'') \<and> truthy_fmisid (Some (FmisidInt 101533))
        \<and> truthy_str (Some ''temperature'')
        \<and> (\<not> truthy_str (Some ''harmonie'')
            \<or> Some ''harmonie'' \<in> {Some ''harmonie'', Some ''hirlam''})"
    by (simp add: truthy_str_def truthy_fmisid_def)
  show ?thesis
    using 1 2
      location_required [where place = None and fmisid = "Some (FmisidStr [])"
        and parameter = "Some ''temperature''" and model = "Some ''harmonie''" and L = echo
        and w = 0 and clock = "mk_datetime 2022 9 1 0 30 17 5" and hours = "Some 24"
        and start_date = None and end_date = None]
      location_required [where place = "Some ''Helsinki''" and fmisid = "Some (FmisidInt 101533)"
        and parameter = "Some ''temperature''" and model = "Some ''harmonie''" and L = echo
        and w = 0 and clock = "mk_datetime 2022 9 1 0 30 17 5" and hours = "Some 24"
        and start_date = None and end_date = None]
    by simp
qed

theorem both_locations_accepted_counterexample:
  "truthy_str (Some ''Helsinki'') \<and> truthy_fmisid (Some (FmisidStr ''101533''))
   \<and> fmi_inputchecks (Some ''Helsinki'') (Some (FmisidStr ''101533'')) (Some ''temperature'')
        (Some ''harmonie'') = Inr ()
   \<and> fst (get_forecast echo 0 (mk_datetime 2022 12 25 16 0 17 5) (Some ''Helsinki'')
        (Some (FmisidStr ''101533'')) (Some ''temperature'') (Some ''harmonie'') None)
       = Inr [(''-'', ''2022-12-28T10:00:00'')]
   \<and> length (sent (get_forecast echo 0 (mk_datetime 2022 12 25 16 0 17 5) (Some ''Helsinki'')
        (Some (FmisidStr ''101533'')) (Some ''temperature'') (Some ''harmonie'') None)) = 1"
  by code_simp

section \<open>The end time of a forecast\<close>

lemma get_forecast_endtime:
  assumes "fmi_inputchecks place fmisid parameter model = Inr ()"
    and "param_name_of parameter ''forecast'' = Inr name"
    and "replace_second_microsecond clock 0 0 = Inr now"
    and "plus_hours now (forecast_hours model hours) = Inr endtime"
  shows "map (\<lambda>q. snd q ''endtime'') (sent (get_forecast L w clock place fmisid parameter model hours))
           = [Some (PStr (isoformat endtime))]"
proof -
  obtain td where td: "timedelta_hours (forecast_hours model hours) = Inr td"
    and ad: "datetime_add now td = Inr endtime"
    using assms(4) by (auto simp: plus_hours_def split: sum.splits)
  define ps where "ps = (location_params place fmisid)(''parameters'' \<mapsto> pyval_of_str name,
                    ''endtime'' \<mapsto> PStr (isoformat endtime))"
  obtain r st' where dq: "do_query L (w, []) (forecast_queryid model) ps = (r, st')"
    by (cases "do_query L (w, []) (forecast_queryid model) ps") auto
  have "sent (get_forecast L w clock place fmisid parameter model hours) = snd st'"
    using assms(1-3) td ad dq
    by (simp add: get_forecast_def Let_def sent_def ps_def [symmetric] split: sum.splits)
  then have "sent (get_forecast L w clock place fmisid parameter model hours)
               = [(forecast_queryid model, ps)]"
    using do_query_sent [OF dq] by simp
  then show ?thesis by (simp add: ps_def)
qed

text \<open>
  C7, as amended: when the input checks pass, the request of \<open>get_forecast\<close> carries the
  end time \<open>now + 66 hours\<close> for the model \<open>"harmonie"\<close> and \<open>now + 54 hours\<close> for the
  model \<open>"hirlam"\<close> when \<open>hours\<close> is not supplied or is \<open>0\<close> (the test \<open>if hours:\<close> takes
  a zero for no argument), and \<open>now + hours\<close> when \<open>hours\<close> is supplied and is not \<open>0\<close>;
  \<open>now\<close> is the clock with seconds and microseconds set to zero.
\<close>

theorem forecast_end_time:
  assumes "fmi_inputchecks place fmisid parameter model = Inr ()"
    and "param_name_of parameter ''forecast'' = Inr name"
    and "replace_second_microsecond clock 0 0 = Inr now"
  shows "(model = Some ''harmonie'' \<and> \<not> truthy_int hours \<and> plus_hours now 66 = Inr endtime \<longrightarrow>
            map (\<lambda>q. snd q ''endtime'')
              (sent (get_forecast L w clock place fmisid parameter model hours))
              = [Some (PStr (isoformat endtime))])
       \<and> (model = Some ''hirlam'' \<and> \<not> truthy_int hours \<and> plus_hours now 54 = Inr endtime \<longrightarrow>
            map (\<lambda>q. snd q ''endtime'')
              (sent (get_forecast L w clock place fmisid parameter model hours))
              = [Some (PStr (isoformat endtime))])
       \<and> (hours = Some h \<and> h \<noteq> 0 \<and> plus_hours now h = Inr endtime \<longrightarrow>
            map (\<lambda>q. snd q ''endtime'')
              (sent (get_forecast L w clock place fmisid parameter model hours))
              = [Some (PStr (isoformat endtime))])"
proof (intro conjI impI)
  assume "model = Some ''harmonie'' \<and> \<not> truthy_int hours \<and> plus_hours now 66 = Inr endtime"
  then have "plus_hours now (forecast_hours model hours) = Inr endtime"
    by (auto simp: forecast_hours_def truthy_int_def split: option.splits)
  then show "map (\<lambda>q. snd q ''endtime'')
              (sent (get_forecast L w clock place fmisid parameter model hours))
              = [Some (PStr (isoformat endtime))]"
    by (rule get_forecast_endtime [OF assms])
next
  assume "model = Some ''hirlam'' \<and> \<not> truthy_int hours \<and> plus_hours now 54 = Inr endtime"
  then have "plus_hours now (forecast_hours model hours) = Inr endtime"
    by (auto simp: forecast_hours_def truthy_int_def split: option.splits)
  then show "map (\<lambda>q. snd q ''endtime'')
              (sent (get_forecast L w clock place fmisid parameter model hours))
              = [Some (PStr (isoformat endtime))]"
    by (rule get_forecast_endtime [OF assms])
next
  assume "hours = Some h \<and> h \<noteq> 0 \<and> plus_hours now h = Inr endtime"
  then have "plus_hours now (forecast_hours model hours) = Inr endtime"
    by (auto simp: forecast_hours_def)
  then show "map (\<lambda>q. snd q ''endtime'')
              (sent (get_forecast L w clock place fmisid parameter model hours))
              = [Some (PStr (isoformat endtime))]"
    by (rule get_forecast_endtime [OF assms])
qed

theorem forecast_end_time_witness:
  "map (\<lambda>q. snd q ''endtime'')
     (sent (get_forecast echo 0 (mk_datetime 2022 12 25 16 0 17 5) None (Some (FmisidStr ''101533''))
        (Some ''wind_speed'') (Some ''harmonie'') None)) = [Some (PStr ''2022-12-28T10:00:00'')]
   \<and> map (\<lambda>q. snd q ''endtime'')
     (sent (get_forecast echo 0 (mk_datetime 2022 12 25 16 0 17 5) None (Some (FmisidStr ''101533''))
        (Some ''wind_speed'') (Some ''hirlam'') None)) = [Some (PStr ''2022-12-27T22:00:00'')]
   \<and> map (\<lambda>q. snd q ''endtime'')
     (sent (get_forecast echo 0 (mk_datetime 2022 12 25 16 0 17 5) None (Some (FmisidStr ''101533''))
        (Some ''wind_speed'') (Some ''harmonie'') (Some 24))) = [Some (PStr ''2022-12-26T16:00:00'')]"
proof -
  let ?now = "mk_datetime 2022 12 25 16 0 0 0"
  have c: "fmi_inputchecks None (Some (FmisidStr ''101533'')) (Some ''wind_speed'') (Some ''harmonie'') = Inr ()"
      "fmi_inputchecks None (Some (FmisidStr ''101533'')) (Some ''wind_speed'') (Some ''hirlam'') = Inr ()"
      "param_name_of (Some ''wind_speed'') ''forecast'' = Inr (Some ''WindSpeedMS'')"
      "replace_second_microsecond (mk_datetime 2022 12 25 16 0 17 5) 0 0 = Inr ?now"
    by code_simp+
  have p: "plus_hours ?now 66 = Inr (mk_datetime 2022 12 28 10 0 0 0)"
      "plus_hours ?now 54 = Inr (mk_datetime 2022 12 27 22 0 0 0)"
      "plus_hours ?now 24 = Inr (mk_datetime 2022 12 26 16 0 0 0)"
    by code_simp+
  have i: "isoformat (mk_datetime 2022 12 28 10 0 0 0) = ''2022-12-28T10:00:00''"
      "isoformat (mk_datetime 2022 12 27 22 0 0 0) = ''2022-12-27T22:00:00''"
      "isoformat (mk_datetime 2022 12 26 16 0 0 0) = ''2022-12-26T16:00:00''"
    by code_simp+
  have t: "\<not> truthy_int None" by (simp add: truthy_int_def)
  show ?thesis
    using forecast_end_time [OF c(1) c(3) c(4), where hours = None
        and endtime = "mk_datetime 2022 12 28 10 0 0 0" and L = echo and w = 0]
      forecast_end_time [OF c(2) c(3) c(4), where hours = None
        and endtime = "mk_datetime 2022 12 27 22 0 0 0" and L = echo and w = 0]
      forecast_end_time [OF c(1) c(3) c(4), where hours = "Some 24" and h = 24
        and endtime = "mk_datetime 2022 12 26 16 0 0 0" and L = echo and w = 0]
      p t
    by (simp add: i)
qed

text \<open>
  With \<open>hours=0\<close> supplied the end time is not \<open>now + 0 hours\<close>, which is \<open>now\<close>, but the
  default of the model, here \<open>now + 66 hours\<close>.
\<close>

theorem forecast_zero_hours_counterexample:
  "map (\<lambda>q. snd q ''endtime'')
     (sent (get_forecast echo 0 (mk_datetime 2022 12 25 16 0 17 5) None (Some (FmisidStr ''101533''))
        (Some ''wind_speed'') (Some ''harmonie'') (Some 0))) = [Some (PStr ''2022-12-28T10:00:00'')]
   \<and> replace_second_microsecond (mk_datetime 2022 12 25 16 0 17 5) 0 0
       = Inr (mk_datetime 2022 12 25 16 0 0 0)
   \<and> plus_hours (mk_datetime 2022 12 25 16 0 0 0) 0 = Inr (mk_datetime 2022 12 25 16 0 0 0)
   \<and> isoformat (mk_datetime 2022 12 25 16 0 0 0) = ''2022-12-25T16:00:00''
   \<and> plus_hours (mk_datetime 2022 12 25 16 0 0 0) 66 = Inr (mk_datetime 2022 12 28 10 0 0 0)
   \<and> isoformat (mk_datetime 2022 12 28 10 0 0 0) = ''2022-12-28T10:00:00''"
proof -
  let ?now = "mk_datetime 2022 12 25 16 0 0 0"
  have c: "fmi_inputchecks None (Some (FmisidStr ''101533'')) (Some ''wind_speed'') (Some ''harmonie'') = Inr ()"
      "param_name_of (Some ''wind_speed'') ''forecast'' = Inr (Some ''WindSpeedMS'')"
      "replace_second_microsecond (mk_datetime 2022 12 25 16 0 17 5) 0 0 = Inr ?now"
    by code_simp+
  have p: "plus_hours ?now 0 = Inr ?now"
      "plus_hours ?now 66 = Inr (mk_datetime 2022 12 28 10 0 0 0)"
      "isoformat ?now = ''2022-12-25T16:00:00''"
      "isoformat (mk_datetime 2022 12 28 10 0 0 0) = ''2022-12-28T10:00:00''"
    by code_simp+
  have f: "forecast_hours (Some ''harmonie'') (Some 0) = 66" by (simp add: forecast_hours_def)
  have "plus_hours ?now (forecast_hours (Some ''harmonie'') (Some 0))
          = Inr (mk_datetime 2022 12 28 10 0 0 0)"
    unfolding f by (rule p(2))
  note e = get_forecast_endtime [OF c this, of echo 0]
  show ?thesis
    by (intro conjI) (rule e [unfolded p(4)] c(3) p)+
qed

section \<open>Ranges that one request covers\<close>

lemma get_observations_single:
  assumes "fmi_inputchecks place fmisid parameter None = Inr ()"
    and "param_name_of parameter ''observation'' = Inr name"
    and "get_datetime_limits clock start_date end_date hours = Inr (start, en)"
    and "datetime_diff en start = Inr span"
    and "whole_hours span \<le> 744"
  shows "get_observations L w clock place fmisid parameter hours start_date end_date
           = (case load_obs L observations_queryid
                     ((location_params place fmisid)(''parameters'' \<mapsto> pyval_of_str name))
                     (w, []) start en of (r, ps', st') \<Rightarrow> (r, st'))"
    and "sent (get_observations L w clock place fmisid parameter hours start_date end_date)
           = [(observations_queryid,
               (location_params place fmisid)(''parameters'' \<mapsto> pyval_of_str name,
                  ''starttime'' \<mapsto> PStr (isoformat start),
                  ''endtime'' \<mapsto> PStr (isoformat en)))]"
proof -
  define ps where "ps = (location_params place fmisid)(''parameters'' \<mapsto> pyval_of_str name)"
  obtain r ps' st' where lo: "load_obs L observations_queryid ps (w, []) start en = (r, ps', st')"
    by (cases "load_obs L observations_queryid ps (w, []) start en") auto
  have eq: "get_observations L w clock place fmisid parameter hours start_date end_date
           = (case load_obs L observations_queryid ps (w, []) start en of (r, ps', st') \<Rightarrow> (r, st'))"
    using assms by (simp add: get_observations_def Let_def ps_def not_less)
  show "get_observations L w clock place fmisid parameter hours start_date end_date
           = (case load_obs L observations_queryid
                     ((location_params place fmisid)(''parameters'' \<mapsto> pyval_of_str name))
                     (w, []) start en of (r, ps', st') \<Rightarrow> (r, st'))"
    using eq by (simp add: ps_def)
  show "sent (get_observations L w clock place fmisid parameter hours start_date end_date)
           = [(observations_queryid,
               (location_params place fmisid)(''parameters'' \<mapsto> pyval_of_str name,
                  ''starttime'' \<mapsto> PStr (isoformat start),
                  ''endtime'' \<mapsto> PStr (isoformat en)))]"
    unfolding eq using load_obs_sent [OF lo] lo by (simp add: sent_def ps_def)
qed

lemma whole_hours_le:
  assumes "total_microseconds span \<le> 744 * 3600000000"
  shows "whole_hours span \<le> 744"
proof -
  have "total_microseconds span div 3600000000 \<le> (744 * 3600000000) div 3600000000"
    by (rule zdiv_mono1 [OF assms]) simp
  then show ?thesis by (simp add: whole_hours_def)
qed

text \<open>
  C6: when the input checks pass and the span \<open>end - start\<close> of the range that
  \<open>_get_datetime_limits\<close> returns is at most 744 hours, \<open>get_observations\<close> sends exactly one
  request, from \<open>start\<close> to \<open>end\<close>, and its result is the result of that one load.
\<close>

theorem short_range_one_query:
  assumes "fmi_inputchecks place fmisid parameter None = Inr ()"
    and "param_name_of parameter ''observation'' = Inr name"
    and "get_datetime_limits clock start_date end_date hours = Inr (start, en)"
    and "datetime_diff en start = Inr span"
    and "total_microseconds span \<le> 744 * 3600000000"
  shows "sent (get_observations L w clock place fmisid parameter hours start_date end_date)
           = [(observations_queryid,
               (location_params place fmisid)(''parameters'' \<mapsto> pyval_of_str name,
                  ''starttime'' \<mapsto> PStr (isoformat start),
                  ''endtime'' \<mapsto> PStr (isoformat en)))]
         \<and> get_observations L w clock place fmisid parameter hours start_date end_date
           = (case load_obs L observations_queryid
                     ((location_params place fmisid)(''parameters'' \<mapsto> pyval_of_str name))
                     (w, []) start en of (r, ps', st') \<Rightarrow> (r, st'))"
  by (intro conjI get_observations_single [OF assms(1-4) whole_hours_le [OF assms(5)]])

theorem short_range_one_query_witness:
  "map (\<lambda>q. (fst q, snd q ''place'', snd q ''parameters'', snd q ''starttime'', snd q ''endtime''))
     (sent (get_observations echo 0 (mk_datetime 2022 9 1 0 0 17 5) (Some ''Helsinki'') None
        (Some ''temperature'') None (Some (DateStr ''2022-08-01'')) None))
   = [(''fmi::observations::weather::hourly::simple'', Some (PStr ''Helsinki''),
       Some (PStr ''TA_PT1H_AVG''), Some (PStr ''2022-08-01T00:00:00''),
       Some (PStr ''2022-09-01T00:00:00''))]
   \<and> total_microseconds \<lparr>days = 31, seconds = 0, microseconds = 0\<rparr> = 744 * 3600000000"
proof -
  let ?start = "mk_datetime 2022 8 1 0 0 0 0"
  let ?en = "mk_datetime 2022 9 1 0 0 0 0"
  have c: "fmi_inputchecks (Some ''Helsinki'') None (Some ''temperature'') None = Inr ()"
      "param_name_of (Some ''temperature'') ''observation'' = Inr (Some ''TA_PT1H_AVG'')"
      "get_datetime_limits (mk_datetime 2022 9 1 0 0 17 5) (Some (DateStr ''2022-08-01'')) None None
         = Inr (?start, ?en)"
      "datetime_diff ?en ?start = Inr \<lparr>days = 31, seconds = 0, microseconds = 0\<rparr>"
    by code_simp+
  have t: "total_microseconds \<lparr>days = 31, seconds = 0, microseconds = 0\<rparr> \<le> 744 * 3600000000"
    by (simp add: total_microseconds_def)
  have i: "isoformat ?start = ''2022-08-01T00:00:00''" "isoformat ?en = ''2022-09-01T00:00:00''"
      "location_params (Some ''Helsinki'') None = [''place'' \<mapsto> PStr ''Helsinki'']"
    by (code_simp, code_simp, simp add: location_params_def truthy_str_def pyval_of_str_def)
  show ?thesis
    using short_range_one_query [OF c t, where L = echo and w = 0, THEN conjunct1]
    by (simp add: i observations_queryid_def pyval_of_str_def total_microseconds_def)
qed

section \<open>The conversion of the value column\<close>

lemma tags_distinct:
  "time_tag \<noteq> value_tag" "time_tag \<notin> set const_tags" "value_tag \<notin> set const_tags"
  by (simp_all add: time_tag_def value_tag_def const_tags_def)

definition cell :: "string \<Rightarrow> element \<Rightarrow> string list" where
  "cell tg el =
     (case el_text el of
        None \<Rightarrow> []
      | Some t \<Rightarrow> if el_tag el = tg \<and> \<not> isspace t then [t] else [])"

lemma collect_cells:
  assumes "collect els tms vals = Inr (tms', vals')"
  shows "tms' = tms @ concat (map (cell time_tag) els)
         \<and> vals' = vals @ concat (map (cell value_tag) els)"
  using assms
proof (induction els arbitrary: tms vals)
  case Nil
  then show ?case by simp
next
  case (Cons el els)
  obtain t where t: "el_text el = Some t"
    using Cons.prems by (cases "el_text el") simp_all
  consider (skip) "isspace t \<or> el_tag el \<in> set const_tags"
    | (tm) "\<not> isspace t" "el_tag el = time_tag"
    | (vl) "\<not> isspace t" "el_tag el = value_tag"
    | (other) "\<not> isspace t" "el_tag el \<notin> set const_tags" "el_tag el \<noteq> time_tag"
        "el_tag el \<noteq> value_tag"
    by blast
  then show ?case
  proof cases
    case skip
    then have "collect els tms vals = Inr (tms', vals')"
      using Cons.prems t by auto
    moreover have "cell time_tag el = []" "cell value_tag el = []"
      using skip t tags_distinct by (auto simp: cell_def)
    ultimately show ?thesis using Cons.IH by simp
  next
    case tm
    then have "collect els (tms @ [t]) vals = Inr (tms', vals')"
      using Cons.prems t tags_distinct by simp
    moreover have "cell time_tag el = [t]" "cell value_tag el = []"
      using tm t tags_distinct by (auto simp: cell_def)
    ultimately show ?thesis using Cons.IH [of "tms @ [t]" vals] by simp
  next
    case vl
    then have "collect els tms (vals @ [t]) = Inr (tms', vals')"
      using Cons.prems t tags_distinct by simp
    moreover have "cell time_tag el = []" "cell value_tag el = [t]"
      using vl t tags_distinct by (auto simp: cell_def)
    ultimately show ?thesis using Cons.IH [of tms "vals @ [t]"] by simp
  next
    case other
    then have "collect els tms vals = Inr (tms', vals')"
      using Cons.prems t by simp
    moreover have "cell time_tag el = []" "cell value_tag el = []"
      using other t by (auto simp: cell_def)
    ultimately show ?thesis using Cons.IH by simp
  qed
qed

lemma collect_ok:
  assumes "\<forall>el \<in> set els. el_text el \<noteq> None"
  shows "\<exists>r. collect els tms vals = Inr r"
  using assms
  by (induction els arbitrary: tms vals) (auto split: option.splits)

lemma collect_tree:
  assumes "collect (iter tree) [] [] = Inr (tms, vals)"
  shows "tms = time_cells tree \<and> vals = value_cells tree"
  using collect_cells [OF assms]
  by (simp add: time_cells_def value_cells_def cells_of_def cell_def [abs_def])

lemma convert_column_Inr:
  "convert_column p xs = Inr ys \<Longrightarrow> map p xs = map Inr ys"
  by (induction xs arbitrary: ys) (auto split: sum.splits)

lemma convert_column_Inl:
  "convert_column p xs = Inl e \<Longrightarrow> \<exists>x \<in> set xs. p x = Inl e"
  by (induction xs) (auto split: sum.splits)

lemma convert_column_fails:
  "x \<in> set xs \<Longrightarrow> p x = Inl e \<Longrightarrow> \<exists>e'. convert_column p xs = Inl e'"
  by (induction xs) (auto split: sum.splits)

lemma tree_to_df_Inr:
  assumes "tree_to_df to_dt to_fl tree = Inr rows"
  shows "convert_column to_dt (time_cells tree) = Inr (map fst rows)
         \<and> convert_column to_fl (value_cells tree) = Inr (map snd rows)
         \<and> length (time_cells tree) = length (value_cells tree)"
proof -
  obtain tms vals where c: "collect (iter tree) [] [] = Inr (tms, vals)"
    using assms by (auto simp: tree_to_df_def split: sum.splits)
  note ct = collect_tree [OF c]
  obtain ds vs where l: "length tms = length vals"
    and d: "convert_column to_dt tms = Inr ds" and v: "convert_column to_fl vals = Inr vs"
    and r: "rows = zip ds vs"
    using assms c by (auto simp: tree_to_df_def split: sum.splits if_splits)
  have "length ds = length tms" "length vs = length vals"
    using convert_column_Inr [OF d] convert_column_Inr [OF v] by (metis length_map)+
  then show ?thesis using l d v r ct by simp
qed


subsection \<open>Texts that the float parser rejects\<close>

lemma set_dropWhile_sub: "set xs \<subseteq> set (dropWhile P xs) \<union> {x. P x}"
proof -
  have "set xs = set (takeWhile P xs) \<union> set (dropWhile P xs)"
    by (metis set_append takeWhile_dropWhile_id)
  then show ?thesis by (auto dest: set_takeWhileD)
qed

lemma transform_chars:
  assumes "CHR ''?'' \<notin> set (transform_decimal_and_space s)"
  shows "\<forall>c \<in> set s. c \<in> set (transform_decimal_and_space s) \<or> is_space_char c"
  using assms by (induction s) (auto split: if_splits)

lemma to_ascii_chars:
  assumes "CHR ''?'' \<notin> set (to_ascii s)"
  shows "\<forall>c \<in> set s. c \<in> set (to_ascii s) \<or> is_space_char c"
  using assms transform_chars [of s] by (auto simp: to_ascii_def split: if_splits)

lemma Py_ISSPACE_space: "Py_ISSPACE c \<Longrightarrow> is_space_char c"
  by (auto simp: Py_ISSPACE_def is_space_char_def Let_def)

lemma remove_underscores_chars:
  "remove_underscores prev s = Some d \<Longrightarrow> set s \<subseteq> set d \<union> {CHR ''_''}"
  by (induction prev s arbitrary: d rule: remove_underscores.induct)
     (auto split: if_splits option.splits)

lemma split_sign_chars:
  "split_sign s = (sg, r) \<Longrightarrow> set s \<subseteq> set r \<union> {CHR ''+'', CHR ''-''}"
  by (auto simp: split_sign_def split: list.splits if_splits)

lemma digits_chars: "set s \<subseteq> {c. is_digit c} \<union> set (dropWhile is_digit s)"
  using set_dropWhile_sub [of s is_digit] by auto

lemma parse_exponent_chars:
  assumes "parse_exponent s = (e, [])"
  shows "set s \<subseteq> {c. is_digit c} \<union> {CHR ''+'', CHR ''-'', CHR ''e'', CHR ''E''}"
proof (cases s)
  case Nil
  then show ?thesis by simp
next
  case (Cons c cs)
  obtain esign t where sp: "split_sign cs = (esign, t)" by (cases "split_sign cs") auto
  have ce: "c = CHR ''e'' \<or> c = CHR ''E''"
    using assms Cons by (auto simp: parse_exponent_def split: if_splits)
  have "dropWhile is_digit t = []"
    using assms Cons sp ce by (auto simp: parse_exponent_def Let_def split: if_splits)
  then have "set t \<subseteq> {c. is_digit c}" using digits_chars [of t] by auto
  then show ?thesis using split_sign_chars [OF sp] ce Cons by auto
qed


lemma parse_digits_chars:
  assumes "parse_digits s = (ip, fp, s2)"
  shows "set s \<subseteq> {c. is_digit c} \<union> {CHR ''.''} \<union> set s2"
proof (cases "dropWhile is_digit s")
  case Nil
  then show ?thesis using digits_chars [of s] by auto
next
  case (Cons c cs)
  show ?thesis
  proof (cases "c = CHR ''.''")
    case True
    then have "s2 = dropWhile is_digit cs" using assms Cons by (simp add: parse_digits_def)
    then show ?thesis using digits_chars [of s] digits_chars [of cs] Cons True by auto
  next
    case False
    then have "s2 = c # cs" using assms Cons by (simp add: parse_digits_def)
    then show ?thesis using digits_chars [of s] Cons by auto
  qed
qed

lemma dg_strtod_Some:
  assumes "dg_strtod s = Some (x, rest)"
  shows "\<exists>sg r ip fp s2 e. split_sign s = (sg, r) \<and> parse_digits r = (ip, fp, s2)
           \<and> parse_exponent s2 = (e, rest) \<and> (ip \<noteq> [] \<or> fp \<noteq> [])
           \<and> x = Finite sg (digits_val (ip @ fp)) (e - int (length fp))"
  using assms unfolding dg_strtod_def Let_def
  by (simp split: prod.splits if_splits)

lemma dg_strtod_chars:
  assumes "dg_strtod s = Some (x, [])"
  shows "set s \<subseteq> {c. is_digit c} \<union> {CHR ''+'', CHR ''-'', CHR ''.'', CHR ''e'', CHR ''E''}"
proof -
  obtain sg r ip fp s2 e where sp: "split_sign s = (sg, r)"
    and pd: "parse_digits r = (ip, fp, s2)" and pe: "parse_exponent s2 = (e, [])"
    using dg_strtod_Some [OF assms] by blast
  show ?thesis
    using split_sign_chars [OF sp] parse_digits_chars [OF pd] parse_exponent_chars [OF pe]
    by blast
qed



lemma match_chars:
  assumes "case_insensitive_match s t" "drop n s = []" "n = length t"
  shows "map Py_TOLOWER s = t"
  using assms by (simp add: case_insensitive_match_def)

lemma parse_inf_or_nan_Some:
  assumes "parse_inf_or_nan s = Some (x, [])"
  shows "map Py_TOLOWER (snd (split_sign s)) = ''inf''
         \<or> map Py_TOLOWER (snd (split_sign s)) = ''infinity''
         \<or> map Py_TOLOWER (snd (split_sign s)) = ''nan''"
proof -
  obtain sg r where sp: "split_sign s = (sg, r)" by (cases "split_sign s") auto
  have "map Py_TOLOWER r = ''inf'' \<or> map Py_TOLOWER r = ''infinity'' \<or> map Py_TOLOWER r = ''nan''"
  proof (cases "case_insensitive_match r ''inf''")
    case True
    show ?thesis
    proof (cases "case_insensitive_match (drop 3 r) ''inity''")
      case False
      then have "drop 3 r = []" using assms sp True by (simp add: parse_inf_or_nan_def Let_def)
      then have "map Py_TOLOWER r = ''inf''" by (rule match_chars [OF True]) simp
      then show ?thesis by (rule disjI1)
    next
      case i: True
      then have "drop 5 (drop 3 r) = []"
        using assms sp True by (simp add: parse_inf_or_nan_def Let_def)
      then have a: "map Py_TOLOWER (drop 3 r) = ''inity''" by (rule match_chars [OF i]) simp
      have b: "map Py_TOLOWER (take 3 r) = ''inf''"
        using True by (simp add: case_insensitive_match_def numeral_3_eq_3)
      have "map Py_TOLOWER (take 3 r @ drop 3 r) = ''inf'' @ ''inity''"
        unfolding map_append a b ..
      then have "map Py_TOLOWER r = ''infinity''" by (simp only: append_take_drop_id) simp
      then show ?thesis by blast
    qed
  next
    case False
    then have n: "case_insensitive_match r ''nan''" "drop 3 r = []"
      using assms sp by (auto simp: parse_inf_or_nan_def Let_def split: if_splits)
    have "map Py_TOLOWER r = ''nan''" by (rule match_chars [OF n]) simp
    then show ?thesis by blast
  qed
  then show ?thesis unfolding sp by (simp only: snd_conv)
qed

lemma parse_inf_or_nan_chars:
  assumes "parse_inf_or_nan s = Some (x, [])"
  shows "set s \<subseteq> {c. Py_TOLOWER c \<in> set ''infinityan''} \<union> {CHR ''+'', CHR ''-''}"
proof -
  obtain sg r where sp: "split_sign s = (sg, r)" by (cases "split_sign s") auto
  have ts: "set ''inf'' \<subseteq> set ''infinityan''" "set ''infinity'' \<subseteq> set ''infinityan''"
      "set ''nan'' \<subseteq> set ''infinityan''"
    by simp_all
  have "set (map Py_TOLOWER r) \<subseteq> set ''infinityan''"
    using parse_inf_or_nan_Some [OF assms] ts unfolding sp snd_conv by metis
  then have "\<forall>c \<in> set r. Py_TOLOWER c \<in> set ''infinityan''"
    unfolding set_map by blast
  then show ?thesis using split_sign_chars [OF sp] by blast
qed


lemma py_float_error:
  "py_float v = Inl e \<Longrightarrow> e = ValueError ''could not convert string to float''"
  by (auto simp: py_float_def Let_def split: if_splits option.splits prod.splits)

lemma py_float_Inr:
  assumes "py_float v = Inr x"
  shows "\<exists>d. ascii_strtod d = Some (x, [])
           \<and> set (to_ascii v) \<subseteq> set d \<union> {CHR ''_''} \<union> {c. Py_ISSPACE c}"
proof -
  define s where "s = dropWhile Py_ISSPACE (to_ascii v)"
  define s' where "s' = rev (dropWhile Py_ISSPACE (rev s))"
  obtain d where d: "(if CHR ''_'' \<in> set s' then remove_underscores (CHR 0x00) s' else Some s') = Some d"
    and p: "ascii_strtod d = Some (x, [])"
    using assms unfolding py_float_def Let_def s_def [symmetric] s'_def [symmetric]
    by (auto split: if_splits option.splits prod.splits)
  have "set s' \<subseteq> set d \<union> {CHR ''_''}"
    using d remove_underscores_chars [of "CHR 0x00" s' d] by (auto split: if_splits)
  moreover have "set s \<subseteq> set s' \<union> {c. Py_ISSPACE c}"
    using set_dropWhile_sub [of "rev s" Py_ISSPACE] by (simp add: s'_def)
  moreover have "set (to_ascii v) \<subseteq> set s \<union> {c. Py_ISSPACE c}"
    unfolding s_def by (rule set_dropWhile_sub)
  ultimately show ?thesis using p by blast
qed

lemma ascii_strtod_chars:
  assumes "ascii_strtod d = Some (x, [])"
  shows "\<forall>c \<in> set d. float_char c \<and> c \<noteq> CHR ''?''"
proof -
  have q: "\<not> is_digit (CHR ''?'')" "Py_TOLOWER (CHR ''?'') \<notin> set ''infinityan''"
    by (simp_all add: is_digit_def Py_TOLOWER_def)
  consider "dg_strtod d = Some (x, [])" | "parse_inf_or_nan d = Some (x, [])"
    using assms by (auto simp: ascii_strtod_def split: option.splits)
  then show ?thesis
  proof cases
    case 1
    show ?thesis using dg_strtod_chars [OF 1] q by (auto simp: float_char_def)
  next
    case 2
    show ?thesis using parse_inf_or_nan_chars [OF 2] q by (auto simp: float_char_def)
  qed
qed

lemma py_float_chars:
  assumes "py_float v = Inr x"
  shows "\<forall>c \<in> set v. float_char c"
proof -
  obtain d where p: "ascii_strtod d = Some (x, [])"
    and a: "set (to_ascii v) \<subseteq> set d \<union> {CHR ''_''} \<union> {c. Py_ISSPACE c}"
    using py_float_Inr [OF assms] by blast
  note dc = ascii_strtod_chars [OF p]
  have sq: "\<not> Py_ISSPACE (CHR ''?'')" by (simp add: Py_ISSPACE_def)
  have ac: "\<forall>c \<in> set (to_ascii v). float_char c \<and> c \<noteq> CHR ''?''"
  proof
    fix c assume "c \<in> set (to_ascii v)"
    then have "c \<in> set d \<or> c = CHR ''_'' \<or> Py_ISSPACE c" using a by blast
    then show "float_char c \<and> c \<noteq> CHR ''?''"
      using dc sq Py_ISSPACE_space [of c] by (auto simp: float_char_def)
  qed
  then have "CHR ''?'' \<notin> set (to_ascii v)" by blast
  then show ?thesis using to_ascii_chars [of v] ac by (auto simp: float_char_def)
qed


text \<open>
  C9, for the parser of \<open>astype("float")\<close>: in the conversion to a table every value cell,
  that is the text of every \<open>ParameterValue\<close> element that does not consist of white space
  only, is converted by \<open>float\<close>, in document order and with no cell left out: the values of
  a returned table are the results of \<open>float\<close> on the value cells. If \<open>float\<close> rejects a value
  cell the conversion raises an exception, and when the stages before it succeed (every
  element has a text, there are as many time cells as value cells, the timestamps parse)
  that exception is the \<open>ValueError\<close> of \<open>float\<close>. \<open>float\<close> rejects in particular every text
  with a character that is not a digit, a sign, a point, \<open>e\<close>, \<open>E\<close>, an underscore, white
  space or a letter of \<open>infinity\<close> or \<open>nan\<close>. An element whose text is white space only is
  left out by the extraction and never converted.
\<close>

theorem value_cells_parsed:
  "(tree_to_df to_dt py_float tree = Inr rows \<longrightarrow>
      map py_float (value_cells tree) = map (\<lambda>r. Inr (snd r)) rows)
   \<and> (v \<in> set (value_cells tree) \<and> py_float v = Inl e \<longrightarrow>
      (\<exists>e'. tree_to_df to_dt py_float tree = Inl e'))
   \<and> (v \<in> set (value_cells tree) \<and> py_float v = Inl e
        \<and> (\<forall>el \<in> set (iter tree). el_text el \<noteq> None)
        \<and> length (time_cells tree) = length (value_cells tree)
        \<and> convert_column to_dt (time_cells tree) = Inr ds \<longrightarrow>
      tree_to_df to_dt py_float tree = Inl (ValueError ''could not convert string to float''))
   \<and> (v \<in> set (value_cells tree) \<and> c \<in> set v \<and> \<not> float_char c \<longrightarrow>
      py_float v = Inl (ValueError ''could not convert string to float'')
      \<and> (\<exists>e'. tree_to_df to_dt py_float tree = Inl e'))"
proof -
  have fails: "\<exists>e'. tree_to_df to_dt py_float tree = Inl e'"
    if a: "v \<in> set (value_cells tree)" "py_float v = Inl e" for v e
  proof (cases "tree_to_df to_dt py_float tree")
    case (Inl e')
    then show ?thesis by blast
  next
    case (Inr rows')
    then have "convert_column py_float (value_cells tree) = Inr (map snd rows')"
      using tree_to_df_Inr by blast
    then show ?thesis using convert_column_fails [of v "value_cells tree" py_float e] a by auto
  qed
  have A: "map py_float (value_cells tree) = map (\<lambda>r. Inr (snd r)) rows"
    if "tree_to_df to_dt py_float tree = Inr rows"
  proof -
    have "convert_column py_float (value_cells tree) = Inr (map snd rows)"
      using that tree_to_df_Inr by blast
    then show ?thesis
      using convert_column_Inr [of py_float "value_cells tree" "map snd rows"]
      by (simp add: comp_def)
  qed
  have C: "tree_to_df to_dt py_float tree = Inl (ValueError ''could not convert string to float'')"
    if a: "v \<in> set (value_cells tree) \<and> py_float v = Inl e
        \<and> (\<forall>el \<in> set (iter tree). el_text el \<noteq> None)
        \<and> length (time_cells tree) = length (value_cells tree)
        \<and> convert_column to_dt (time_cells tree) = Inr ds"
  proof -
    obtain r where "collect (iter tree) [] [] = Inr r"
      using collect_ok [of "iter tree" "[]" "[]"] a by blast
    then obtain tms vals where c: "collect (iter tree) [] [] = Inr (tms, vals)"
      by (cases r) auto
    note ct = collect_tree [OF c]
    obtain e' where f: "convert_column py_float (value_cells tree) = Inl e'"
      using convert_column_fails [of v "value_cells tree" py_float e] a by blast
    obtain v' where "py_float v' = Inl e'" using convert_column_Inl [OF f] by blast
    then have "e' = ValueError ''could not convert string to float''" by (rule py_float_error)
    then show ?thesis using c ct a f by (simp add: tree_to_df_def)
  qed
  have D: "py_float v = Inl (ValueError ''could not convert string to float'')
      \<and> (\<exists>e'. tree_to_df to_dt py_float tree = Inl e')"
    if a: "v \<in> set (value_cells tree) \<and> c \<in> set v \<and> \<not> float_char c"
  proof -
    obtain e0 where e0: "py_float v = Inl e0"
      using py_float_chars [of v] a by (cases "py_float v") auto
    then show ?thesis using py_float_error [OF e0] fails [of v e0] a by simp
  qed
  show ?thesis using A fails C D by blast
qed


theorem value_cells_parsed_witness:
  "tree_to_df example_datetime py_float
      (example_document [example_row ''2022-08-01T00:00:00Z'' ''12.5'',
                         example_row ''2022-08-01T01:00:00Z'' ''-3'',
                         example_row ''2022-08-01T02:00:00Z'' ''NaN''])
     = Inr [(''2022-08-01T00:00:00Z'', Finite False 125 (- 1)),
            (''2022-08-01T01:00:00Z'', Finite True 3 0),
            (''2022-08-01T02:00:00Z'', NaN False)]
   \<and> map py_float (value_cells
      (example_document [example_row ''2022-08-01T00:00:00Z'' ''12.5'',
                         example_row ''2022-08-01T01:00:00Z'' ''-3'',
                         example_row ''2022-08-01T02:00:00Z'' ''NaN'']))
     = [Inr (Finite False 125 (- 1)), Inr (Finite True 3 0), Inr (NaN False)]
   \<and> ''abc'' \<in> set (value_cells
      (example_document [example_row ''2022-08-01T00:00:00Z'' ''12.5'',
                         example_row ''2022-08-01T01:00:00Z'' ''abc'']))
   \<and> CHR ''b'' \<in> set ''abc'' \<and> \<not> float_char (CHR ''b'')
   \<and> py_float ''abc'' = Inl (ValueError ''could not convert string to float'')
   \<and> tree_to_df example_datetime py_float
      (example_document [example_row ''2022-08-01T00:00:00Z'' ''12.5'',
                         example_row ''2022-08-01T01:00:00Z'' ''abc''])
     = Inl (ValueError ''could not convert string to float'')
   \<and> ''1.2.3'' \<in> set (value_cells
      (example_document [example_row ''2022-08-01T00:00:00Z'' ''1.2.3'']))
   \<and> py_float ''1.2.3'' = Inl (ValueError ''could not convert string to float'')
   \<and> tree_to_df example_datetime py_float
      (example_document [example_row ''2022-08-01T00:00:00Z'' ''1.2.3''])
     = Inl (ValueError ''could not convert string to float'')"
proof -
  let ?good = "example_document [example_row ''2022-08-01T00:00:00Z'' ''12.5'',
                         example_row ''2022-08-01T01:00:00Z'' ''-3'',
                         example_row ''2022-08-01T02:00:00Z'' ''NaN'']"
  let ?bad = "example_document [example_row ''2022-08-01T00:00:00Z'' ''12.5'',
                         example_row ''2022-08-01T01:00:00Z'' ''abc'']"
  let ?bad2 = "example_document [example_row ''2022-08-01T00:00:00Z'' ''1.2.3'']"
  let ?rows = "[(''2022-08-01T00:00:00Z'', Finite False 125 (- 1)),
            (''2022-08-01T01:00:00Z'', Finite True 3 0),
            (''2022-08-01T02:00:00Z'', NaN False)]"
  let ?err = "ValueError ''could not convert string to float''"
  have g: "tree_to_df example_datetime py_float ?good = Inr ?rows"
    by code_simp
  have b: "''abc'' \<in> set (value_cells ?bad)" "CHR ''b'' \<in> set ''abc''" "\<not> float_char (CHR ''b'')"
      "''1.2.3'' \<in> set (value_cells ?bad2)" "py_float ''1.2.3'' = Inl ?err"
    by code_simp+
  have p: "\<forall>el \<in> set (iter ?bad). el_text el \<noteq> None"
      "length (time_cells ?bad) = length (value_cells ?bad)"
      "convert_column example_datetime (time_cells ?bad)
         = Inr [''2022-08-01T00:00:00Z'', ''2022-08-01T01:00:00Z'']"
      "\<forall>el \<in> set (iter ?bad2). el_text el \<noteq> None"
      "length (time_cells ?bad2) = length (value_cells ?bad2)"
      "convert_column example_datetime (time_cells ?bad2) = Inr [''2022-08-01T00:00:00Z'']"
    by code_simp+
  note w1 = value_cells_parsed [where to_dt = example_datetime and tree = ?good and rows = ?rows,
      THEN conjunct1, rule_format, OF g]
  note w2 = value_cells_parsed [where to_dt = example_datetime and tree = ?bad
      and v = "''abc''" and c = "CHR ''b''",
      THEN conjunct2, THEN conjunct2, THEN conjunct2, rule_format, OF conjI [OF b(1) conjI [OF b(2,3)]],
      THEN conjunct1]
  note w3 = value_cells_parsed [where to_dt = example_datetime and tree = ?bad
      and v = "''abc''" and e = ?err and ds = "[''2022-08-01T00:00:00Z'', ''2022-08-01T01:00:00Z'']",
      THEN conjunct2, THEN conjunct2, THEN conjunct1, rule_format,
      OF conjI [OF b(1) conjI [OF w2 conjI [OF p(1) conjI [OF p(2,3)]]]]]
  note w4 = value_cells_parsed [where to_dt = example_datetime and tree = ?bad2
      and v = "''1.2.3''" and e = ?err and ds = "[''2022-08-01T00:00:00Z'']",
      THEN conjunct2, THEN conjunct2, THEN conjunct1, rule_format,
      OF conjI [OF b(4) conjI [OF b(5) conjI [OF p(4) conjI [OF p(5,6)]]]]]
  have w1': "map py_float (value_cells ?good)
     = [Inr (Finite False 125 (- 1)), Inr (Finite True 3 0), Inr (NaN False)]"
    using w1 by simp
  show ?thesis
    by (intro conjI) (rule g w1' b w2 w3 w4)+
qed

text \<open>
  A value element whose text is a blank is left out although \<open>float\<close> rejects a blank: with
  the blank time cell beside it left out as well, the table is returned one row short and
  nothing is raised.
\<close>

theorem blank_value_skipped_counterexample:
  "Element value_tag (Some '' '') []
     \<in> set (iter (example_document [example_row ''2022-08-01T00:00:00Z'' ''12'',
                                    example_row '' '' '' '']))
   \<and> py_float '' '' = Inl (ValueError ''could not convert string to float'')
   \<and> tree_to_df example_datetime py_float
        (example_document [example_row ''2022-08-01T00:00:00Z'' ''12'', example_row '' '' '' ''])
       = Inr [(''2022-08-01T00:00:00Z'', Finite False 12 0)]"
  by code_simp

section \<open>The inferred range\<close>

lemma replace_second_microsecond_Inr:
  assumes "replace_second_microsecond dt s us = Inr r"
  shows "valid_datetime r \<and> r = mk_datetime (year dt) (month dt) (day dt) (hour dt) (minute dt) s us"
  using assms by (simp add: replace_second_microsecond_def new_datetime_Inr)

lemma strptime_ymd_valid: "strptime_ymd s = Inr dt \<Longrightarrow> valid_datetime dt"
  unfolding strptime_ymd_def Let_def
  by (auto simp: new_datetime_Inr split: option.splits list.splits if_splits prod.splits)

lemma valid_date_of: "valid_datetime dt \<Longrightarrow> valid_date (date_of dt)"
  by (simp add: valid_datetime_def valid_date_def date_of_def)

lemma date_of_arg_valid:
  assumes "date_of_arg a = Inr d" "valid_date_arg (Some a)"
  shows "valid_date d"
  using assms
  by (auto simp: date_of_arg_def valid_date_arg_def split: date_arg.splits sum.splits
           dest: strptime_ymd_valid valid_date_of)

lemma combine_time_min_valid: "valid_date d \<Longrightarrow> valid_datetime (combine d time_min)"
  by (simp add: valid_datetime_def valid_date_def combine_def time_min_def mk_datetime_def
        check_time_fields_def)

lemma start_of_arg_Some:
  assumes "start_of_arg a = Inr (Some s0)" "valid_date_arg a"
  shows "valid_datetime s0 \<and> truthy_date a"
  using assms
  by (auto simp: start_of_arg_def split: option.splits sum.splits if_splits
           dest!: date_of_arg_valid combine_time_min_valid)

lemma end_of_arg_Some:
  assumes "end_of_arg a = Inr (Some e0)"
  shows "valid_datetime e0 \<and> truthy_date a"
  using assms
  by (auto simp: end_of_arg_def split: option.splits sum.splits if_splits
           dest: replace_second_microsecond_Inr)

lemma start_of_arg_supplied:
  assumes "truthy_date a" "start_of_arg a = Inr x"
  shows "\<exists>s0. x = Some s0"
  using assms
  by (auto simp: start_of_arg_def truthy_date_def split: option.splits sum.splits if_splits)

lemma end_of_arg_supplied:
  assumes "truthy_date a" "end_of_arg a = Inr x"
  shows "\<exists>e0. x = Some e0"
  using assms
  by (auto simp: end_of_arg_def truthy_date_def split: option.splits sum.splits if_splits)

lemma timedelta_hours_total:
  "timedelta_hours h = Inr td \<Longrightarrow> total_microseconds td = h * 3600000000"
  using new_timedelta_Inr [of 0 "h * 3600" 0 td] by (simp add: timedelta_hours_def)

lemma timedelta_neg_total:
  "timedelta_neg td = Inr ntd \<Longrightarrow> total_microseconds ntd = - total_microseconds td"
  using new_timedelta_Inr [of "- days td" "- seconds td" "- microseconds td" ntd]
  by (simp add: timedelta_neg_def total_microseconds_def algebra_simps)

lemma datetime_sub_Inr:
  assumes "valid_datetime dt" "datetime_sub dt td = Inr r"
  shows "valid_datetime r \<and> dt_us r = dt_us dt - total_microseconds td"
proof -
  obtain ntd where n: "timedelta_neg td = Inr ntd" and a: "datetime_add dt ntd = Inr r"
    using assms(2) by (auto simp: datetime_sub_def split: sum.splits)
  show ?thesis
    using datetime_add_Inr [OF assms(1) a] timedelta_neg_total [OF n] by simp
qed

lemma py_min_us:
  assumes "valid_datetime a" "valid_datetime b"
  shows "valid_datetime (py_min a b) \<and> dt_us (py_min a b) = min (dt_us a) (dt_us b)"
  using assms dt_less_iff [OF assms(2,1)] by (auto simp: py_min_def)

lemma py_min_le: "dt_le (py_min a b) a"
  by (auto simp: py_min_def dt_le_def dt_less_def)





lemma new_2018_valid:
  "new_datetime 2018 1 1 0 0 0 0 = Inr (mk_datetime 2018 1 1 0 0 0 0)
   \<and> valid_datetime (mk_datetime 2018 1 1 0 0 0 0)"
  by (simp add: new_datetime_Inr valid_mk days_in_month_def DAYS_IN_MONTH_def)

lemma limits_unfold:
  assumes now: "replace_second_microsecond clock 0 0 = Inr now"
    and s: "start_of_arg start_date = Inr s" and e: "end_of_arg end_date = Inr e"
    and vc: "valid_combination hours start_date end_date"
  shows "get_datetime_limits clock start_date end_date hours =
     (case (s, e) of
        (None, None) \<Rightarrow>
          (case timedelta_of_hours hours of Inl x \<Rightarrow> Inl x | Inr td \<Rightarrow>
           (case datetime_sub now td of Inl x \<Rightarrow> Inl x | Inr start \<Rightarrow>
              Inr (start, py_min now now)))
      | (None, Some e0) \<Rightarrow>
          if truthy_int hours then
            (case timedelta_of_hours hours of Inl x \<Rightarrow> Inl x | Inr td \<Rightarrow>
             (case datetime_sub e0 td of Inl x \<Rightarrow> Inl x | Inr start \<Rightarrow>
                Inr (start, py_min now e0)))
          else Inr (mk_datetime 2018 1 1 0 0 0 0, py_min now e0)
      | (Some s0, None) \<Rightarrow>
          if truthy_int hours then
            (case timedelta_of_hours hours of Inl x \<Rightarrow> Inl x | Inr td \<Rightarrow>
             (case datetime_add s0 td of Inl x \<Rightarrow> Inl x | Inr E \<Rightarrow>
                Inr (s0, py_min now E)))
          else Inr (s0, py_min now now)
      | (Some s0, Some e0) \<Rightarrow> Inr (s0, py_min now e0))"
proof -
  have ts: "truthy_date start_date = (s \<noteq> None)"
    using s start_of_arg_supplied [OF _ s] start_of_arg_unsupplied [of start_date] by auto
  have te: "truthy_date end_date = (e \<noteq> None)"
    using e end_of_arg_supplied [OF _ e] end_of_arg_unsupplied [of end_date] by auto
  have c: "truthy_int hours \<or> s \<noteq> None \<or> e \<noteq> None"
      "\<not> (truthy_int hours \<and> s \<noteq> None \<and> e \<noteq> None)"
    using vc unfolding valid_combination_def ts te by blast+
  show ?thesis
    unfolding get_datetime_limits_def s e ts te now
    using c new_2018_valid by (cases s; cases e) simp_all
qed

lemma limits_facts:
  assumes now: "replace_second_microsecond clock 0 0 = Inr now"
    and vs: "valid_date_arg start_date"
    and res: "get_datetime_limits clock start_date end_date hours = Inr (start, en)"
  shows "\<exists>s e E. start_of_arg start_date = Inr s \<and> end_of_arg end_date = Inr e
           \<and> valid_combination hours start_date end_date
           \<and> valid_datetime start \<and> valid_datetime E \<and> en = py_min now E
           \<and> (e \<noteq> None \<longrightarrow> e = Some E)
           \<and> (s \<noteq> None \<longrightarrow> s = Some start)
           \<and> (s = None \<and> e = None \<longrightarrow>
                E = now \<and> (\<exists>h. hours = Some h \<and> h \<noteq> 0
                              \<and> dt_us start = dt_us now - h * 3600000000))
           \<and> (s \<noteq> None \<and> e = None \<longrightarrow>
                (truthy_int hours \<longrightarrow>
                   (\<exists>h. hours = Some h \<and> dt_us E = dt_us start + h * 3600000000))
                \<and> (\<not> truthy_int hours \<longrightarrow> E = now))
           \<and> (s = None \<and> e \<noteq> None \<and> \<not> truthy_int hours \<longrightarrow>
                start = mk_datetime 2018 1 1 0 0 0 0)"
proof -
  obtain s e where s: "start_of_arg start_date = Inr s" and e: "end_of_arg end_date = Inr e"
    using res by (auto simp: get_datetime_limits_def split: sum.splits)
  have vc: "valid_combination hours start_date end_date"
    using res s e by (auto simp: get_datetime_limits_def valid_combination_def split: if_splits)
  have vn: "valid_datetime now" using replace_second_microsecond_Inr [OF now] by blast
  note unf = res [unfolded limits_unfold [OF now s e vc]]
  have hs: "truthy_int hours \<Longrightarrow> \<exists>h. hours = Some h \<and> h \<noteq> 0"
    by (auto simp: truthy_int_def split: option.splits)
  show ?thesis
  proof (cases s)
    case sN: None
    show ?thesis
    proof (cases e)
      case eN: None
      have "truthy_int hours"
        using vc s e sN eN start_of_arg_supplied [OF _ s] end_of_arg_supplied [OF _ e]
        by (auto simp: valid_combination_def)
      then obtain h where h: "hours = Some h" "h \<noteq> 0" using hs by blast
      obtain td where td: "timedelta_hours h = Inr td" and su: "datetime_sub now td = Inr start"
        and en: "en = py_min now now"
        using unf unfolding sN eN h timedelta_of_hours_def
        by (auto split: sum.splits)
      have "valid_datetime start" "dt_us start = dt_us now - h * 3600000000"
        using datetime_sub_Inr [OF vn su] timedelta_hours_total [OF td] by simp_all
      then show ?thesis
        using s e vc sN eN h vn en by (intro exI [of _ s] exI [of _ e] exI [of _ now]) simp
    next
      case eS: (Some e0)
      have ve0: "valid_datetime e0" using end_of_arg_Some e eS by blast
      show ?thesis
      proof (cases "truthy_int hours")
        case True
        then obtain h where h: "hours = Some h" using hs by blast
        obtain td where td: "timedelta_hours h = Inr td" and su: "datetime_sub e0 td = Inr start"
          and en: "en = py_min now e0"
          using unf True unfolding sN eS h timedelta_of_hours_def
          by (auto split: sum.splits)
        have "valid_datetime start" using datetime_sub_Inr [OF ve0 su] by simp
        then show ?thesis
          using s e vc sN eS True ve0 en
          by (intro exI [of _ s] exI [of _ e] exI [of _ e0]) simp
      next
        case False
        have "start = mk_datetime 2018 1 1 0 0 0 0" "en = py_min now e0"
          using unf False unfolding sN eS by simp_all
        then show ?thesis
          using s e vc sN eS False ve0 new_2018_valid
          by (intro exI [of _ s] exI [of _ e] exI [of _ e0]) simp
      qed
    qed
  next
    case sS: (Some s0)
    have vs0: "valid_datetime s0" using start_of_arg_Some s sS vs by blast
    show ?thesis
    proof (cases e)
      case eN: None
      show ?thesis
      proof (cases "truthy_int hours")
        case True
        then obtain h where h: "hours = Some h" using hs by blast
        have "\<exists>td E. timedelta_hours h = Inr td \<and> datetime_add s0 td = Inr E
                \<and> s0 = start \<and> py_min now E = en"
          using unf True unfolding sS eN h timedelta_of_hours_def
          by (simp split: sum.splits)
        then obtain td E where td: "timedelta_hours h = Inr td"
          and ad: "datetime_add s0 td = Inr E"
          and st: "start = s0" and en: "en = py_min now E"
          by blast
        have "valid_datetime E" "dt_us E = dt_us s0 + h * 3600000000"
          using datetime_add_Inr [OF vs0 ad] timedelta_hours_total [OF td] by simp_all
        then show ?thesis
          using s e vc True h vs0 unfolding sS eN st en
          by (intro exI [of _ "Some s0"] exI [of _ None] exI [of _ E]) simp
      next
        case False
        have "start = s0" "en = py_min now now"
          using unf False unfolding sS eN by simp_all
        then show ?thesis
          using s e vc False vs0 vn unfolding sS eN
          by (intro exI [of _ "Some s0"] exI [of _ None] exI [of _ now]) simp
      qed
    next
      case eS: (Some e0)
      have ve0: "valid_datetime e0" using end_of_arg_Some e eS by blast
      have "start = s0" "en = py_min now e0"
        using unf unfolding sS eS by simp_all
      then show ?thesis
        using s e vc vs0 ve0 unfolding sS eS
        by (intro exI [of _ "Some s0"] exI [of _ "Some e0"] exI [of _ e0]) simp
    qed
  qed
qed







section \<open>The chunked fetch\<close>

lemma chunk_inv_next_month: "chunk_inv start en \<Longrightarrow> has_next_month start"
  by (auto simp: chunk_inv_def has_next_month_def valid_datetime_iff)

lemma chunk_inv_last_hour:
  assumes "chunk_inv start en"
  shows "month_last_h start = Inr (last_hour_of_month start)"
    and "valid_datetime (last_hour_of_month start)"
proof -
  have v: "1 \<le> year start" "year start \<le> 9999" "1 \<le> month start" "month start \<le> 12"
      "0 \<le> hour start" "hour start \<le> 23" "0 \<le> minute start" "minute start \<le> 59"
      "0 \<le> second start" "second start \<le> 59" "0 \<le> microsecond start"
      "microsecond start \<le> 999999"
    using assms by (simp_all add: chunk_inv_def valid_datetime_iff)
  have nd: "\<not> (year start = 9999 \<and> month start = 12)"
    using assms by (auto simp: chunk_inv_def)
  show "month_last_h start = Inr (last_hour_of_month start)"
    unfolding last_hour_of_month_def by (rule month_last_h_ok [OF v nd])
  show "valid_datetime (last_hour_of_month start)"
    unfolding last_hour_of_month_def valid_mk
    using v days_in_month_bounds [OF v(3,4), of "year start"] by simp
qed

lemma dt_less_year: "\<not> dt_less b a \<Longrightarrow> year a \<le> year b"
  by (auto simp: dt_less_def dt_key_def)

lemma chunk_inv_step:
  assumes inv: "chunk_inv start en" and nf: "\<not> dt_less en (last_hour_of_month start)"
  shows "datetime_add (last_hour_of_month start) \<lparr>days = 0, seconds = 3600, microseconds = 0\<rparr>
           = Inr (first_hour_of_next_month start)"
    and "chunk_inv (first_hour_of_next_month start) en"
proof -
  have v: "1 \<le> year start" "year start \<le> 9999" "1 \<le> month start" "month start \<le> 12"
    using inv by (simp_all add: chunk_inv_def valid_datetime_iff)
  have nd: "\<not> (year start = 9999 \<and> month start = 12)"
    using inv by (auto simp: chunk_inv_def)
  obtain y' m' where nx: "next_ym (year start) (month start) = (y', m')"
    by (cases "next_ym (year start) (month start)") auto
  have f: "first_hour_of_next_month start = mk_datetime y' m' 1 0 0 0 0"
    by (simp add: first_hour_of_next_month_def nx)
  show "datetime_add (last_hour_of_month start) \<lparr>days = 0, seconds = 3600, microseconds = 0\<rparr>
           = Inr (first_hour_of_next_month start)"
    unfolding f last_hour_of_month_def by (rule last_hour_then_next_month [OF v nd nx])
  have "year (last_hour_of_month start) \<le> year en" by (rule dt_less_year [OF nf])
  then have y8: "year start \<le> 9998"
    using inv by (simp add: last_hour_of_month_def mk_datetime_def chunk_inv_def)
  note nb = next_ym_bounds [OF v(3,4) nx]
  have "y' \<le> 9998 \<or> m' = 1" using nx y8 by (auto simp: next_ym_def split: if_splits)
  moreover have "valid_datetime (mk_datetime y' m' 1 0 0 0 0)"
    unfolding valid_mk using v nb y8 days_in_month_bounds [of m' y'] by auto
  ultimately show "chunk_inv (first_hour_of_next_month start) en"
    using inv unfolding f by (simp add: chunk_inv_def mk_datetime_def)
qed

lemma chunk_inv_end_plus_hour:
  assumes "chunk_inv start en"
  shows "\<exists>r. datetime_add en \<lparr>days = 0, seconds = 3600, microseconds = 0\<rparr> = Inr r"
proof -
  have v: "valid_datetime en" "year en \<le> 9998" using assms by (simp_all add: chunk_inv_def)
  have b: "1 \<le> month en" "month en \<le> 12" "1 \<le> day en"
      "day en \<le> days_in_month (year en) (month en)"
    using v(1) by (simp_all add: valid_datetime_iff)
  have "days_before_year (year en + 1) \<le> days_before_year 9999"
    by (rule days_before_year_mono) (use v(2) in simp)
  then have "toordinal en \<le> 3651694"
    using ymd2ord_in_year [OF b] by (simp add: toordinal_def days_before_year_def)
  then have hi: "dt_us en + 3600000000 < 3652060 * 86400000000"
    using tod_us_bounds [OF v(1)] by (simp add: dt_us_def)
  have lo: "86400000000 \<le> dt_us en + 3600000000"
    using dt_us_range [OF v(1)] by simp
  show ?thesis
    using datetime_add_ok [OF v(1), of "\<lparr>days = 0, seconds = 3600, microseconds = 0\<rparr>"] lo hi
    by (simp add: total_microseconds_def)
qed

lemma obs_loop_chunks:
  assumes "chunk_inv start en"
  shows "obs_loop L queryid ps start en st df =
           (case load_chunks L queryid ps st (monthly_chunks start en) of
              (Inl x, st') \<Rightarrow> (Inl x, st')
            | (Inr tbls, st') \<Rightarrow> (Inr (df @ concat tbls), st'))"
  using assms
proof (induction start en arbitrary: ps st df rule: monthly_chunks.induct)
  case (1 start en)
  let ?lh = "last_hour_of_month start"
  note hn = chunk_inv_next_month [OF "1.prems"]
  note lh = chunk_inv_last_hour(1) [OF "1.prems"]
  show ?case
  proof (cases "dt_less en ?lh")
    case True
    have mc: "monthly_chunks start en = [(start, en)]"
      using True by (subst monthly_chunks.simps) simp
    obtain r where r: "datetime_add en \<lparr>days = 0, seconds = 3600, microseconds = 0\<rparr> = Inr r"
      using chunk_inv_end_plus_hour [OF "1.prems"] by blast
    show ?thesis
      unfolding mc obs_loop_rec [of L queryid ps start] lh
      using True r by (simp split: prod.splits sum.splits)
  next
    case False
    let ?next = "first_hour_of_next_month start"
    have mc: "monthly_chunks start en = (start, ?lh) # monthly_chunks ?next en"
      using False hn by (subst monthly_chunks.simps) simp
    note st = chunk_inv_step [OF "1.prems" False]
    have IH: "obs_loop L queryid ps' ?next en st' df' =
           (case load_chunks L queryid ps' st' (monthly_chunks ?next en) of
              (Inl x, st'') \<Rightarrow> (Inl x, st'')
            | (Inr tbls, st'') \<Rightarrow> (Inr (df' @ concat tbls), st''))" for ps' st' df'
      by (rule "1.IH") (use hn False st(2) in simp_all)
    show ?thesis
      unfolding mc obs_loop_rec [of L queryid ps start] lh
      using False st(1) by (simp add: IH split: prod.splits sum.splits)
  qed
qed


lemma monthly_chunks_final:
  "dt_less en (last_hour_of_month start) \<Longrightarrow> monthly_chunks start en = [(start, en)]"
  by (subst monthly_chunks.simps) simp

lemma monthly_chunks_more:
  "chunk_inv start en \<Longrightarrow> \<not> dt_less en (last_hour_of_month start) \<Longrightarrow>
     monthly_chunks start en
       = (start, last_hour_of_month start) # monthly_chunks (first_hour_of_next_month start) en"
  using chunk_inv_next_month [of start en] by (subst monthly_chunks.simps) simp

lemma monthly_chunks_ends:
  assumes "chunk_inv start en"
  shows "monthly_chunks start en \<noteq> [] \<and> fst (hd (monthly_chunks start en)) = start
         \<and> snd (last (monthly_chunks start en)) = en
         \<and> dt_less en (last_hour_of_month (fst (last (monthly_chunks start en))))"
  using assms
proof (induction start en rule: monthly_chunks.induct)
  case (1 start en)
  show ?case
  proof (cases "dt_less en (last_hour_of_month start)")
    case True
    then show ?thesis by (simp add: monthly_chunks_final)
  next
    case False
    note m = monthly_chunks_more [OF "1.prems" False]
    have "monthly_chunks (first_hour_of_next_month start) en \<noteq> []
         \<and> fst (hd (monthly_chunks (first_hour_of_next_month start) en))
             = first_hour_of_next_month start
         \<and> snd (last (monthly_chunks (first_hour_of_next_month start) en)) = en
         \<and> dt_less en (last_hour_of_month
               (fst (last (monthly_chunks (first_hour_of_next_month start) en))))"
      by (rule "1.IH")
         (use False chunk_inv_next_month [OF "1.prems"] chunk_inv_step(2) [OF "1.prems" False]
           in simp_all)
    then show ?thesis unfolding m by simp
  qed
qed

lemma monthly_chunks_boundaries:
  assumes "chunk_inv start en" and "Suc i < length (monthly_chunks start en)"
  shows "snd (monthly_chunks start en ! i) = last_hour_of_month (fst (monthly_chunks start en ! i))
         \<and> month_last_h (fst (monthly_chunks start en ! i)) = Inr (snd (monthly_chunks start en ! i))
         \<and> plus_hours (snd (monthly_chunks start en ! i)) 1
             = Inr (fst (monthly_chunks start en ! Suc i))
         \<and> \<not> dt_less en (snd (monthly_chunks start en ! i))"
  using assms
proof (induction start en arbitrary: i rule: monthly_chunks.induct)
  case (1 start en)
  show ?case
  proof (cases "dt_less en (last_hour_of_month start)")
    case True
    then show ?thesis using "1.prems"(2) by (simp add: monthly_chunks_final)
  next
    case False
    let ?next = "first_hour_of_next_month start"
    note m = monthly_chunks_more [OF "1.prems"(1) False]
    note st = chunk_inv_step [OF "1.prems"(1) False]
    note e = monthly_chunks_ends [OF st(2)]
    show ?thesis
    proof (cases i)
      case 0
      have "monthly_chunks ?next en ! 0 = hd (monthly_chunks ?next en)"
        using e by (simp add: hd_conv_nth)
      then have "fst (monthly_chunks start en ! Suc 0) = ?next"
        unfolding m using e by simp
      then show ?thesis
        unfolding 0 using False st(1) chunk_inv_last_hour(1) [OF "1.prems"(1)]
        by (simp add: m plus_hours_def timedelta_hours_1)
    next
      case (Suc j)
      have "Suc j < length (monthly_chunks ?next en)"
        using "1.prems"(2) unfolding m Suc by simp
      then have "snd (monthly_chunks ?next en ! j)
             = last_hour_of_month (fst (monthly_chunks ?next en ! j))
         \<and> month_last_h (fst (monthly_chunks ?next en ! j)) = Inr (snd (monthly_chunks ?next en ! j))
         \<and> plus_hours (snd (monthly_chunks ?next en ! j)) 1
             = Inr (fst (monthly_chunks ?next en ! Suc j))
         \<and> \<not> dt_less en (snd (monthly_chunks ?next en ! j))"
        by (intro "1.IH")
           (use False chunk_inv_next_month [OF "1.prems"(1)] st(2) in simp_all)
      then show ?thesis unfolding m Suc nth_Cons_Suc .
    qed
  qed
qed

lemma chunk_query_upd:
  "chunk_query queryid (ps(''starttime'' \<mapsto> a, ''endtime'' \<mapsto> b)) c = chunk_query queryid ps c"
  by (simp add: chunk_query_def)

lemma load_chunks_sent:
  assumes "load_chunks L queryid ps st cs = (r, st')"
  shows "\<exists>k \<le> length cs. snd st' = snd st @ map (chunk_query queryid ps) (take k cs)
           \<and> (\<forall>tbls. r = Inr tbls \<longrightarrow> k = length cs \<and> length tbls = length cs)"
  using assms
proof (induction cs arbitrary: ps st r st')
  case Nil
  then show ?case by auto
next
  case (Cons c cs)
  obtain lr ps1 st1 where lo: "load_obs L queryid ps st (fst c) (snd c) = (lr, ps1, st1)"
    by (cases "load_obs L queryid ps st (fst c) (snd c)") auto
  note ls = load_obs_sent [OF lo]
  have one: "snd st1 = snd st @ [chunk_query queryid ps c]"
    using ls by (simp add: chunk_query_def)
  show ?case
  proof (cases lr)
    case (Inl x)
    then have "r = Inl x" "st' = st1" using Cons.prems lo by simp_all
    then show ?thesis using one by (intro exI [of _ 1]) simp
  next
    case (Inr tbl)
    obtain r2 st2 where rec: "load_chunks L queryid ps1 st1 cs = (r2, st2)"
      by (cases "load_chunks L queryid ps1 st1 cs") auto
    obtain k where k: "k \<le> length cs"
        "snd st2 = snd st1 @ map (chunk_query queryid ps1) (take k cs)"
        "\<forall>tbls. r2 = Inr tbls \<longrightarrow> k = length cs \<and> length tbls = length cs"
      using Cons.IH [OF rec] by blast
    have q: "chunk_query queryid ps1 = chunk_query queryid ps"
      using ls chunk_query_upd [of queryid ps] by auto
    have r: "st' = st2" "r = (case r2 of Inl x \<Rightarrow> Inl x | Inr tbls \<Rightarrow> Inr (tbl # tbls))"
      using Cons.prems lo Inr rec by (auto split: sum.splits)
    show ?thesis
      using k one r unfolding q
      by (intro exI [of _ "Suc k"]) (auto split: sum.splits)
  qed
qed


lemma on_the_hour_us:
  assumes "on_the_hour t"
  shows "dt_us t = 3600000000 * (24 * toordinal t + hour t)"
  using assms by (simp add: on_the_hour_def dt_us_def tod_us_def)

lemma hour_grid:
  assumes "on_the_hour a" "on_the_hour b" "dt_us a < dt_us b"
  shows "dt_us a + 3600000000 \<le> dt_us b"
proof -
  define ka where "ka = 24 * toordinal a + hour a"
  define kb where "kb = 24 * toordinal b + hour b"
  have a: "dt_us a = 3600000000 * ka" and b: "dt_us b = 3600000000 * kb"
    using on_the_hour_us [OF assms(1)] on_the_hour_us [OF assms(2)]
    by (simp_all only: ka_def kb_def)
  have "ka < kb" using assms(3) unfolding a b by simp
  then have "ka + 1 \<le> kb" by simp
  then have "3600000000 * (ka + 1) \<le> 3600000000 * kb" by (rule mult_left_mono) simp
  then show ?thesis unfolding a b by (simp add: algebra_simps)
qed

lemma last_hour_on_the_hour:
  "chunk_inv start en \<Longrightarrow> on_the_hour (last_hour_of_month start)"
  using chunk_inv_last_hour(2) [of start en]
  by (simp add: on_the_hour_def last_hour_of_month_def mk_datetime_def)

lemma first_hour_after_start:
  assumes inv: "chunk_inv start en" and nf: "\<not> dt_less en (last_hour_of_month start)"
  shows "dt_us (first_hour_of_next_month start) = dt_us (last_hour_of_month start) + 3600000000"
    and "dt_us start < dt_us (first_hour_of_next_month start)"
    and "dt_us (last_hour_of_month start) \<le> dt_us en"
proof -
  let ?lh = "last_hour_of_month start" and ?nx = "first_hour_of_next_month start"
  note st = chunk_inv_step [OF inv nf]
  have vl: "valid_datetime ?lh" by (rule chunk_inv_last_hour(2) [OF inv])
  have vs: "valid_datetime start" "valid_datetime en" using inv by (simp_all add: chunk_inv_def)
  have vn: "valid_datetime ?nx" using st(2) by (simp add: chunk_inv_def)
  show "dt_us ?nx = dt_us ?lh + 3600000000"
    using datetime_add_Inr [OF vl st(1)] by (simp add: total_microseconds_def)
  have "dt_key start < dt_key ?nx"
    by (auto simp: dt_key_def first_hour_of_next_month_def next_ym_def mk_datetime_def)
  then show "dt_us start < dt_us ?nx" by (rule dt_us_less [OF vs(1) vn])
  show "dt_us ?lh \<le> dt_us en"
    using nf dt_less_iff [OF vs(2) vl] by simp
qed

lemma monthly_chunks_cover:
  assumes "chunk_inv start en" and "on_the_hour t"
  shows "length (filter (holds t) (monthly_chunks start en))
           = (if dt_le start t \<and> dt_le t en then 1 else 0)"
  using assms(1)
proof (induction start en rule: monthly_chunks.induct)
  case (1 start en)
  show ?case
  proof (cases "dt_less en (last_hour_of_month start)")
    case True
    then show ?thesis by (simp add: monthly_chunks_final holds_def)
  next
    case False
    let ?lh = "last_hour_of_month start" and ?nx = "first_hour_of_next_month start"
    note m = monthly_chunks_more [OF "1.prems" False]
    note st = chunk_inv_step [OF "1.prems" False]
    note f = first_hour_after_start [OF "1.prems" False]
    have vt: "valid_datetime t" using assms(2) by (simp add: on_the_hour_def)
    have vs: "valid_datetime start" "valid_datetime en"
      using "1.prems" by (simp_all add: chunk_inv_def)
    have vl: "valid_datetime ?lh" by (rule chunk_inv_last_hour(2) [OF "1.prems"])
    have vn: "valid_datetime ?nx" using st(2) by (simp add: chunk_inv_def)
    have IH: "length (filter (holds t) (monthly_chunks ?nx en))
           = (if dt_le ?nx t \<and> dt_le t en then 1 else 0)"
      by (rule "1.IH") (use False chunk_inv_next_month [OF "1.prems"] st(2) in simp_all)
    have g: "dt_us t \<le> dt_us ?lh \<or> dt_us ?nx \<le> dt_us t"
    proof (cases "dt_us ?lh < dt_us t")
      case True
      then show ?thesis
        using hour_grid [OF last_hour_on_the_hour [OF "1.prems"] assms(2) True] f(1) by simp
    next
      case False
      then show ?thesis by simp
    qed
    define n where "n = length (filter (holds t) (monthly_chunks ?nx en))"
    have h: "holds t (start, ?lh) \<longleftrightarrow> dt_us start \<le> dt_us t \<and> dt_us t \<le> dt_us ?lh"
      by (simp add: holds_def dt_le_iff [OF vs(1) vt] dt_le_iff [OF vt vl])
    have n: "n = (if dt_us ?nx \<le> dt_us t \<and> dt_us t \<le> dt_us en then 1 else 0)"
      unfolding n_def IH by (simp add: dt_le_iff [OF vn vt] dt_le_iff [OF vt vs(2)])
    have r: "(dt_le start t \<and> dt_le t en) \<longleftrightarrow> dt_us start \<le> dt_us t \<and> dt_us t \<le> dt_us en"
      by (simp add: dt_le_iff [OF vs(1) vt] dt_le_iff [OF vt vs(2)])
    have "length (filter (holds t) (monthly_chunks start en))
            = (if holds t (start, ?lh) then 1 else 0) + n"
      unfolding m n_def by simp
    also have "\<dots> = (if dt_le start t \<and> dt_le t en then 1 else 0)"
      unfolding h n r using g f by auto
    finally show ?thesis .
  qed
qed


lemma chunk_inv_all:
  assumes "chunk_inv start en"
  shows "\<forall>c \<in> set (monthly_chunks start en). chunk_inv (fst c) en"
  using assms
proof (induction start en rule: monthly_chunks.induct)
  case (1 start en)
  show ?case
  proof (cases "dt_less en (last_hour_of_month start)")
    case True
    then show ?thesis using "1.prems" by (simp add: monthly_chunks_final)
  next
    case False
    have "\<forall>c \<in> set (monthly_chunks (first_hour_of_next_month start) en). chunk_inv (fst c) en"
      by (rule "1.IH")
         (use False chunk_inv_next_month [OF "1.prems"] chunk_inv_step(2) [OF "1.prems" False]
           in simp_all)
    then show ?thesis
      unfolding monthly_chunks_more [OF "1.prems" False] using "1.prems" by simp
  qed
qed

lemma datetime_diff_total:
  assumes "datetime_diff a b = Inr span"
  shows "total_microseconds span = dt_us a - dt_us b"
  using new_timedelta_Inr [OF assms [unfolded datetime_diff_def]]
  by (simp add: dt_us_def tod_us_def algebra_simps)

lemma whole_hours_long:
  assumes "744 < whole_hours span"
  shows "0 < total_microseconds span"
proof (rule ccontr)
  assume "\<not> 0 < total_microseconds span"
  then have "total_microseconds span \<le> 744 * 3600000000" by simp
  then have "total_microseconds span div 3600000000 \<le> (744 * 3600000000) div 3600000000"
    by (rule zdiv_mono1) simp
  then show False using assms by (simp add: whole_hours_def)
qed

lemma long_span_chunk_inv:
  assumes now: "replace_second_microsecond clock 0 0 = Inr now"
    and vs: "valid_date_arg start_date"
    and res: "get_datetime_limits clock start_date end_date hours = Inr (start, en)"
    and diff: "datetime_diff en start = Inr span"
    and long: "744 < whole_hours span"
    and yr: "year clock \<le> 9998"
  shows "chunk_inv start en"
proof -
  obtain E where v: "valid_datetime start" "valid_datetime E" and en: "en = py_min now E"
    using limits_facts [OF now vs res] by blast
  note n = replace_second_microsecond_Inr [OF now]
  have vn: "valid_datetime now" by (rule n [THEN conjunct1])
  have ve: "valid_datetime en" unfolding en using py_min_us [OF vn v(2)] by simp
  have "dt_le en now" unfolding en by (rule py_min_le)
  then have "\<not> dt_less now en" by (auto simp: dt_le_def dt_less_def)
  then have "year en \<le> year now" by (rule dt_less_year)
  also have "year now = year clock"
    by (subst n [THEN conjunct2]) (simp add: mk_datetime_def)
  finally have y: "year en \<le> 9998" using yr by simp
  have "dt_us start < dt_us en"
    using whole_hours_long [OF long] datetime_diff_total [OF diff] by simp
  then have "\<not> dt_less en start" using dt_less_iff [OF ve v(1)] by simp
  then have "year start \<le> year en" by (rule dt_less_year)
  then show ?thesis using v(1) ve y by (simp add: chunk_inv_def)
qed

lemma get_observations_long:
  assumes "fmi_inputchecks place fmisid parameter None = Inr ()"
    and "param_name_of parameter ''observation'' = Inr name"
    and "get_datetime_limits clock start_date end_date hours = Inr (start, en)"
    and "datetime_diff en start = Inr span"
    and "744 < whole_hours span"
  shows "get_observations L w clock place fmisid parameter hours start_date end_date
           = obs_loop L observations_queryid
               ((location_params place fmisid)(''parameters'' \<mapsto> pyval_of_str name))
               start en (w, []) []"
  using assms by (simp add: get_observations_def Let_def)

lemma chunk_order:
  assumes inv: "chunk_inv start en" and i: "Suc i < length (monthly_chunks start en)"
  shows "dt_less (snd (monthly_chunks start en ! i)) (fst (monthly_chunks start en ! Suc i))"
proof -
  let ?cs = "monthly_chunks start en"
  note b = monthly_chunks_boundaries [OF inv i]
  have "?cs ! i \<in> set ?cs" using i by simp
  then have ci: "chunk_inv (fst (?cs ! i)) en" using chunk_inv_all [OF inv] by blast
  have vl: "valid_datetime (snd (?cs ! i))"
    using chunk_inv_last_hour(2) [OF ci] unfolding b [THEN conjunct1, symmetric] .
  have ad: "datetime_add (snd (?cs ! i)) \<lparr>days = 0, seconds = 3600, microseconds = 0\<rparr>
              = Inr (fst (?cs ! Suc i))"
    using b [THEN conjunct2, THEN conjunct2, THEN conjunct1]
    by (simp add: plus_hours_def timedelta_hours_1)
  have "valid_datetime (fst (?cs ! Suc i))"
      "dt_us (fst (?cs ! Suc i)) = dt_us (snd (?cs ! i)) + 3600000000"
    using datetime_add_Inr [OF vl ad] by (simp_all add: total_microseconds_def)
  then show ?thesis using dt_less_iff [OF vl, of "fst (?cs ! Suc i)"] by simp
qed

lemma final_chunk:
  assumes inv: "chunk_inv start en"
  shows "month_last_h (fst (last (monthly_chunks start en)))
           = Inr (last_hour_of_month (fst (last (monthly_chunks start en))))"
proof -
  have "last (monthly_chunks start en) \<in> set (monthly_chunks start en)"
    using monthly_chunks_ends [OF inv] by simp
  then have "chunk_inv (fst (last (monthly_chunks start en))) en"
    using chunk_inv_all [OF inv] by blast
  then show ?thesis by (rule chunk_inv_last_hour(1))
qed


text \<open>
  The loop of \<open>get_observations\<close>, for ranges of at least 745 whole hours and a clock
  before the year 9999: it loads the chunks of \<open>monthly_chunks start end\<close> one after the
  other and returns their tables concatenated in that order. The first chunk starts at
  \<open>start\<close>, the last one ends at \<open>end\<close>, where the last hour of its month lies after
  \<open>end\<close>; every other chunk ends at the last hour of the month of its start, which is not
  after \<open>end\<close>, and the next chunk starts exactly one hour later. For every instant \<open>t\<close>
  on the hour, exactly one chunk holds \<open>t\<close> when \<open>start \<le> t \<le> end\<close>, and none otherwise.
  The requests sent are those of the chunks, in order, all of them when the call returns a
  table. Nothing here says that a chunk starts before it ends: the first and the last
  one need not, as the examples after the theorem show.
\<close>

theorem long_range_monthly_chunks:
  fixes L :: "('w, 't, 'f) libs"
  defines "ps \<equiv> \<lambda>place fmisid name.
             (location_params place fmisid)(''parameters'' \<mapsto> pyval_of_str name)"
  assumes checks: "fmi_inputchecks place fmisid parameter None = Inr ()"
    and name: "param_name_of parameter ''observation'' = Inr name"
    and now: "replace_second_microsecond clock 0 0 = Inr now"
    and vs: "valid_date_arg start_date"
    and res: "get_datetime_limits clock start_date end_date hours = Inr (start, en)"
    and diff: "datetime_diff en start = Inr span"
    and long: "744 < whole_hours span"
    and yr: "year clock \<le> 9998"
  shows "get_observations L w clock place fmisid parameter hours start_date end_date
           = (case load_chunks L observations_queryid (ps place fmisid name) (w, [])
                     (monthly_chunks start en) of
                (Inl x, st') \<Rightarrow> (Inl x, st')
              | (Inr tbls, st') \<Rightarrow> (Inr (concat tbls), st'))
         \<and> (\<exists>k \<le> length (monthly_chunks start en).
               sent (get_observations L w clock place fmisid parameter hours start_date end_date)
                 = map (chunk_query observations_queryid (ps place fmisid name))
                     (take k (monthly_chunks start en))
               \<and> (\<forall>rows. fst (get_observations L w clock place fmisid parameter hours
                                 start_date end_date) = Inr rows
                      \<longrightarrow> k = length (monthly_chunks start en)))
         \<and> monthly_chunks start en \<noteq> []
         \<and> fst (hd (monthly_chunks start en)) = start
         \<and> snd (last (monthly_chunks start en)) = en
         \<and> (\<exists>lh. month_last_h (fst (last (monthly_chunks start en))) = Inr lh \<and> dt_less en lh)
         \<and> (\<forall>i. Suc i < length (monthly_chunks start en) \<longrightarrow>
               month_last_h (fst (monthly_chunks start en ! i))
                 = Inr (snd (monthly_chunks start en ! i))
               \<and> \<not> dt_less en (snd (monthly_chunks start en ! i))
               \<and> plus_hours (snd (monthly_chunks start en ! i)) 1
                   = Inr (fst (monthly_chunks start en ! Suc i))
               \<and> dt_less (snd (monthly_chunks start en ! i))
                   (fst (monthly_chunks start en ! Suc i)))
         \<and> (\<forall>t. on_the_hour t \<longrightarrow>
               length (filter (holds t) (monthly_chunks start en))
                 = (if dt_le start t \<and> dt_le t en then 1 else 0))"
proof -
  let ?cs = "monthly_chunks start en"
  let ?r = "get_observations L w clock place fmisid parameter hours start_date end_date"
  let ?p = "ps place fmisid name"
  have inv: "chunk_inv start en"
    by (rule long_span_chunk_inv [OF now vs res diff long yr])
  have eq: "?r = (case load_chunks L observations_queryid ?p (w, []) ?cs of
                    (Inl x, st') \<Rightarrow> (Inl x, st')
                  | (Inr tbls, st') \<Rightarrow> (Inr (concat tbls), st'))"
    unfolding get_observations_long [OF checks name res diff long] ps_def
    by (simp add: obs_loop_chunks [OF inv] split: prod.splits sum.splits)
  obtain r st' where lc: "load_chunks L observations_queryid ?p (w, []) ?cs = (r, st')"
    by (cases "load_chunks L observations_queryid ?p (w, []) ?cs") auto
  obtain k where k: "k \<le> length ?cs"
      "snd st' = map (chunk_query observations_queryid ?p) (take k ?cs)"
      "\<forall>tbls. r = Inr tbls \<longrightarrow> k = length ?cs"
    using load_chunks_sent [OF lc] by auto
  have sn: "sent ?r = snd st'" and fs: "\<And>rows. fst ?r = Inr rows \<Longrightarrow> \<exists>tbls. r = Inr tbls"
    unfolding eq lc by (auto simp: sent_def split: sum.splits)
  have log: "\<exists>k \<le> length ?cs.
               sent ?r = map (chunk_query observations_queryid ?p) (take k ?cs)
               \<and> (\<forall>rows. fst ?r = Inr rows \<longrightarrow> k = length ?cs)"
  proof (intro exI [of _ k] conjI allI impI)
    show "k \<le> length ?cs" by (rule k(1))
    show "sent ?r = map (chunk_query observations_queryid ?p) (take k ?cs)"
      unfolding sn by (rule k(2))
    fix rows
    assume "fst ?r = Inr rows"
    from fs [OF this] obtain tbls where "r = Inr tbls" ..
    then show "k = length ?cs" using k(3) by simp
  qed
  note e = monthly_chunks_ends [OF inv]
  have fin: "\<exists>lh. month_last_h (fst (last ?cs)) = Inr lh \<and> dt_less en lh"
    using final_chunk [OF inv] e by blast
  have bd: "\<forall>i. Suc i < length ?cs \<longrightarrow>
               month_last_h (fst (?cs ! i)) = Inr (snd (?cs ! i))
               \<and> \<not> dt_less en (snd (?cs ! i))
               \<and> plus_hours (snd (?cs ! i)) 1 = Inr (fst (?cs ! Suc i))
               \<and> dt_less (snd (?cs ! i)) (fst (?cs ! Suc i))"
    using monthly_chunks_boundaries [OF inv] chunk_order [OF inv] by blast
  have cv: "\<forall>t. on_the_hour t \<longrightarrow>
               length (filter (holds t) ?cs) = (if dt_le start t \<and> dt_le t en then 1 else 0)"
    using monthly_chunks_cover [OF inv] by blast
  show ?thesis
    by (intro conjI) (rule eq log e [THEN conjunct1] e [THEN conjunct2, THEN conjunct1]
        e [THEN conjunct2, THEN conjunct2, THEN conjunct1] fin bd cv)+
qed


theorem long_range_monthly_chunks_example:
  "fst (get_observations echo 0 (mk_datetime 2022 9 25 16 0 17 5) (Some ''Helsinki'') None
          (Some ''temperature'') (Some 1000) None None)
     = Inr [(''2022-08-15T00:00:00'', ''2022-08-31T23:00:00''),
            (''2022-09-01T00:00:00'', ''2022-09-25T16:00:00'')]
   \<and> map (\<lambda>q. (fst q, snd q ''place'', snd q ''parameters'', snd q ''starttime'', snd q ''endtime''))
       (sent (get_observations echo 0 (mk_datetime 2022 9 25 16 0 17 5) (Some ''Helsinki'') None
          (Some ''temperature'') (Some 1000) None None))
     = [(''fmi::observations::weather::hourly::simple'', Some (PStr ''Helsinki''),
         Some (PStr ''TA_PT1H_AVG''), Some (PStr ''2022-08-15T00:00:00''),
         Some (PStr ''2022-08-31T23:00:00'')),
        (''fmi::observations::weather::hourly::simple'', Some (PStr ''Helsinki''),
         Some (PStr ''TA_PT1H_AVG''), Some (PStr ''2022-09-01T00:00:00''),
         Some (PStr ''2022-09-25T16:00:00''))]
   \<and> whole_hours \<lparr>days = 41, seconds = 57600, microseconds = 0\<rparr> = 1000
   \<and> month_last_h (mk_datetime 2022 8 15 0 0 0 0) = Inr (mk_datetime 2022 8 31 23 0 0 0)
   \<and> plus_hours (mk_datetime 2022 8 31 23 0 0 0) 1 = Inr (mk_datetime 2022 9 1 0 0 0 0)
   \<and> length (filter (holds (mk_datetime 2022 8 31 23 0 0 0))
        (monthly_chunks (mk_datetime 2022 8 15 0 0 0 0) (mk_datetime 2022 9 25 16 0 0 0))) = 1
   \<and> length (filter (holds (mk_datetime 2022 9 1 0 0 0 0))
        (monthly_chunks (mk_datetime 2022 8 15 0 0 0 0) (mk_datetime 2022 9 25 16 0 0 0))) = 1
   \<and> length (filter (holds (mk_datetime 2022 9 25 17 0 0 0))
        (monthly_chunks (mk_datetime 2022 8 15 0 0 0 0) (mk_datetime 2022 9 25 16 0 0 0))) = 0"
proof -
  let ?clock = "mk_datetime 2022 9 25 16 0 17 5"
  let ?start = "mk_datetime 2022 8 15 0 0 0 0"
  let ?lh = "mk_datetime 2022 8 31 23 0 0 0"
  let ?nx = "mk_datetime 2022 9 1 0 0 0 0"
  let ?en = "mk_datetime 2022 9 25 16 0 0 0"
  let ?after = "mk_datetime 2022 9 25 17 0 0 0"
  let ?span = "\<lparr>days = 41, seconds = 57600, microseconds = 0\<rparr>"
  let ?r = "get_observations echo 0 ?clock (Some ''Helsinki'') None (Some ''temperature'')
              (Some 1000) None None"
  let ?ps = "(location_params (Some ''Helsinki'') None)
               (''parameters'' \<mapsto> pyval_of_str (Some ''TA_PT1H_AVG''))"
  have c: "fmi_inputchecks (Some ''Helsinki'') None (Some ''temperature'') None = Inr ()"
      "param_name_of (Some ''temperature'') ''observation'' = Inr (Some ''TA_PT1H_AVG'')"
      "replace_second_microsecond ?clock 0 0 = Inr ?en"
    by code_simp+
  have v: "valid_date_arg None" by (simp add: valid_date_arg_def)
  have d: "get_datetime_limits ?clock None None (Some 1000) = Inr (?start, ?en)"
      "datetime_diff ?en ?start = Inr ?span"
    by code_simp+
  have h: "whole_hours ?span = 1000"
    by (simp add: whole_hours_def total_microseconds_def)
  have l: "744 < whole_hours ?span" unfolding h by simp
  have y: "year ?clock \<le> 9998" by (simp add: mk_datetime_def)
  note T = long_range_monthly_chunks [where L = echo and w = 0, OF c v d l y]
  have mc: "monthly_chunks ?start ?en = [(?start, ?lh), (?nx, ?en)]" by code_simp
  have ev: "fst (case load_chunks echo observations_queryid ?ps (0, []) [(?start, ?lh), (?nx, ?en)] of
                   (Inl x, st') \<Rightarrow> (Inl x, st')
                 | (Inr tbls, st') \<Rightarrow> (Inr (concat tbls), st'))
              = Inr [(''2022-08-15T00:00:00'', ''2022-08-31T23:00:00''),
                     (''2022-09-01T00:00:00'', ''2022-09-25T16:00:00'')]"
    by code_simp
  have a: "fst ?r = Inr [(''2022-08-15T00:00:00'', ''2022-08-31T23:00:00''),
                         (''2022-09-01T00:00:00'', ''2022-09-25T16:00:00'')]"
    by (simp only: T [THEN conjunct1] mc ev)
  obtain k where k: "sent ?r = map (chunk_query observations_queryid ?ps)
                                 (take k (monthly_chunks ?start ?en))"
      "\<forall>rows. fst ?r = Inr rows \<longrightarrow> k = length (monthly_chunks ?start ?en)"
    using T [THEN conjunct2, THEN conjunct1] by blast
  have "k = 2" using k(2) a unfolding mc by simp
  then have s: "sent ?r = map (chunk_query observations_queryid ?ps) [(?start, ?lh), (?nx, ?en)]"
    using k(1) unfolding mc by simp
  have i: "isoformat ?start = ''2022-08-15T00:00:00''" "isoformat ?lh = ''2022-08-31T23:00:00''"
      "isoformat ?nx = ''2022-09-01T00:00:00''" "isoformat ?en = ''2022-09-25T16:00:00''"
    by code_simp+
  have b: "map (\<lambda>q. (fst q, snd q ''place'', snd q ''parameters'', snd q ''starttime'',
                      snd q ''endtime'')) (sent ?r)
     = [(''fmi::observations::weather::hourly::simple'', Some (PStr ''Helsinki''),
         Some (PStr ''TA_PT1H_AVG''), Some (PStr ''2022-08-15T00:00:00''),
         Some (PStr ''2022-08-31T23:00:00'')),
        (''fmi::observations::weather::hourly::simple'', Some (PStr ''Helsinki''),
         Some (PStr ''TA_PT1H_AVG''), Some (PStr ''2022-09-01T00:00:00''),
         Some (PStr ''2022-09-25T16:00:00''))]"
    unfolding s
    by (simp add: chunk_query_def i observations_queryid_def location_params_def truthy_str_def
          pyval_of_str_def)
  note bd = T [THEN conjunct2, THEN conjunct2, THEN conjunct2, THEN conjunct2, THEN conjunct2,
               THEN conjunct2, THEN conjunct1, rule_format, of 0]
  have m: "month_last_h ?start = Inr ?lh" "plus_hours ?lh 1 = Inr ?nx"
    using bd unfolding mc by simp_all
  note cv = T [THEN conjunct2, THEN conjunct2, THEN conjunct2, THEN conjunct2, THEN conjunct2,
               THEN conjunct2, THEN conjunct2, rule_format]
  have o: "on_the_hour ?lh" "on_the_hour ?nx" "on_the_hour ?after"
      "dt_le ?start ?lh" "dt_le ?lh ?en" "dt_le ?start ?nx" "dt_le ?nx ?en" "\<not> dt_le ?after ?en"
    by code_simp+
  have n: "length (filter (holds ?lh) (monthly_chunks ?start ?en)) = 1"
      "length (filter (holds ?nx) (monthly_chunks ?start ?en)) = 1"
      "length (filter (holds ?after) (monthly_chunks ?start ?en)) = 0"
    using cv [OF o(1)] cv [OF o(2)] cv [OF o(3)] o(4-8) by simp_all
  show ?thesis
    by (intro conjI) (rule a b h m n)+
qed

lemma same_month_last_hour:
  assumes "year a = year b" "month a = month b"
  shows "last_hour_of_month a = last_hour_of_month b"
  using assms by (simp add: last_hour_of_month_def)

lemma dt_key_year_month:
  "dt_key a \<le> dt_key b \<Longrightarrow> year a < year b \<or> year a = year b \<and> month a \<le> month b"
  unfolding dt_key_def by (simp add: order_le_less) blast

lemma between_start_and_last_hour:
  assumes "\<not> dt_less en start" "dt_less en (last_hour_of_month start)"
  shows "year en = year start \<and> month en = month start"
proof -
  have 1: "dt_key start \<le> dt_key en" using assms(1) by (simp add: dt_less_def not_less)
  have 2: "dt_key en \<le> dt_key (last_hour_of_month start)"
    using assms(2) by (simp add: dt_less_def)
  have 3: "year (last_hour_of_month start) = year start"
      "month (last_hour_of_month start) = month start"
    by (simp_all add: last_hour_of_month_def mk_datetime_def)
  show ?thesis
    using dt_key_year_month [OF 1] dt_key_year_month [OF 2] unfolding 3 by linarith
qed

text \<open>
  When \<open>end\<close> is not before the last hour of its own month, the last chunk starts after
  \<open>end\<close>: the loop has gone one round too far.
\<close>

lemma reversed_final_chunk:
  assumes inv: "chunk_inv start en" and late: "\<not> dt_less en (last_hour_of_month en)"
  shows "dt_less en (fst (last (monthly_chunks start en)))"
proof (rule ccontr)
  let ?s = "fst (last (monthly_chunks start en))"
  assume n: "\<not> dt_less en ?s"
  have b: "dt_less en (last_hour_of_month ?s)"
    using monthly_chunks_ends [OF inv] by blast
  have "last_hour_of_month en = last_hour_of_month ?s"
    using between_start_and_last_hour [OF n b] by (intro same_month_last_hour) simp_all
  then show False using late b by simp
qed




lemma long_range_requests:
  assumes "fmi_inputchecks place fmisid parameter None = Inr ()"
    and "param_name_of parameter ''observation'' = Inr name"
    and "replace_second_microsecond clock 0 0 = Inr now"
    and "valid_date_arg start_date"
    and "get_datetime_limits clock start_date end_date hours = Inr (start, en)"
    and "datetime_diff en start = Inr span"
    and "744 < whole_hours span"
    and "year clock \<le> 9998"
    and "monthly_chunks start en = cs"
    and "fst (case load_chunks L observations_queryid
                     ((location_params place fmisid)(''parameters'' \<mapsto> pyval_of_str name))
                     (w, []) cs of
                (Inl x, st') \<Rightarrow> (Inl x, st')
              | (Inr tbls, st') \<Rightarrow> (Inr (concat tbls), st')) = Inr rows"
  shows "sent (get_observations L w clock place fmisid parameter hours start_date end_date)
           = map (chunk_query observations_queryid
                    ((location_params place fmisid)(''parameters'' \<mapsto> pyval_of_str name))) cs"
proof -
  note T = long_range_monthly_chunks [OF assms(1-8), of L w]
  let ?r = "get_observations L w clock place fmisid parameter hours start_date end_date"
  have a: "fst ?r = Inr rows"
    by (simp only: T [THEN conjunct1] assms(9,10))
  obtain k where k: "sent ?r = map (chunk_query observations_queryid
                    ((location_params place fmisid)(''parameters'' \<mapsto> pyval_of_str name)))
                                 (take k (monthly_chunks start en))"
      "\<forall>rows. fst ?r = Inr rows \<longrightarrow> k = length (monthly_chunks start en)"
    using T [THEN conjunct2, THEN conjunct1] by blast
  have "k = length cs" using k(2) a assms(9) by simp
  then show ?thesis using k(1) assms(9) by simp
qed

text \<open>
  C1 fails for a range that ends in the last hour of a month. With the start date
  2022-07-01, the end date 2022-08-31 and the clock at 2022-10-01 00:00 the range is from
  2022-07-01 00:00 to 2022-08-31 23:59, of 1487 whole hours. The block of August ends at
  the last hour of the month, 23:00, which is not after the end of the range, so the loop
  goes on and sends a third request, from 2022-09-01 00:00 to 2022-08-31 23:59: it starts
  after it ends and lies outside the range.
\<close>

theorem month_end_range_reversed_request:
  "get_datetime_limits (mk_datetime 2022 10 1 0 0 0 0) (Some (DateStr ''2022-07-01''))
       (Some (DateStr ''2022-08-31'')) None
     = Inr (mk_datetime 2022 7 1 0 0 0 0, mk_datetime 2022 8 31 23 59 0 0)
   \<and> datetime_diff (mk_datetime 2022 8 31 23 59 0 0) (mk_datetime 2022 7 1 0 0 0 0)
       = Inr \<lparr>days = 61, seconds = 86340, microseconds = 0\<rparr>
   \<and> whole_hours \<lparr>days = 61, seconds = 86340, microseconds = 0\<rparr> = 1487
   \<and> map (\<lambda>q. (snd q ''starttime'', snd q ''endtime''))
       (sent (get_observations echo 0 (mk_datetime 2022 10 1 0 0 0 0) (Some ''Helsinki'') None
          (Some ''temperature'') None (Some (DateStr ''2022-07-01'')) (Some (DateStr ''2022-08-31''))))
     = [(Some (PStr ''2022-07-01T00:00:00''), Some (PStr ''2022-07-31T23:00:00'')),
        (Some (PStr ''2022-08-01T00:00:00''), Some (PStr ''2022-08-31T23:00:00'')),
        (Some (PStr ''2022-09-01T00:00:00''), Some (PStr ''2022-08-31T23:59:00''))]
   \<and> dt_less (mk_datetime 2022 8 31 23 59 0 0) (mk_datetime 2022 9 1 0 0 0 0)"
proof -
  let ?clock = "mk_datetime 2022 10 1 0 0 0 0"
  let ?start = "mk_datetime 2022 7 1 0 0 0 0"
  let ?en = "mk_datetime 2022 8 31 23 59 0 0"
  let ?cs = "[(?start, mk_datetime 2022 7 31 23 0 0 0),
              (mk_datetime 2022 8 1 0 0 0 0, mk_datetime 2022 8 31 23 0 0 0),
              (mk_datetime 2022 9 1 0 0 0 0, ?en)]"
  let ?span = "\<lparr>days = 61, seconds = 86340, microseconds = 0\<rparr>"
  let ?ps = "(location_params (Some ''Helsinki'') None)
               (''parameters'' \<mapsto> pyval_of_str (Some ''TA_PT1H_AVG''))"
  have c: "fmi_inputchecks (Some ''Helsinki'') None (Some ''temperature'') None = Inr ()"
      "param_name_of (Some ''temperature'') ''observation'' = Inr (Some ''TA_PT1H_AVG'')"
      "replace_second_microsecond ?clock 0 0 = Inr ?clock"
      "valid_date_arg (Some (DateStr ''2022-07-01''))"
    by code_simp+
  have d: "get_datetime_limits ?clock (Some (DateStr ''2022-07-01''))
             (Some (DateStr ''2022-08-31'')) None = Inr (?start, ?en)"
      "datetime_diff ?en ?start = Inr ?span"
    by code_simp+
  have h: "whole_hours ?span = 1487"
    by (simp add: whole_hours_def total_microseconds_def)
  have l: "744 < whole_hours ?span" unfolding h by simp
  have y: "year ?clock \<le> 9998" by (simp add: mk_datetime_def)
  have mc: "monthly_chunks ?start ?en = ?cs" by code_simp
  have ev: "fst (case load_chunks echo observations_queryid ?ps (0, []) ?cs of
                   (Inl x, st') \<Rightarrow> (Inl x, st')
                 | (Inr tbls, st') \<Rightarrow> (Inr (concat tbls), st'))
              = Inr [(''2022-07-01T00:00:00'', ''2022-07-31T23:00:00''),
                     (''2022-08-01T00:00:00'', ''2022-08-31T23:00:00''),
                     (''2022-09-01T00:00:00'', ''2022-08-31T23:59:00'')]"
    by code_simp
  note s = long_range_requests [OF c d l y mc ev]
  have i: "isoformat ?start = ''2022-07-01T00:00:00''"
      "isoformat (mk_datetime 2022 7 31 23 0 0 0) = ''2022-07-31T23:00:00''"
      "isoformat (mk_datetime 2022 8 1 0 0 0 0) = ''2022-08-01T00:00:00''"
      "isoformat (mk_datetime 2022 8 31 23 0 0 0) = ''2022-08-31T23:00:00''"
      "isoformat (mk_datetime 2022 9 1 0 0 0 0) = ''2022-09-01T00:00:00''"
      "isoformat ?en = ''2022-08-31T23:59:00''"
    by code_simp+
  have b: "map (\<lambda>q. (snd q ''starttime'', snd q ''endtime''))
       (sent (get_observations echo 0 ?clock (Some ''Helsinki'') None
          (Some ''temperature'') None (Some (DateStr ''2022-07-01'')) (Some (DateStr ''2022-08-31''))))
     = [(Some (PStr ''2022-07-01T00:00:00''), Some (PStr ''2022-07-31T23:00:00'')),
        (Some (PStr ''2022-08-01T00:00:00''), Some (PStr ''2022-08-31T23:00:00'')),
        (Some (PStr ''2022-09-01T00:00:00''), Some (PStr ''2022-08-31T23:59:00''))]"
    unfolding s by (simp add: chunk_query_def i)
  have r: "dt_less ?en (mk_datetime 2022 9 1 0 0 0 0)" by code_simp
  show ?thesis
    by (intro conjI) (rule d h b r)+
qed


text \<open>
  A range that starts after the last hour of a month: with \<open>hours=745\<close> and the clock at
  2022-10-02 00:59 the first request runs from 2022-08-31 23:59 back to 2022-08-31 23:00.
\<close>

theorem late_start_reversed_first_request:
  "get_datetime_limits (mk_datetime 2022 10 2 0 59 30 0) None None (Some 745)
     = Inr (mk_datetime 2022 8 31 23 59 0 0, mk_datetime 2022 10 2 0 59 0 0)
   \<and> map (\<lambda>q. (snd q ''starttime'', snd q ''endtime''))
       (sent (get_observations echo 0 (mk_datetime 2022 10 2 0 59 30 0) (Some ''Helsinki'') None
          (Some ''temperature'') (Some 745) None None))
     = [(Some (PStr ''2022-08-31T23:59:00''), Some (PStr ''2022-08-31T23:00:00'')),
        (Some (PStr ''2022-09-01T00:00:00''), Some (PStr ''2022-09-30T23:00:00'')),
        (Some (PStr ''2022-10-01T00:00:00''), Some (PStr ''2022-10-02T00:59:00''))]
   \<and> dt_less (mk_datetime 2022 8 31 23 0 0 0) (mk_datetime 2022 8 31 23 59 0 0)"
proof -
  let ?clock = "mk_datetime 2022 10 2 0 59 30 0"
  let ?start = "mk_datetime 2022 8 31 23 59 0 0"
  let ?en = "mk_datetime 2022 10 2 0 59 0 0"
  let ?cs = "[(?start, mk_datetime 2022 8 31 23 0 0 0),
              (mk_datetime 2022 9 1 0 0 0 0, mk_datetime 2022 9 30 23 0 0 0),
              (mk_datetime 2022 10 1 0 0 0 0, ?en)]"
  let ?span = "\<lparr>days = 31, seconds = 3600, microseconds = 0\<rparr>"
  let ?ps = "(location_params (Some ''Helsinki'') None)
               (''parameters'' \<mapsto> pyval_of_str (Some ''TA_PT1H_AVG''))"
  have c: "fmi_inputchecks (Some ''Helsinki'') None (Some ''temperature'') None = Inr ()"
      "param_name_of (Some ''temperature'') ''observation'' = Inr (Some ''TA_PT1H_AVG'')"
      "replace_second_microsecond ?clock 0 0 = Inr ?en"
      "valid_date_arg None"
    by code_simp+
  have d: "get_datetime_limits ?clock None None (Some 745) = Inr (?start, ?en)"
      "datetime_diff ?en ?start = Inr ?span"
    by code_simp+
  have l: "744 < whole_hours ?span"
    by (simp add: whole_hours_def total_microseconds_def)
  have y: "year ?clock \<le> 9998" by (simp add: mk_datetime_def)
  have mc: "monthly_chunks ?start ?en = ?cs" by code_simp
  have ev: "fst (case load_chunks echo observations_queryid ?ps (0, []) ?cs of
                   (Inl x, st') \<Rightarrow> (Inl x, st')
                 | (Inr tbls, st') \<Rightarrow> (Inr (concat tbls), st'))
              = Inr [(''2022-08-31T23:59:00'', ''2022-08-31T23:00:00''),
                     (''2022-09-01T00:00:00'', ''2022-09-30T23:00:00''),
                     (''2022-10-01T00:00:00'', ''2022-10-02T00:59:00'')]"
    by code_simp
  note s = long_range_requests [OF c d l y mc ev]
  have i: "isoformat ?start = ''2022-08-31T23:59:00''"
      "isoformat (mk_datetime 2022 8 31 23 0 0 0) = ''2022-08-31T23:00:00''"
      "isoformat (mk_datetime 2022 9 1 0 0 0 0) = ''2022-09-01T00:00:00''"
      "isoformat (mk_datetime 2022 9 30 23 0 0 0) = ''2022-09-30T23:00:00''"
      "isoformat (mk_datetime 2022 10 1 0 0 0 0) = ''2022-10-01T00:00:00''"
      "isoformat ?en = ''2022-10-02T00:59:00''"
    by code_simp+
  have b: "map (\<lambda>q. (snd q ''starttime'', snd q ''endtime''))
       (sent (get_observations echo 0 ?clock (Some ''Helsinki'') None
          (Some ''temperature'') (Some 745) None None))
     = [(Some (PStr ''2022-08-31T23:59:00''), Some (PStr ''2022-08-31T23:00:00'')),
        (Some (PStr ''2022-09-01T00:00:00''), Some (PStr ''2022-09-30T23:00:00'')),
        (Some (PStr ''2022-10-01T00:00:00''), Some (PStr ''2022-10-02T00:59:00''))]"
    unfolding s by (simp add: chunk_query_def i)
  have r: "dt_less (mk_datetime 2022 8 31 23 0 0 0) ?start" by code_simp
  show ?thesis
    by (intro conjI) (rule d(1) b r)+
qed

text \<open>
  A range of 744 hours and 30 minutes exceeds 744 hours, but its whole hours do not: the
  range is loaded with one request, although the last hour of the start's month
  (2022-08-31 23:00) lies before its end.
\<close>

theorem range_of_744_hours_30_minutes_one_request:
  "get_datetime_limits (mk_datetime 2022 9 1 0 30 17 5) (Some (DateStr ''2022-08-01'')) None None
     = Inr (mk_datetime 2022 8 1 0 0 0 0, mk_datetime 2022 9 1 0 30 0 0)
   \<and> datetime_diff (mk_datetime 2022 9 1 0 30 0 0) (mk_datetime 2022 8 1 0 0 0 0)
       = Inr \<lparr>days = 31, seconds = 1800, microseconds = 0\<rparr>
   \<and> total_microseconds \<lparr>days = 31, seconds = 1800, microseconds = 0\<rparr> > 744 * 3600000000
   \<and> whole_hours \<lparr>days = 31, seconds = 1800, microseconds = 0\<rparr> = 744
   \<and> month_last_h (mk_datetime 2022 8 1 0 0 0 0) = Inr (mk_datetime 2022 8 31 23 0 0 0)
   \<and> dt_less (mk_datetime 2022 8 31 23 0 0 0) (mk_datetime 2022 9 1 0 30 0 0)
   \<and> map (\<lambda>q. (fst q, snd q ''place'', snd q ''parameters'', snd q ''starttime'', snd q ''endtime''))
       (sent (get_observations echo 0 (mk_datetime 2022 9 1 0 30 17 5) (Some ''Helsinki'') None
          (Some ''temperature'') None (Some (DateStr ''2022-08-01'')) None))
       = [(''fmi::observations::weather::hourly::simple'', Some (PStr ''Helsinki''),
           Some (PStr ''TA_PT1H_AVG''), Some (PStr ''2022-08-01T00:00:00''),
           Some (PStr ''2022-09-01T00:30:00''))]"
proof -
  let ?start = "mk_datetime 2022 8 1 0 0 0 0"
  let ?en = "mk_datetime 2022 9 1 0 30 0 0"
  have c: "fmi_inputchecks (Some ''Helsinki'') None (Some ''temperature'') None = Inr ()"
      "param_name_of (Some ''temperature'') ''observation'' = Inr (Some ''TA_PT1H_AVG'')"
      "get_datetime_limits (mk_datetime 2022 9 1 0 30 17 5) (Some (DateStr ''2022-08-01'')) None None
         = Inr (?start, ?en)"
      "datetime_diff ?en ?start = Inr \<lparr>days = 31, seconds = 1800, microseconds = 0\<rparr>"
    by code_simp+
  have t: "total_microseconds \<lparr>days = 31, seconds = 1800, microseconds = 0\<rparr> > 744 * 3600000000"
      "whole_hours \<lparr>days = 31, seconds = 1800, microseconds = 0\<rparr> = 744"
    by (simp_all add: total_microseconds_def whole_hours_def)
  have m: "month_last_h ?start = Inr (mk_datetime 2022 8 31 23 0 0 0)"
      "dt_less (mk_datetime 2022 8 31 23 0 0 0) ?en"
    by code_simp+
  have i: "isoformat ?start = ''2022-08-01T00:00:00''" "isoformat ?en = ''2022-09-01T00:30:00''"
      "location_params (Some ''Helsinki'') None = [''place'' \<mapsto> PStr ''Helsinki'']"
    by (code_simp, code_simp, simp add: location_params_def truthy_str_def pyval_of_str_def)
  have w: "whole_hours \<lparr>days = 31, seconds = 1800, microseconds = 0\<rparr> \<le> 744"
    using t(2) by simp
  show ?thesis
    using get_observations_single(2) [OF c w, of echo 0] c(3,4) t m
    by (simp add: i observations_queryid_def pyval_of_str_def)
qed


end
